(* ===== verification/Prelude.thy ===== *)
theory Prelude
  imports Main "HOL-Library.Word" "HOL-Library.Sublist"
begin

text \<open>
  Shared vocabulary of the development: the machine integers and byte strings of the Rust sources,
  the parts of the Rust standard library that the sources call on them (decimal printing and
  parsing, \<open>str::trim\<close>, \<open>str::contains\<close>, \<open>str::split_whitespace\<close>, UTF-8 decoding,
  \<open>saturating_sub\<close>), and the generic lemmas and simplification collections that the component
  theories use.

  A Rust \<open>String\<close>, \<open>str\<close>, \<open>Vec<u8>\<close> or \<open>Bytes\<close> is a \<^typ>\<open>string\<close> here, a list of
  bytes: Isabelle's \<^typ>\<open>char\<close> has 256 values, and \<open>str::len\<close> counts bytes.
\<close>

named_theorems engine_simps \<open>unfolding rules for the rule engines\<close>
named_theorems proxy_simps \<open>unfolding rules for the proxy handlers\<close>
named_theorems jail_simps \<open>unfolding rules for the jail life cycle\<close>

type_synonym u8 = "8 word"
type_synonym u16 = "16 word"
type_synonym u32 = "32 word"
type_synonym u64 = "64 word"

text \<open>A Rust \<open>Result<T, String>\<close> or \<open>anyhow::Result<T>\<close>: \<^const>\<open>Inl\<close> is \<open>Err\<close>, with its message.\<close>

type_synonym 'a result = "string + 'a"

abbreviation Err :: "string \<Rightarrow> 'a result" where "Err \<equiv> Inl"
abbreviation Ok :: "'a \<Rightarrow> 'a result" where "Ok \<equiv> Inr"

definition is_ok :: "'a result \<Rightarrow> bool" where
  "is_ok r = (case r of Inl _ \<Rightarrow> False | Inr _ \<Rightarrow> True)"

lemma is_ok_simps [simp]: "is_ok (Ok x)" "\<not> is_ok (Err e)"
  by (simp_all add: is_ok_def)

text \<open>
  Fallible code that changes a world \<open>'w\<close>: \<open>and_then\<close> is \<open>let x = m?;\<close> followed by the rest of
  the function, which an error skips.
\<close>

type_synonym ('w, 'a) fallible = "'w \<Rightarrow> 'a result \<times> 'w"

definition and_then :: "('w, 'a) fallible \<Rightarrow> ('a \<Rightarrow> ('w, 'b) fallible) \<Rightarrow> ('w, 'b) fallible" where
  "and_then m f w = (case m w of (Inl e, w') \<Rightarrow> (Err e, w') | (Inr x, w') \<Rightarrow> f x w')"

definition return_ok :: "'a \<Rightarrow> ('w, 'a) fallible" where
  "return_ok x w = (Ok x, w)"

lemma and_then_simps [simp]:
  "m w = (Err e, w') \<Longrightarrow> and_then m f w = (Err e, w')"
  "m w = (Ok x, w') \<Longrightarrow> and_then m f w = f x w'"
  by (simp_all add: and_then_def)

lemma and_then_ok:
  "and_then m f w = (Ok y, w'') \<longleftrightarrow> (\<exists>x w'. m w = (Ok x, w') \<and> f x w' = (Ok y, w''))"
  by (auto simp: and_then_def split: prod.splits sum.splits)

section \<open>Machine integers\<close>

definition saturating_sub :: "'a::len word \<Rightarrow> 'a word \<Rightarrow> 'a word" where
  "saturating_sub a b = (if b \<le> a then a - b else 0)"

definition saturating_add :: "'a::len word \<Rightarrow> 'a word \<Rightarrow> 'a word" where
  "saturating_add a b = (if unat a + unat b < 2 ^ LENGTH('a) then a + b else - 1)"

lemma unat_saturating_sub: "unat (saturating_sub a b) = unat a - unat b"
  by (simp add: saturating_sub_def unat_sub word_le_nat_alt)

lemma unat_saturating_add_small:
  fixes a b :: "'a::len word"
  assumes "unat a + unat b < 2 ^ LENGTH('a)"
  shows "unat (saturating_add a b) = unat a + unat b"
  using assms by (simp add: saturating_add_def unat_word_ariths)

lemma unat_of_nat_small: "n < 2 ^ LENGTH('a::len) \<Longrightarrow> unat (of_nat n :: 'a word) = n"
  by (simp add: unat_of_nat)

lemma unat_less_2p: "unat (x :: 'a::len word) < 2 ^ LENGTH('a)"
  by (rule unsigned_less)

lemma unat_add_no_wrap:
  fixes a b :: "'a::len word"
  assumes "unat a + unat b < 2 ^ LENGTH('a)"
  shows "unat (a + b) = unat a + unat b"
  using assms by (simp add: unat_word_ariths)

section \<open>Decimal integers\<close>

text \<open>\<open>dec n\<close> is what \<open>format!("{}", n)\<close> prints for an unsigned integer.\<close>

definition digit_char :: "nat \<Rightarrow> char" where
  "digit_char d = ''0123456789'' ! d"

fun dec :: "nat \<Rightarrow> string" where
  "dec n = (if n < 10 then [digit_char n] else dec (n div 10) @ [digit_char (n mod 10)])"

declare dec.simps [simp del]

text \<open>
  \<open>parse_unsigned b s\<close> is \<open>s.parse::<uN>()\<close> for the unsigned type with \<open>b\<close> values: an optional
  leading plus sign, at least one digit, nothing but digits, and a value below \<open>b\<close>.
\<close>

definition digit_val :: "char \<Rightarrow> nat option" where
  "digit_val c = (let n = of_char c :: nat in if 48 \<le> n \<and> n \<le> 57 then Some (n - 48) else None)"

fun parse_digits :: "nat \<Rightarrow> nat \<Rightarrow> string \<Rightarrow> nat option" where
  "parse_digits b acc [] = Some acc"
| "parse_digits b acc (c # cs) =
     (case digit_val c of
        None \<Rightarrow> None
      | Some d \<Rightarrow> (if acc * 10 + d < b then parse_digits b (acc * 10 + d) cs else None))"

definition parse_unsigned :: "nat \<Rightarrow> string \<Rightarrow> nat option" where
  "parse_unsigned b s =
     (let t = (case s of c # cs \<Rightarrow> (if c = CHR ''+'' then cs else s) | [] \<Rightarrow> [])
      in if t = [] then None else parse_digits b 0 t)"

definition parse_u64 :: "string \<Rightarrow> u64 option" where
  "parse_u64 s = map_option of_nat (parse_unsigned (2 ^ 64) s)"

definition parse_u16 :: "string \<Rightarrow> u16 option" where
  "parse_u16 s = map_option of_nat (parse_unsigned (2 ^ 16) s)"

lemma less_10_cases:
  "(d::nat) < 10 \<Longrightarrow> d = 0 \<or> d = 1 \<or> d = 2 \<or> d = 3 \<or> d = 4 \<or> d = 5 \<or> d = 6 \<or> d = 7 \<or> d = 8 \<or> d = 9"
  by arith

lemma of_char_digit_char: "d < 10 \<Longrightarrow> (of_char (digit_char d) :: nat) = 48 + d"
  by (drule less_10_cases) (elim disjE; simp add: digit_char_def)

lemma digit_val_digit_char [simp]: "d < 10 \<Longrightarrow> digit_val (digit_char d) = Some d"
  by (simp add: digit_val_def of_char_digit_char Let_def)

lemma digit_char_not_plus: "d < 10 \<Longrightarrow> digit_char d \<noteq> CHR ''+''"
proof
  assume "d < 10" and "digit_char d = CHR ''+''"
  then have "48 + d = (of_char (CHR ''+'') :: nat)"
    by (metis of_char_digit_char)
  then show False by simp
qed

lemma dec_nonempty [simp]: "dec n \<noteq> []"
  by (subst dec.simps) simp

lemma dec_digits: "set (dec n) \<subseteq> digit_char ` {0..<10}"
proof (induction n rule: dec.induct)
  case (1 n)
  then show ?case by (subst dec.simps) auto
qed

lemma hd_dec_not_plus: "hd (dec n) \<noteq> CHR ''+''"
  using dec_digits [of n] hd_in_set [OF dec_nonempty, of n] digit_char_not_plus by fastforce

lemma parse_digits_append:
  "parse_digits b acc (xs @ ys) =
     (case parse_digits b acc xs of None \<Rightarrow> None | Some a \<Rightarrow> parse_digits b a ys)"
  by (induction xs arbitrary: acc) (auto split: option.splits)

lemma parse_digits_dec: "n < b \<Longrightarrow> parse_digits b 0 (dec n) = Some n"
proof (induction n rule: dec.induct)
  case (1 n)
  show ?case
  proof (cases "n < 10")
    case True
    with "1.prems" show ?thesis by (subst dec.simps) simp
  next
    case False
    with "1.prems" have "n div 10 < b" by (meson div_le_dividend le_less_trans)
    with False "1.IH" have ih: "parse_digits b 0 (dec (n div 10)) = Some (n div 10)" by simp
    have dig: "digit_val (digit_char (n mod 10)) = Some (n mod 10)" by simp
    have "n div 10 * 10 + n mod 10 = n" by simp
    with False ih dig "1.prems" show ?thesis
      by (subst dec.simps) (simp add: parse_digits_append)
  qed
qed

lemma parse_unsigned_dec: "n < b \<Longrightarrow> parse_unsigned b (dec n) = Some n"
proof -
  assume n: "n < b"
  have "\<exists>c cs. dec n = c # cs \<and> c \<noteq> CHR ''+''"
    by (metis dec_nonempty hd_dec_not_plus list.collapse)
  then obtain c cs where "dec n = c # cs" and "c \<noteq> CHR ''+''" by blast
  with parse_digits_dec [OF n] show ?thesis
    by (simp add: parse_unsigned_def)
qed

lemma parse_digits_bound: "parse_digits b acc s = Some n \<Longrightarrow> acc < b \<Longrightarrow> n < b"
  by (induction s arbitrary: acc) (auto split: option.splits if_splits)

section \<open>Strings\<close>

definition starts_with :: "string \<Rightarrow> string \<Rightarrow> bool" where
  "starts_with s p = prefix p s"

definition strip_prefix :: "string \<Rightarrow> string \<Rightarrow> string option" where
  "strip_prefix p s = (if prefix p s then Some (drop (length p) s) else None)"

text \<open>\<open>str_contains p s\<close> is \<open>s.contains(p)\<close>.\<close>

definition str_contains :: "string \<Rightarrow> string \<Rightarrow> bool" where
  "str_contains p s = list_ex (prefix p) (suffixes s)"

lemma str_contains_iff: "str_contains p s \<longleftrightarrow> (\<exists>a b. s = a @ p @ b)"
  unfolding str_contains_def list_ex_iff Bex_def in_set_suffixes prefix_def suffix_def by metis

lemma strip_prefix_append [simp]: "strip_prefix p (p @ s) = Some s"
  by (simp add: strip_prefix_def)

lemma strip_prefix_Some: "strip_prefix p s = Some t \<longleftrightarrow> s = p @ t"
  by (auto simp: strip_prefix_def prefix_def)

fun join_with :: "string \<Rightarrow> string list \<Rightarrow> string" where
  "join_with sep [] = []"
| "join_with sep [x] = x"
| "join_with sep (x # y # zs) = x @ sep @ join_with sep (y # zs)"

abbreviation newline :: string where "newline \<equiv> [CHR 0x0A]"
abbreviation crlf :: string where "crlf \<equiv> [CHR 0x0D, CHR 0x0A]"

text \<open>\<open>str::lines\<close>; the first argument is the line read so far, from its end.\<close>

fun str_lines :: "string \<Rightarrow> string \<Rightarrow> string list" where
  "str_lines acc [] = (if acc = [] then [] else [rev acc])"
| "str_lines acc (c # cs) =
     (if c = CHR 0x0A
      then rev (case acc of a # as \<Rightarrow> if a = CHR 0x0D then as else acc | [] \<Rightarrow> []) # str_lines [] cs
      else str_lines (c # acc) cs)"

section \<open>UTF-8\<close>

text \<open>
  \<open>utf8_next s\<close> reads one character off a nonempty byte string, as the decoder behind
  \<open>str::from_utf8\<close> and \<open>String::from_utf8_lossy\<close> does: \<open>(True, n)\<close> is a well-formed character
  of \<open>n\<close> bytes, \<open>(False, n)\<close> an ill-formed sequence whose first \<open>n\<close> bytes are replaced as one.
\<close>

abbreviation byte_at :: "string \<Rightarrow> nat \<Rightarrow> nat" where
  "byte_at s i \<equiv> (if i < length s then of_char (s ! i) else 0)"

definition cont_byte :: "nat \<Rightarrow> bool" where
  "cont_byte b = (128 \<le> b \<and> b \<le> 191)"

definition utf8_second_ok :: "nat \<Rightarrow> nat \<Rightarrow> bool" where
  "utf8_second_ok b0 b1 =
     (if b0 = 0xE0 then 0xA0 \<le> b1 \<and> b1 \<le> 0xBF
      else if b0 = 0xED then 0x80 \<le> b1 \<and> b1 \<le> 0x9F
      else if b0 = 0xF0 then 0x90 \<le> b1 \<and> b1 \<le> 0xBF
      else if b0 = 0xF4 then 0x80 \<le> b1 \<and> b1 \<le> 0x8F
      else cont_byte b1)"

definition utf8_next :: "string \<Rightarrow> bool \<times> nat" where
  "utf8_next s =
     (let b0 = byte_at s 0; b1 = byte_at s 1; b2 = byte_at s 2; b3 = byte_at s 3
      in if b0 < 0x80 then (True, 1)
         else if 0xC2 \<le> b0 \<and> b0 \<le> 0xDF then (if cont_byte b1 then (True, 2) else (False, 1))
         else if 0xE0 \<le> b0 \<and> b0 \<le> 0xEF then
           (if \<not> utf8_second_ok b0 b1 then (False, 1)
            else if cont_byte b2 then (True, 3) else (False, 2))
         else if 0xF0 \<le> b0 \<and> b0 \<le> 0xF4 then
           (if \<not> utf8_second_ok b0 b1 then (False, 1)
            else if \<not> cont_byte b2 then (False, 2)
            else if cont_byte b3 then (True, 4) else (False, 3))
         else (False, 1))"

lemma utf8_next_pos: "0 < snd (utf8_next s)"
  by (auto simp: utf8_next_def Let_def)

lemma utf8_drop_less:
  assumes "s \<noteq> []" and "(ok, n) = utf8_next s"
  shows "(drop n s, s) \<in> measure length"
  using assms utf8_next_pos [of s]
  by (metis diff_less in_measure length_drop length_greater_0_conv snd_conv)

text \<open>\<open>String::from_utf8_lossy\<close>: each ill-formed sequence becomes U+FFFD.\<close>

function from_utf8_lossy :: "string \<Rightarrow> string" where
  "from_utf8_lossy s =
     (if s = [] then []
      else (case utf8_next s of
              (ok, n) \<Rightarrow> (if ok then take n s else [CHR 0xEF, CHR 0xBF, CHR 0xBD]) @
                        from_utf8_lossy (drop n s)))"
  by pat_completeness auto
termination
proof (relation "measure length")
  fix s :: string and ok n
  assume "s \<noteq> []" and "(ok, n) = utf8_next s"
  then show "(drop n s, s) \<in> measure length" by (rule utf8_drop_less)
qed simp

function valid_utf8 :: "string \<Rightarrow> bool" where
  "valid_utf8 s =
     (if s = [] then True
      else (case utf8_next s of (ok, n) \<Rightarrow> ok \<and> valid_utf8 (drop n s)))"
  by pat_completeness auto
termination
proof (relation "measure length")
  fix s :: string and ok n
  assume "s \<noteq> []" and "(ok, n) = utf8_next s"
  then show "(drop n s, s) \<in> measure length" by (rule utf8_drop_less)
qed simp

declare from_utf8_lossy.simps [simp del] valid_utf8.simps [simp del]

definition str_from_utf8 :: "string \<Rightarrow> string option" where
  "str_from_utf8 s = (if valid_utf8 s then Some s else None)"

definition is_ascii :: "string \<Rightarrow> bool" where
  "is_ascii s = list_all (\<lambda>c. (of_char c :: nat) < 128) s"

lemma utf8_next_ascii: "s \<noteq> [] \<Longrightarrow> (of_char (hd s) :: nat) < 128 \<Longrightarrow> utf8_next s = (True, 1)"
  by (cases s) (auto simp: utf8_next_def)

text \<open>Decoding leaves well-formed text unchanged; every ASCII string is well-formed.\<close>

lemma from_utf8_lossy_valid: "valid_utf8 s \<Longrightarrow> from_utf8_lossy s = s"
proof (induction s rule: from_utf8_lossy.induct)
  case (1 s)
  show ?case
  proof (cases "s = []")
    case True
    then show ?thesis by (subst from_utf8_lossy.simps) simp
  next
    case False
    obtain ok n where e: "utf8_next s = (ok, n)" by fastforce
    with "1.prems" False have "ok" "valid_utf8 (drop n s)"
      by (simp_all add: valid_utf8.simps [of s])
    with False e "1.IH" [of ok n] show ?thesis
      by (subst from_utf8_lossy.simps) simp
  qed
qed

lemma valid_utf8_ascii: "is_ascii s \<Longrightarrow> valid_utf8 s"
proof (induction s)
  case Nil
  then show ?case by (subst valid_utf8.simps) simp
next
  case (Cons c cs)
  then have "utf8_next (c # cs) = (True, 1)" by (simp add: utf8_next_ascii is_ascii_def)
  with Cons show ?case by (subst valid_utf8.simps) (simp add: is_ascii_def)
qed

lemma from_utf8_lossy_ascii: "is_ascii s \<Longrightarrow> from_utf8_lossy s = s"
  by (simp add: from_utf8_lossy_valid valid_utf8_ascii)

section \<open>Characters and white space\<close>

text \<open>
  \<open>chars s\<close> cuts a string into its UTF-8 characters. \<open>str::trim\<close> and
  \<open>str::split_whitespace\<close> work on characters with the Unicode property \<open>White_Space\<close>:
  U+0009 to U+000D, U+0020, U+0085, U+00A0, U+1680, U+2000 to U+200A, U+2028, U+2029, U+202F,
  U+205F and U+3000, here by their encodings.
\<close>

function chars :: "string \<Rightarrow> string list" where
  "chars s = (if s = [] then [] else (case utf8_next s of (ok, n) \<Rightarrow> take n s # chars (drop n s)))"
  by pat_completeness auto
termination
proof (relation "measure length")
  fix s :: string and ok n
  assume "s \<noteq> []" and "(ok, n) = utf8_next s"
  then show "(drop n s, s) \<in> measure length" by (rule utf8_drop_less)
qed simp

declare chars.simps [simp del]

definition whitespace :: "string list" where
  "whitespace =
     [ '' '', [CHR 0x09], [CHR 0x0A], [CHR 0x0B], [CHR 0x0C], [CHR 0x0D],
       [CHR 0xC2, CHR 0x85], [CHR 0xC2, CHR 0xA0], [CHR 0xE1, CHR 0x9A, CHR 0x80] ] @
     map (\<lambda>c. [CHR 0xE2, CHR 0x80, c])
       [CHR 0x80, CHR 0x81, CHR 0x82, CHR 0x83, CHR 0x84, CHR 0x85, CHR 0x86, CHR 0x87, CHR 0x88,
        CHR 0x89, CHR 0x8A, CHR 0xA8, CHR 0xA9, CHR 0xAF] @
     [ [CHR 0xE2, CHR 0x81, CHR 0x9F], [CHR 0xE3, CHR 0x80, CHR 0x80] ]"

definition is_ws :: "string \<Rightarrow> bool" where
  "is_ws c = (c \<in> set whitespace)"

definition trim :: "string \<Rightarrow> string" where
  "trim s = concat (rev (dropWhile is_ws (rev (dropWhile is_ws (chars s)))))"

fun split_ws :: "string \<Rightarrow> string list \<Rightarrow> string list" where
  \<comment> \<open>the first argument is the word read so far\<close>
  "split_ws w [] = (if w = [] then [] else [w])"
| "split_ws w (c # cs) =
     (if is_ws c then (if w = [] then [] else [w]) @ split_ws [] cs else split_ws (w @ c) cs)"

definition split_whitespace :: "string \<Rightarrow> string list" where
  "split_whitespace s = split_ws [] (chars s)"

lemma concat_chars [simp]: "concat (chars s) = s"
proof (induction s rule: chars.induct)
  case (1 s)
  then show ?case by (cases "utf8_next s") (subst chars.simps, auto)
qed

lemma chars_nonempty: "c \<in> set (chars s) \<Longrightarrow> c \<noteq> []"
proof (induction s rule: chars.induct)
  case (1 s)
  show ?case
  proof (cases "s = []")
    case True
    with "1.prems" show ?thesis by (simp add: chars.simps)
  next
    case False
    obtain ok n where e: "utf8_next s = (ok, n)" by fastforce
    with utf8_next_pos [of s] have "0 < n" by simp
    with False e "1.prems" "1.IH" [of ok n] show ?thesis by (auto simp: chars.simps [of s])
  qed
qed

lemma chars_ascii: "is_ascii s \<Longrightarrow> chars s = map (\<lambda>c. [c]) s"
proof (induction s)
  case Nil
  then show ?case by (simp add: chars.simps)
next
  case (Cons c cs)
  then have "utf8_next (c # cs) = (True, 1)" by (simp add: utf8_next_ascii is_ascii_def)
  with Cons show ?case by (subst chars.simps) (simp add: is_ascii_def)
qed

lemma split_ws_nonempty: "(\<forall>c \<in> set cs. c \<noteq> []) \<Longrightarrow> x \<in> set (split_ws w cs) \<Longrightarrow> x \<noteq> []"
  by (induction w cs rule: split_ws.induct) (auto split: if_splits)

lemma split_whitespace_nonempty: "x \<in> set (split_whitespace s) \<Longrightarrow> x \<noteq> []"
  unfolding split_whitespace_def using split_ws_nonempty [of "chars s"] chars_nonempty by blast

text \<open>A text of white space only, and what \<^const>\<open>trim\<close> takes away: such texts at both ends.\<close>

definition blank :: "string \<Rightarrow> bool" where
  "blank s \<longleftrightarrow> (\<exists>cs. set cs \<subseteq> set whitespace \<and> s = concat cs)"

lemma blank_concat: "(\<And>c. c \<in> set cs \<Longrightarrow> is_ws c) \<Longrightarrow> blank (concat cs)"
  unfolding blank_def is_ws_def by blast

lemma trim_split: "\<exists>l r. s = l @ trim s @ r \<and> blank l \<and> blank r"
proof -
  let ?d = "dropWhile is_ws (chars s)"
  have "chars s = takeWhile is_ws (chars s) @ rev (dropWhile is_ws (rev ?d)) @ rev (takeWhile is_ws (rev ?d))"
    by (metis rev_append rev_rev_ident takeWhile_dropWhile_id)
  then have "s = concat (takeWhile is_ws (chars s)) @ trim s @ concat (rev (takeWhile is_ws (rev ?d)))"
    unfolding trim_def by (metis concat_append concat_chars)
  moreover have "blank (concat (takeWhile is_ws (chars s)))" "blank (concat (rev (takeWhile is_ws (rev ?d))))"
    by (auto intro!: blank_concat dest: set_takeWhileD)
  ultimately show ?thesis by blast
qed

text \<open>
  Trimming an ASCII string is dropping its leading and trailing ASCII blanks; evaluation of a
  concrete ASCII string goes through this equation.
\<close>

definition ascii_ws :: "char \<Rightarrow> bool" where
  "ascii_ws c = (c \<in> {CHR '' '', CHR 0x09, CHR 0x0A, CHR 0x0B, CHR 0x0C, CHR 0x0D})"

lemma is_ws_single: "is_ws [c] = ascii_ws c"
  by (auto simp: is_ws_def whitespace_def ascii_ws_def)

lemma trim_ascii: "is_ascii s \<Longrightarrow> trim s = rev (dropWhile ascii_ws (rev (dropWhile ascii_ws s)))"
proof -
  assume "is_ascii s"
  then have "chars s = map (\<lambda>c. [c]) s" by (rule chars_ascii)
  moreover have "is_ws \<circ> (\<lambda>c. [c]) = ascii_ws" by (simp add: fun_eq_iff is_ws_single)
  ultimately show ?thesis by (simp add: trim_def dropWhile_map rev_map)
qed

lemma is_ascii_simps [simp]:
  "is_ascii []" "is_ascii (c # cs) = ((of_char c :: nat) < 128 \<and> is_ascii cs)"
  by (simp_all add: is_ascii_def)

end
