(* ===== verification/Console_Log.thy ===== *)
theory Console_Log
  imports Prelude
begin

text \<open>
  \<^verbatim>\<open>src/src/rules/console_log.rs\<close>: the console object that scripts see, whose five methods send a record to the
  program's log; the filter of the package \<open>tracing\<close> decides which levels are written. V8 is a parameter: \<open>scope_ops\<close> holds the operations of a \<open>HandleScope\<close> that the source calls, on
  values \<open>'v\<close> and the state \<open>'s\<close> of the isolate, which every conversion may change, since it can run code
  of the script. A callback is a function item of the source, so V8 gets its name (\<open>console_fn\<close>).
\<close>

section \<open>Parameters\<close>

datatype console_fn = Console_debug | Console_log | Console_info | Console_warn | Console_error

record ('v, 's) scope_ops =
  global_of :: "'s \<Rightarrow> 'v"
  string_value :: "string \<Rightarrow> 's \<Rightarrow> 'v option \<times> 's"
  object_new :: "'s \<Rightarrow> 'v \<times> 's"
  function_new :: "console_fn \<Rightarrow> 's \<Rightarrow> 'v option \<times> 's"
  get_property :: "'v \<Rightarrow> 'v \<Rightarrow> 's \<Rightarrow> 'v option \<times> 's"
  set_property :: "'v \<Rightarrow> 'v \<Rightarrow> 'v \<Rightarrow> 's \<Rightarrow> bool option \<times> 's"
  to_object :: "'v \<Rightarrow> 's \<Rightarrow> 'v option \<times> 's"
  is_function :: "'v \<Rightarrow> bool"
  call_function :: "'v \<Rightarrow> 'v \<Rightarrow> 'v list \<Rightarrow> 's \<Rightarrow> 'v option \<times> 's"
  to_rust_string :: "'v \<Rightarrow> 's \<Rightarrow> string option \<times> 's"
  value_is_object :: "'v \<Rightarrow> bool"
  value_is_null :: "'v \<Rightarrow> bool"
  value_is_undefined :: "'v \<Rightarrow> bool"

text \<open>The operator \<open>?\<close> on an \<open>Option\<close>.\<close>

definition try_some :: "('s \<Rightarrow> 'a option \<times> 's) \<Rightarrow> ('a \<Rightarrow> 's \<Rightarrow> 'b option \<times> 's) \<Rightarrow> 's \<Rightarrow> 'b option \<times> 's" where
  "try_some m f s = (case m s of (None, s) \<Rightarrow> (None, s) | (Some x, s) \<Rightarrow> f x s)"

lemma try_some_simps [simp]:
  "m s = (None, s') \<Longrightarrow> try_some m f s = (None, s')"
  "m s = (Some x, s') \<Longrightarrow> try_some m f s = f x s'"
  by (simp_all add: try_some_def)

section \<open>Formatting\<close>

definition try_json_stringify :: "('v, 's) scope_ops \<Rightarrow> 'v \<Rightarrow> 's \<Rightarrow> string option \<times> 's" where
  "try_json_stringify V v s =
     (let global = global_of V s
      in try_some (string_value V ''JSON'') (\<lambda>json_key.
         try_some (string_value V ''stringify'') (\<lambda>stringify_key.
         try_some (get_property V global json_key) (\<lambda>json.
         try_some (to_object V json) (\<lambda>json_obj.
         try_some (get_property V json_obj stringify_key) (\<lambda>stringify_fn s.
           if \<not> is_function V stringify_fn then (None, s)
           else try_some (call_function V stringify_fn json_obj [v]) (to_rust_string V) s))))) s)"

definition v8_value_to_string :: "('v, 's) scope_ops \<Rightarrow> 'v \<Rightarrow> 's \<Rightarrow> string \<times> 's" where
  "v8_value_to_string V v s =
     (let fallback = (\<lambda>s. case to_rust_string V v s of (Some t, s) \<Rightarrow> (t, s) | (None, s) \<Rightarrow> (''[value]'', s))
      in if value_is_object V v \<and> \<not> value_is_null V v \<and> \<not> value_is_undefined V v then
           (case try_json_stringify V v s of
              (Some json_str, s) \<Rightarrow> (json_str, s)
            | (None, s) \<Rightarrow> fallback s)
         else fallback s)"

fun log_parts :: "('v, 's) scope_ops \<Rightarrow> 'v list \<Rightarrow> 's \<Rightarrow> string list \<times> 's" where
  "log_parts V [] s = ([], s)"
| "log_parts V (arg # args) s =
     (case v8_value_to_string V arg s of (t, s) \<Rightarrow>
        case log_parts V args s of (ts, s) \<Rightarrow> (t # ts, s))"

definition format_console_args :: "('v, 's) scope_ops \<Rightarrow> 'v list \<Rightarrow> 's \<Rightarrow> string \<times> 's" where
  "format_console_args V args s = (case log_parts V args s of (parts, s) \<Rightarrow> (join_with '' '' parts, s))"

section \<open>The methods\<close>

datatype log_level = DEBUG | INFO | WARN | ERROR

text \<open>
  The log is the list of the lines written with the target \<^verbatim>\<open>httpjail::rules::js\<close>; \<open>enabled\<close> is the filter of
  the program's subscriber for this target, which drops a record of a level that is not enabled.
\<close>

type_synonym script_log = "(log_level \<times> string) list"

definition console_callback ::
  "('v, 's) scope_ops \<Rightarrow> (log_level \<Rightarrow> bool) \<Rightarrow> log_level \<Rightarrow> 'v list \<Rightarrow> 's \<times> script_log \<Rightarrow> 's \<times> script_log" where
  "console_callback V enabled log_fn args st =
     (case format_console_args V args (fst st) of (message, s) \<Rightarrow>
        (s, if enabled log_fn then snd st @ [(log_fn, message)] else snd st))"

definition console_debug where "console_debug V enabled = console_callback V enabled DEBUG"
definition console_log where "console_log V enabled = console_callback V enabled INFO"
definition console_info where "console_info V enabled = console_callback V enabled INFO"
definition console_warn where "console_warn V enabled = console_callback V enabled WARN"
definition console_error where "console_error V enabled = console_callback V enabled ERROR"

text \<open>What V8 runs when a script calls a function that was made from a callback.\<close>

fun run_callback ::
  "('v, 's) scope_ops \<Rightarrow> (log_level \<Rightarrow> bool) \<Rightarrow> console_fn \<Rightarrow> 'v list \<Rightarrow> 's \<times> script_log \<Rightarrow> 's \<times> script_log" where
  "run_callback V enabled Console_debug = console_debug V enabled"
| "run_callback V enabled Console_log = console_log V enabled"
| "run_callback V enabled Console_info = console_info V enabled"
| "run_callback V enabled Console_warn = console_warn V enabled"
| "run_callback V enabled Console_error = console_error V enabled"

lemmas console_method_defs = console_debug_def console_log_def console_info_def console_warn_def console_error_def

section \<open>The console object\<close>

text \<open>A failing \<open>unwrap\<close> is a panic, here \<^const>\<open>None\<close>; the result of \<open>set\<close> is ignored.\<close>

definition add_console_method :: "('v, 's) scope_ops \<Rightarrow> 'v \<Rightarrow> string \<times> console_fn \<Rightarrow> 's \<Rightarrow> 's option" where
  "add_console_method V console_obj nc s =
     (case string_value V (fst nc) s of
        (None, _) \<Rightarrow> None
      | (Some key, s) \<Rightarrow>
          (case function_new V (snd nc) s of
             (None, _) \<Rightarrow> None
           | (Some func, s) \<Rightarrow> Some (snd (set_property V console_obj key func s))))"

definition console_methods :: "(string \<times> console_fn) list" where
  "console_methods =
     [(''debug'', Console_debug), (''log'', Console_log), (''info'', Console_info), (''warn'', Console_warn),
      (''error'', Console_error)]"

fun add_console_methods :: "('v, 's) scope_ops \<Rightarrow> 'v \<Rightarrow> (string \<times> console_fn) list \<Rightarrow> 's \<Rightarrow> 's option" where
  "add_console_methods V obj [] s = Some s"
| "add_console_methods V obj (nc # ncs) s =
     (case add_console_method V obj nc s of None \<Rightarrow> None | Some s \<Rightarrow> add_console_methods V obj ncs s)"

definition setup_console :: "('v, 's) scope_ops \<Rightarrow> 's \<Rightarrow> 's option" where
  "setup_console V s =
     (let global = global_of V s
      in case object_new V s of (console_obj, s) \<Rightarrow>
        case add_console_methods V console_obj console_methods s of
          None \<Rightarrow> None
        | Some s \<Rightarrow>
            (case string_value V ''console'' s of
               (None, _) \<Rightarrow> None
             | (Some console_key, s) \<Rightarrow> Some (snd (set_property V global console_key console_obj s))))"

section \<open>Lines\<close>

text \<open>
  One call of a method sends one record, at the level of the method; the record has the texts of the arguments, in
  order, with a space between two of them.
\<close>

lemma length_log_parts: "length (fst (log_parts V args s)) = length args"
  by (induction args arbitrary: s) (auto split: prod.splits, metis fst_conv)

fun fn_level :: "console_fn \<Rightarrow> log_level" where
  "fn_level Console_debug = DEBUG"
| "fn_level Console_log = INFO"
| "fn_level Console_info = INFO"
| "fn_level Console_warn = WARN"
| "fn_level Console_error = ERROR"

lemma run_callback_level: "run_callback V enabled f = console_callback V enabled (fn_level f)"
  by (cases f) (simp_all add: console_method_defs)

lemma one_line:
  "snd (run_callback V enabled f args (s, ls)) =
     (if enabled (fn_level f) then ls @ [(fn_level f, join_with '' '' (fst (log_parts V args s)))] else ls)"
  by (simp add: run_callback_level console_callback_def format_console_args_def split: prod.splits)

section \<open>Objects\<close>

text \<open>
  What the code relies on of V8, for the state of an isolate: \<open>objs\<close> are the ordinary extensible objects,
  \<open>field\<close> their own properties, \<open>key\<close> the text of a string, \<open>callback_of\<close> the callback behind a function. A
  short string can always be made; new objects and functions are new; a property that was set can be read.
\<close>

locale js_objects =
  fixes V :: "('v, 's) scope_ops" and objs :: "'s \<Rightarrow> 'v set" and field :: "'s \<Rightarrow> 'v \<Rightarrow> string \<Rightarrow> 'v option"
    and callback_of :: "'s \<Rightarrow> 'v \<Rightarrow> console_fn option" and key :: "'v \<Rightarrow> string option"
  assumes string_made: "length t < 100 \<Longrightarrow> \<exists>x s'. string_value V t s = (Some x, s') \<and> key x = Some t \<and>
      objs s' = objs s \<and> field s' = field s \<and> callback_of s' = callback_of s \<and> global_of V s' = global_of V s"
    and object_made: "\<exists>x s'. object_new V s = (x, s') \<and> x \<notin> objs s \<and> objs s' = insert x (objs s) \<and>
      field s' = (field s)(x := Map.empty) \<and> callback_of s' = callback_of s \<and> global_of V s' = global_of V s"
    and function_made: "\<exists>x s'. function_new V f s = (Some x, s') \<and> callback_of s' = (callback_of s)(x \<mapsto> f) \<and>
      callback_of s x = None \<and> objs s' = objs s \<and> (\<forall>y \<in> objs s. field s' y = field s y) \<and> global_of V s' = global_of V s"
    and property_set: "y \<in> objs s \<Longrightarrow> key k = Some t \<Longrightarrow> \<exists>r s'. set_property V y k x s = (r, s') \<and>
      field s' = (field s)(y := (field s y)(t \<mapsto> x)) \<and> objs s' = objs s \<and> callback_of s' = callback_of s \<and>
      global_of V s' = global_of V s"
begin

text \<open>\<open>grown obj s s'\<close>: the state has changed by functions and by properties of \<open>obj\<close> only.\<close>

definition grown :: "'v \<Rightarrow> 's \<Rightarrow> 's \<Rightarrow> bool" where
  "grown obj s s' \<longleftrightarrow> objs s' = objs s \<and> global_of V s' = global_of V s \<and>
     (\<forall>y \<in> objs s - {obj}. field s' y = field s y) \<and> callback_of s \<subseteq>\<^sub>m callback_of s'"

lemma grown_trans: "grown obj s t \<Longrightarrow> grown obj t u \<Longrightarrow> grown obj s u"
  unfolding grown_def using map_le_trans by auto

lemma method_added:
  assumes "obj \<in> objs s" and "length n < 100"
  shows "\<exists>s' g. add_console_method V obj (n, f) s = Some s' \<and> grown obj s s' \<and>
    field s' obj = (field s obj)(n \<mapsto> g) \<and> callback_of s' g = Some f"
proof -
  obtain x s1 where 1: "string_value V n s = (Some x, s1)" "key x = Some n" "objs s1 = objs s" "field s1 = field s"
    "callback_of s1 = callback_of s" "global_of V s1 = global_of V s" using string_made [OF assms(2), of s] by blast
  obtain g s2 where 2: "function_new V f s1 = (Some g, s2)" "callback_of s2 = (callback_of s1)(g \<mapsto> f)"
    "callback_of s1 g = None" "objs s2 = objs s1" "\<forall>y \<in> objs s1. field s2 y = field s1 y" "global_of V s2 = global_of V s1"
    using function_made [of f s1] by blast
  obtain r s3 where 3: "set_property V obj x g s2 = (r, s3)" "field s3 = (field s2)(obj := (field s2 obj)(n \<mapsto> g))"
    "objs s3 = objs s2" "callback_of s3 = callback_of s2" "global_of V s3 = global_of V s2"
    using property_set [of obj s2 x n g] assms(1) 1 2 by auto
  have "callback_of s \<subseteq>\<^sub>m callback_of s3" using 1 2 3 by (auto simp: map_le_def)
  with 1 2 3 assms(1) show ?thesis
    by (intro exI [of _ s3] exI [of _ g]) (simp add: add_console_method_def grown_def)
qed

lemma methods_added:
  assumes "obj \<in> objs s" and "distinct (map fst ncs)" and "\<forall>n \<in> set (map fst ncs). length n < 100"
  shows "\<exists>s'. add_console_methods V obj ncs s = Some s' \<and> grown obj s s' \<and>
    (\<forall>n. n \<notin> set (map fst ncs) \<longrightarrow> field s' obj n = field s obj n) \<and>
    (\<forall>(n, f) \<in> set ncs. \<exists>g. field s' obj n = Some g \<and> callback_of s' g = Some f)"
  using assms
proof (induction ncs arbitrary: s)
  case Nil
  then show ?case by (simp add: grown_def)
next
  case (Cons nf ncs)
  obtain n f where nf: "nf = (n, f)" by fastforce
  with method_added [OF Cons.prems(1), of n f] Cons.prems(3) obtain s1 g where
    1: "add_console_method V obj nf s = Some s1" "grown obj s s1" "field s1 obj = (field s obj)(n \<mapsto> g)"
      "callback_of s1 g = Some f" by auto
  have "obj \<in> objs s1" using 1 Cons.prems(1) by (simp add: grown_def)
  with Cons.IH [of s1] Cons.prems obtain s2 where 2: "add_console_methods V obj ncs s1 = Some s2" "grown obj s1 s2"
    "\<forall>n. n \<notin> set (map fst ncs) \<longrightarrow> field s2 obj n = field s1 obj n"
    "\<forall>(n, f) \<in> set ncs. \<exists>g. field s2 obj n = Some g \<and> callback_of s2 g = Some f" by auto
  have "field s2 obj n = Some g" using 1 2 nf Cons.prems(2) by simp
  moreover have "callback_of s2 g = Some f" using 1(4) 2(2) by (auto simp: grown_def map_le_def dom_def)
  moreover have "field s2 obj m = field s obj m" if "m \<notin> set (map fst (nf # ncs))" for m using that 1 2 nf by simp
  ultimately show ?case using 1 2 nf grown_trans [OF 1(2) 2(2)] by auto
qed

text \<open>The console that a script finds: the five methods and nothing else, each with its own callback.\<close>

lemma console_installed:
  assumes "global_of V s \<in> objs s"
  shows "\<exists>s' c. setup_console V s = Some s' \<and> field s' (global_of V s') ''console'' = Some c \<and>
    dom (field s' c) = set (map fst console_methods) \<and>
    (\<forall>(n, f) \<in> set console_methods. \<exists>g. field s' c n = Some g \<and> callback_of s' g = Some f)"
proof -
  obtain c s1 where 1: "object_new V s = (c, s1)" "c \<notin> objs s" "objs s1 = insert c (objs s)" "field s1 c = Map.empty"
    "global_of V s1 = global_of V s" using object_made [of s] by (metis fun_upd_same)
  obtain s2 where 2: "add_console_methods V c console_methods s1 = Some s2" "grown c s1 s2"
    "\<forall>n. n \<notin> set (map fst console_methods) \<longrightarrow> field s2 c n = field s1 c n"
    "\<forall>(n, f) \<in> set console_methods. \<exists>g. field s2 c n = Some g \<and> callback_of s2 g = Some f"
    using methods_added [of c s1 console_methods] 1 by (auto simp: console_methods_def)
  obtain x s3 where 3: "string_value V ''console'' s2 = (Some x, s3)" "key x = Some ''console''" "objs s3 = objs s2"
    "field s3 = field s2" "callback_of s3 = callback_of s2" "global_of V s3 = global_of V s2"
    using string_made [of "''console''" s2] by auto
  have "global_of V s \<in> objs s3" using assms 1 2 3 by (simp add: grown_def)
  with property_set [OF this 3(2), of c] obtain r s4 where
    4: "set_property V (global_of V s) x c s3 = (r, s4)" "objs s4 = objs s3" "callback_of s4 = callback_of s3"
      "field s4 = (field s3)(global_of V s := (field s3 (global_of V s))(''console'' \<mapsto> c))" "global_of V s4 = global_of V s3"
    by blast
  have g: "global_of V s4 = global_of V s" using 1 2 3 4 by (simp add: grown_def)
  moreover have "c \<noteq> global_of V s" using assms 1 by auto
  then have c: "field s4 c = field s2 c" using 3 4 by simp
  moreover have "dom (field s2 c) = set (map fst console_methods)"
  proof
    show "dom (field s2 c) \<subseteq> set (map fst console_methods)" using 2(3) 1(4) by fastforce
    show "set (map fst console_methods) \<subseteq> dom (field s2 c)" using 2(4) by fastforce
  qed
  moreover have "setup_console V s = Some s4" using 1 2 3 4 by (simp add: setup_console_def)
  moreover have "field s4 (global_of V s4) ''console'' = Some c" using 4 g by simp
  ultimately show ?thesis using 2(4) 3 4 by (intro exI [of _ s4] exI [of _ c]) simp
qed

end

section \<open>An object store\<close>

text \<open>
  A concrete isolate: objects are numbered, with their own properties, object 0 being the global one;
  functions are numbered and carry their callback. Texts are made without scripts: objects have no JSON.
\<close>

datatype js_value = JString string | JObject nat | JFunction nat console_fn

record isolate =
  heap :: "nat \<Rightarrow> string \<Rightarrow> js_value option"
  next_object :: nat
  made :: "console_fn list"

definition own_property :: "js_value \<Rightarrow> js_value \<Rightarrow> isolate \<Rightarrow> js_value option" where
  "own_property y k s = (case (y, k) of (JObject i, JString t) \<Rightarrow> heap s i t | _ \<Rightarrow> None)"

definition store_property :: "js_value \<Rightarrow> js_value \<Rightarrow> js_value \<Rightarrow> isolate \<Rightarrow> isolate" where
  "store_property y k x s =
     (case (y, k) of (JObject i, JString t) \<Rightarrow> s\<lparr>heap := (heap s)(i := (heap s i)(t \<mapsto> x))\<rparr> | _ \<Rightarrow> s)"

definition store_ops :: "(js_value, isolate) scope_ops" where
  "store_ops =
     \<lparr>global_of = (\<lambda>_. JObject 0), string_value = (\<lambda>t s. (Some (JString t), s)),
      object_new = (\<lambda>s. (JObject (next_object s),
        s\<lparr>heap := (heap s)(next_object s := Map.empty), next_object := Suc (next_object s)\<rparr>)),
      function_new = (\<lambda>f s. (Some (JFunction (length (made s)) f), s\<lparr>made := made s @ [f]\<rparr>)),
      get_property = (\<lambda>y k s. (own_property y k s, s)),
      set_property = (\<lambda>y k x s. (Some True, store_property y k x s)),
      to_object = (\<lambda>x s. (Some x, s)), is_function = (\<lambda>x. case x of JFunction _ _ \<Rightarrow> True | _ \<Rightarrow> False),
      call_function = (\<lambda>_ _ _ s. (None, s)),
      to_rust_string = (\<lambda>x s. (case x of JString t \<Rightarrow> Some t | _ \<Rightarrow> None, s)),
      value_is_object = (\<lambda>x. case x of JString _ \<Rightarrow> False | _ \<Rightarrow> True), value_is_null = (\<lambda>_. False),
      value_is_undefined = (\<lambda>_. False)\<rparr>"

definition store_objs :: "isolate \<Rightarrow> js_value set" where
  "store_objs s = JObject ` {..<next_object s}"

definition store_field :: "isolate \<Rightarrow> js_value \<Rightarrow> string \<Rightarrow> js_value option" where
  "store_field s y t = own_property y (JString t) s"

definition store_callback :: "isolate \<Rightarrow> js_value \<Rightarrow> console_fn option" where
  "store_callback s y =
     (case y of JFunction i f \<Rightarrow> if i < length (made s) \<and> made s ! i = f then Some f else None | _ \<Rightarrow> None)"

definition string_key :: "js_value \<Rightarrow> string option" where
  "string_key y = (case y of JString t \<Rightarrow> Some t | _ \<Rightarrow> None)"

lemmas store_defs = store_ops_def store_objs_def store_field_def store_callback_def string_key_def own_property_def
  store_property_def

lemma store_callback_cong: "made s' = made s \<Longrightarrow> store_callback s' = store_callback s"
  by (simp add: store_callback_def [abs_def] fun_eq_iff split: js_value.splits)

interpretation store: js_objects store_ops store_objs store_field store_callback string_key
proof unfold_locales
  fix t s
  show "\<exists>x s'. string_value store_ops t s = (Some x, s') \<and> string_key x = Some t \<and> store_objs s' = store_objs s \<and>
    store_field s' = store_field s \<and> store_callback s' = store_callback s \<and> global_of store_ops s' = global_of store_ops s"
    by (simp add: store_ops_def string_key_def)
next
  fix s :: isolate
  have "store_field (s\<lparr>heap := (heap s)(next_object s := Map.empty), next_object := Suc (next_object s)\<rparr>) =
      (store_field s)(JObject (next_object s) := Map.empty)"
    by (intro ext) (simp add: store_defs split: js_value.splits)
  then show "\<exists>x s'. object_new store_ops s = (x, s') \<and> x \<notin> store_objs s \<and> store_objs s' = insert x (store_objs s) \<and>
    store_field s' = (store_field s)(x := Map.empty) \<and> store_callback s' = store_callback s \<and>
    global_of store_ops s' = global_of store_ops s"
    by (auto simp: store_ops_def store_objs_def lessThan_Suc intro: store_callback_cong)
next
  fix f and s :: isolate
  let ?x = "JFunction (length (made s)) f" and ?s = "s\<lparr>made := made s @ [f]\<rparr>"
  have "store_callback ?s = (store_callback s)(?x \<mapsto> f)"
    by (intro ext) (auto simp: store_defs nth_append split: js_value.splits)
  moreover have "store_callback s ?x = None" by (simp add: store_defs)
  ultimately show "\<exists>x s'. function_new store_ops f s = (Some x, s') \<and> store_callback s' = (store_callback s)(x \<mapsto> f) \<and>
    store_callback s x = None \<and> store_objs s' = store_objs s \<and>
    (\<forall>y \<in> store_objs s. store_field s' y = store_field s y) \<and> global_of store_ops s' = global_of store_ops s"
    by (intro exI [of _ ?x] exI [of _ ?s]) (simp add: store_ops_def store_objs_def store_field_def own_property_def fun_eq_iff)
next
  fix y k t x s
  assume "y \<in> store_objs s" "string_key k = Some t"
  then obtain i where y: "y = JObject i" and k: "k = JString t"
    by (auto simp: store_objs_def string_key_def split: js_value.splits)
  have "store_field (store_property y k x s) = (store_field s)(y := (store_field s y)(t \<mapsto> x))"
    by (intro ext) (simp add: store_field_def own_property_def store_property_def y k split: js_value.splits)
  then show "\<exists>r s'. set_property store_ops y k x s = (r, s') \<and>
    store_field s' = (store_field s)(y := (store_field s y)(t \<mapsto> x)) \<and> store_objs s' = store_objs s \<and>
    store_callback s' = store_callback s \<and> global_of store_ops s' = global_of store_ops s"
    using store_callback_cong [of "store_property y k x s" s]
    by (simp add: store_ops_def store_objs_def store_property_def y k)
qed

section \<open>Property\<close>

text \<open>The levels that the documentation gives for the methods.\<close>

definition documented_levels :: "(string \<times> log_level) list" where
  "documented_levels = [(''debug'', DEBUG), (''log'', INFO), (''info'', INFO), (''warn'', WARN), (''error'', ERROR)]"



end
