(* ===== verification/Rules.thy ===== *)
theory Rules
  imports Prelude
begin

text \<open>
  \<^verbatim>\<open>src/src/rules.rs\<close>: the result of a rule evaluation, the trait that every rule engine
  implements, the request-logging wrapper and the \<open>RuleEngine\<close> handle that the proxy calls.

  A rule engine keeps state (a child process, the loaded script, a log file), so its \<open>evaluate\<close> is
  a state transformer over a state type \<open>'s\<close>. What the proxy relies on of an engine is the locale
  \<open>rule_engine\<close>; it is interpreted for the three engines in their own theories.
\<close>

section \<open>Evaluation results\<close>

datatype action = Allow | Deny

record evaluation_result =
  action :: action
  eval_context :: "string option"
  max_tx_bytes :: "u64 option"

definition allow :: evaluation_result where
  "allow = \<lparr>action = Allow, eval_context = None, max_tx_bytes = None\<rparr>"

definition deny :: evaluation_result where
  "deny = \<lparr>action = Deny, eval_context = None, max_tx_bytes = None\<rparr>"

definition with_context :: "evaluation_result \<Rightarrow> string \<Rightarrow> evaluation_result" where
  "with_context self c = self\<lparr>eval_context := Some c\<rparr>"

definition with_max_tx_bytes :: "evaluation_result \<Rightarrow> u64 \<Rightarrow> evaluation_result" where
  "with_max_tx_bytes self n = self\<lparr>max_tx_bytes := Some n\<rparr>"

lemmas result_defs [engine_simps] = allow_def deny_def with_context_def with_max_tx_bytes_def

section \<open>Rule engines\<close>

type_synonym 's evaluator = "string \<Rightarrow> string \<Rightarrow> string \<Rightarrow> 's \<Rightarrow> evaluation_result \<times> 's"

text \<open>The arguments of \<open>evaluate\<close> are the method, the URL and the requester's IP address.\<close>

record 's rule_engine_trait =
  evaluate :: "'s evaluator"
  engine_name :: string

text \<open>
  The wrapper's log is a shared file behind a mutex: whether the mutex can be locked (it cannot
  once a holder has panicked), the clock and the file's \<open>write\<close> belong to the environment.
\<close>

record 'f log_ops =
  lock_ok :: bool
  now :: string
  write_file :: "'f \<Rightarrow> string \<Rightarrow> bool \<times> 'f"

definition action_sign :: "action \<Rightarrow> char" where
  "action_sign a = (case a of Allow \<Rightarrow> CHR ''+'' | Deny \<Rightarrow> CHR ''-'')"

definition log_line :: "string \<Rightarrow> action \<Rightarrow> string \<Rightarrow> string \<Rightarrow> string" where
  "log_line timestamp a meth url =
     timestamp @ '' '' @ [action_sign a] @ '' '' @ meth @ '' '' @ url @ newline"

definition logging_evaluate ::
  "'f log_ops \<Rightarrow> 's rule_engine_trait \<Rightarrow> ('s \<times> 'f option) evaluator" where
  "logging_evaluate L engine meth url ip st =
     (case st of (s, request_log) \<Rightarrow>
        case evaluate engine meth url ip s of (result, s') \<Rightarrow>
          (case request_log of
             Some file \<Rightarrow>
               if lock_ok L then
                 (case write_file L file (log_line (now L) (action result) meth url) of
                    (_, file') \<Rightarrow> (result, (s', Some file')))
               else (result, (s', Some file))
           | None \<Rightarrow> (result, (s', None))))"

definition logging_rule_engine ::
  "'f log_ops \<Rightarrow> 's rule_engine_trait \<Rightarrow> ('s \<times> 'f option) rule_engine_trait" where
  "logging_rule_engine L engine =
     \<lparr>evaluate = logging_evaluate L engine, engine_name = engine_name engine\<rparr>"

definition unlogged_evaluate :: "'s rule_engine_trait \<Rightarrow> ('s \<times> 'f option) evaluator" where
  "unlogged_evaluate engine meth url ip st =
     (case st of (s, log) \<Rightarrow>
        case evaluate engine meth url ip s of (result, s') \<Rightarrow> (result, (s', log)))"

text \<open>\<open>RuleEngine::from_trait\<close> wraps the engine only if a log is given.\<close>

definition from_trait ::
  "'f log_ops \<Rightarrow> 's rule_engine_trait \<Rightarrow> 'f option \<Rightarrow> ('s \<times> 'f option) rule_engine_trait" where
  "from_trait L engine request_log =
     (if request_log \<noteq> None then logging_rule_engine L engine
      else \<lparr>evaluate = unlogged_evaluate engine, engine_name = engine_name engine\<rparr>)"

definition evaluate_with_context_and_ip :: "'s rule_engine_trait \<Rightarrow> 's evaluator" where
  "evaluate_with_context_and_ip self meth url ip s = evaluate self meth url ip s"

definition evaluate_with_context ::
  "'s rule_engine_trait \<Rightarrow> string \<Rightarrow> string \<Rightarrow> 's \<Rightarrow> evaluation_result \<times> 's" where
  "evaluate_with_context self meth url s = evaluate self meth url ''127.0.0.1'' s"

definition evaluate_with_ip ::
  "'s rule_engine_trait \<Rightarrow> string \<Rightarrow> string \<Rightarrow> string \<Rightarrow> 's \<Rightarrow> action \<times> 's" where
  "evaluate_with_ip self meth url ip s =
     (case evaluate self meth url ip s of (r, s') \<Rightarrow> (action r, s'))"

definition evaluate_action :: "'s rule_engine_trait \<Rightarrow> string \<Rightarrow> string \<Rightarrow> 's \<Rightarrow> action \<times> 's" where
  "evaluate_action self meth url s =
     (case evaluate self meth url ''127.0.0.1'' s of (r, s') \<Rightarrow> (action r, s'))"

section \<open>The contract of a rule engine\<close>

text \<open>
  A byte limit comes only with an allowing result, and a URL that does not parse is never allowed.
\<close>

definition limit_only_on_allow :: "evaluation_result \<Rightarrow> bool" where
  "limit_only_on_allow r = (action r = Deny \<longrightarrow> max_tx_bytes r = None)"

locale rule_engine =
  fixes engine :: "'s rule_engine_trait"
    and url_ok :: "string \<Rightarrow> bool"
  assumes limit_allow: "limit_only_on_allow (fst (evaluate engine m u ip s))"
    and unparsable_denied: "\<not> url_ok u \<Longrightarrow> action (fst (evaluate engine m u ip s)) = Deny"

text \<open>The wrapper changes neither the verdict nor the engine's own state.\<close>

lemma logging_evaluate_fst:
  "fst (logging_evaluate L engine m u ip st) = fst (evaluate engine m u ip (fst st))"
  by (cases st) (auto simp: logging_evaluate_def split: prod.splits option.splits if_splits)

lemma logging_evaluate_state:
  "fst (snd (logging_evaluate L engine m u ip st)) = snd (evaluate engine m u ip (fst st))"
  by (cases st) (auto simp: logging_evaluate_def split: prod.splits option.splits if_splits)

lemma from_trait_fst:
  "fst (evaluate (from_trait L engine log) m u ip st) = fst (evaluate engine m u ip (fst st))"
  by (cases st)
    (simp add: from_trait_def logging_rule_engine_def logging_evaluate_fst unlogged_evaluate_def
      split: prod.splits)

lemma from_trait_state:
  "fst (snd (evaluate (from_trait L engine log) m u ip st)) = snd (evaluate engine m u ip (fst st))"
  by (cases st)
    (simp add: from_trait_def logging_rule_engine_def logging_evaluate_state unlogged_evaluate_def
      split: prod.splits)

context rule_engine
begin

lemma logged_engine: "rule_engine (from_trait L engine log) url_ok"
  by unfold_locales (simp_all add: from_trait_fst limit_allow unparsable_denied)

lemma unparsable_no_limit:
  "\<not> url_ok u \<Longrightarrow> max_tx_bytes (fst (evaluate engine m u ip s)) = None"
  using limit_allow [of m u ip s] unparsable_denied [of u m ip s]
  by (simp add: limit_only_on_allow_def)

end

section \<open>Properties\<close>

text \<open>A session: the requests evaluated one after the other, each with its time stamp.\<close>

fun evaluate_all ::
  "(string \<Rightarrow> 's rule_engine_trait) \<Rightarrow> (string \<times> string \<times> string \<times> string) list \<Rightarrow> 's \<Rightarrow>
     evaluation_result list \<times> 's" where
  "evaluate_all E [] s = ([], s)"
| "evaluate_all E ((t, m, u, ip) # rs) s =
     (case evaluate (E t) m u ip s of (r, s') \<Rightarrow>
        case evaluate_all E rs s' of (qs, s'') \<Rightarrow> (r # qs, s''))"

definition log_attempt :: "'f log_ops \<Rightarrow> 'f \<Rightarrow> string \<Rightarrow> 'f" where
  \<comment> \<open>one attempt to write a line: none if the mutex is poisoned, and a failed write is not repeated\<close>
  "log_attempt L file line = (if lock_ok L then snd (write_file L file line) else file)"

lemma logged_evaluation:
  "snd (snd (evaluate (from_trait L engine (Some f0)) m u ip (s, Some f))) =
     Some (log_attempt L f (log_line (now L) (action (fst (evaluate engine m u ip s))) m u))"
  by (simp add: from_trait_def logging_rule_engine_def logging_evaluate_def log_attempt_def split: prod.splits)

definition append_file :: "string \<Rightarrow> string log_ops" where
  \<comment> \<open>a log that can be locked and written, opened for appending at a given time\<close>
  "append_file t = \<lparr>lock_ok = True, now = t, write_file = (\<lambda>f l. (True, f @ l))\<rparr>"

fun session_log :: "(string \<times> string \<times> string \<times> string) list \<Rightarrow> evaluation_result list \<Rightarrow> string" where
  "session_log ((t, m, u, ip) # rs) (q # qs) = log_line t (action q) m u @ session_log rs qs"
| "session_log _ _ = []"

text \<open>
  Request logging is transparent, and complete as long as the log can be locked and written: with a log, the verdicts of a session are those
  of the engine without a log, and the file gains exactly one line per request, in order, with the
  time, a plus for an allowed and a minus for a denied request, the method and the URL.
\<close>

theorem request_log_complete:
  "evaluate_all (\<lambda>t. from_trait (append_file t) engine (Some f0)) reqs (s, Some f) =
     (let r = evaluate_all (\<lambda>_. engine) reqs s
      in (fst r, (snd r, Some (f @ session_log reqs (fst r)))))"
proof (induction reqs arbitrary: s f)
  case Nil
  then show ?case by simp
next
  case (Cons x reqs)
  obtain t m u ip where x: "x = (t, m, u, ip)" by (cases x) auto
  obtain r s' where e: "evaluate engine m u ip s = (r, s')" by fastforce
  show ?case
    using Cons.IH [of s' "f @ log_line t (action r) m u"]
    by (simp add: x e from_trait_def logging_rule_engine_def logging_evaluate_def append_file_def
        Let_def split: prod.splits)
qed

end
