(* ===== verification/Limited_Body.thy ===== *)
theory Limited_Body
  imports Prelude
begin

text \<open>
  \<^verbatim>\<open>src/src/limited_body.rs\<close>: \<open>LimitedBody\<close>, the request body wrapper that enforces \<open>max_tx_bytes\<close>.

  The wrapped body is a \<open>BoxBody\<close> of the \<open>http_body_util\<close> package: a parameter here, a state
  type \<open>'b\<close> with its \<open>poll_frame\<close>, \<open>is_end_stream\<close> and \<open>size_hint\<close>. The contract of a body
  (the \<open>http_body::Body\<close> documentation) is the locale \<open>http_body\<close>; the theory shows that wrapping
  a body in \<open>LimitedBody\<close> gives a body again, and that what it emits is exactly the first
  \<open>max_bytes\<close> bytes of what the wrapped body emits.
\<close>

section \<open>Bodies\<close>

datatype frame = Data string | Trailers "(string \<times> string) list"

text \<open>\<open>Poll<Option<Result<Frame, Error>>>\<close>; the \<^const>\<open>Inl\<close> side is the error.\<close>

datatype 'e poll = Pending | Ready "('e + frame) option"

record size_hint =
  hint_lower :: u64
  hint_upper :: "u64 option"

type_synonym ('b, 'e) poller = "'b \<Rightarrow> 'e poll \<times> 'b"

fun data_ref :: "frame \<Rightarrow> string option" where
  "data_ref (Data d) = Some d"
| "data_ref (Trailers _) = None"

text \<open>\<open>polls p n b\<close>: the results of \<open>n\<close> successive polls; \<open>emitted rs\<close>: the data bytes in them.\<close>

fun polls :: "('b, 'e) poller \<Rightarrow> nat \<Rightarrow> 'b \<Rightarrow> 'e poll list \<times> 'b" where
  "polls p 0 b = ([], b)"
| "polls p (Suc n) b =
     (case p b of (r, b') \<Rightarrow> case polls p n b' of (rs, b'') \<Rightarrow> (r # rs, b''))"

fun poll_data :: "'e poll \<Rightarrow> string" where
  "poll_data (Ready (Some (Inr (Data d)))) = d"
| "poll_data _ = []"

definition emitted :: "'e poll list \<Rightarrow> string" where
  "emitted rs = concat (map poll_data rs)"

abbreviation run_data :: "('b, 'e) poller \<Rightarrow> nat \<Rightarrow> 'b \<Rightarrow> string" where
  "run_data p n b \<equiv> emitted (fst (polls p n b))"

section \<open>The limited body\<close>

record 'b limited_body =
  inner :: 'b
  bytes_transmitted :: u64
  max_bytes :: u64

definition limited_body_new :: "'b \<Rightarrow> u64 \<Rightarrow> 'b limited_body" where
  "limited_body_new b m = \<lparr>inner = b, bytes_transmitted = 0, max_bytes = m\<rparr>"

definition poll_frame :: "('b, 'e) poller \<Rightarrow> ('b limited_body, 'e) poller" where
  "poll_frame p self =
     (if bytes_transmitted self \<ge> max_bytes self then (Ready None, self)
      else (case p (inner self) of (r, b) \<Rightarrow>
        let self = self\<lparr>inner := b\<rparr> in
        (case r of
           Ready (Some (Inr frame)) \<Rightarrow>
             (case data_ref frame of
                Some data \<Rightarrow>
                  let frame_size = of_nat (length data) :: u64;
                      new_total = bytes_transmitted self + frame_size
                  in if new_total > max_bytes self then
                       let bytes_remaining = max_bytes self - bytes_transmitted self
                       in if bytes_remaining > 0 then
                            (Ready (Some (Inr (Data (take (unat bytes_remaining) data)))),
                             self\<lparr>bytes_transmitted := max_bytes self\<rparr>)
                          else (Ready None, self)
                     else (Ready (Some (Inr frame)), self\<lparr>bytes_transmitted := new_total\<rparr>)
              | None \<Rightarrow> (Ready (Some (Inr frame)), self))
         | Ready (Some (Inl e)) \<Rightarrow> (Ready (Some (Inl e)), self)
         | Ready None \<Rightarrow> (Ready None, self)
         | Pending \<Rightarrow> (Pending, self))))"

definition is_end_stream :: "('b \<Rightarrow> bool) \<Rightarrow> 'b limited_body \<Rightarrow> bool" where
  "is_end_stream inner_end self =
     (bytes_transmitted self \<ge> max_bytes self \<or> inner_end (inner self))"

definition size_hint :: "('b \<Rightarrow> size_hint) \<Rightarrow> 'b limited_body \<Rightarrow> size_hint" where
  "size_hint inner_hint self =
     (let bytes_remaining = saturating_sub (max_bytes self) (bytes_transmitted self)
      in case hint_upper (inner_hint (inner self)) of
           Some inner_upper \<Rightarrow> \<lparr>hint_lower = 0, hint_upper = Some (min inner_upper bytes_remaining)\<rparr>
         | None \<Rightarrow> \<lparr>hint_lower = 0, hint_upper = Some bytes_remaining\<rparr>)"

section \<open>The contract of a body\<close>

text \<open>
  A body never emits more than its size hint's upper bound, and nothing more once it says that
  its stream has ended. A frame is a \<open>Bytes\<close>, whose length is at most \<open>isize::MAX\<close>.
\<close>

locale http_body =
  fixes poll :: "('b, 'e) poller"
    and ended :: "'b \<Rightarrow> bool"
    and hint :: "'b \<Rightarrow> size_hint"
    and invar :: "'b \<Rightarrow> bool"
  assumes invar_poll: "invar b \<Longrightarrow> invar (snd (poll b))"
    and frame_length: "invar b \<Longrightarrow> length (poll_data (fst (poll b))) < 2 ^ 63"
    and ended_silent: "invar b \<Longrightarrow> ended b \<Longrightarrow> run_data poll n b = []"
    and hint_bound: "invar b \<Longrightarrow> hint_upper (hint b) = Some u \<Longrightarrow> length (run_data poll n b) \<le> unat u"

lemma emitted_simps [simp]:
  "emitted [] = []" "emitted (r # rs) = poll_data r @ emitted rs"
  by (simp_all add: emitted_def)

lemma run_data_Suc: "run_data p (Suc n) b = poll_data (fst (p b)) @ run_data p n (snd (p b))"
  by (simp split: prod.splits)

lemma run_data_0 [simp]: "run_data p 0 b = []"
  by simp

text \<open>
  The states \<open>LimitedBody\<close> goes through. The count and a frame length are added in 64 bits: the sum does not wrap
  around if the limit is at most \<open>2 ^ 63\<close>, or if the bytes counted so far and all bytes that the wrapped body still
  has are fewer than \<open>2 ^ 64\<close> together.
\<close>

definition sum_fits :: "('b, 'e) poller \<Rightarrow> 'b limited_body \<Rightarrow> bool" where
  "sum_fits p self =
     (unat (max_bytes self) \<le> 2 ^ 63 \<or>
      (\<forall>n. unat (bytes_transmitted self) + length (run_data p n (inner self)) < 2 ^ 64))"

definition limited_invar :: "('b, 'e) poller \<Rightarrow> ('b \<Rightarrow> bool) \<Rightarrow> 'b limited_body \<Rightarrow> bool" where
  "limited_invar p iv self =
     (iv (inner self) \<and> bytes_transmitted self \<le> max_bytes self \<and> sum_fits p self)"

definition remaining :: "'b limited_body \<Rightarrow> nat" where
  "remaining self = unat (max_bytes self) - unat (bytes_transmitted self)"

lemma limited_invar_new:
  "iv b \<Longrightarrow> unat m \<le> 2 ^ 63 \<or> (\<forall>n. length (run_data p n b) < 2 ^ 64) \<Longrightarrow>
     limited_invar p iv (limited_body_new b m)"
  by (simp add: limited_invar_def sum_fits_def limited_body_new_def)

text \<open>One poll of a limited body below its limit, in terms of the poll of the wrapped body.\<close>

lemma no_wrap:
  assumes "sum_fits p self" and "bytes_transmitted self < max_bytes self"
    and "p (inner self) = (r, b)" and "length (poll_data r) < 2 ^ 63"
  shows "unat (bytes_transmitted self + of_nat (length (poll_data r))) =
           unat (bytes_transmitted self) + length (poll_data r)"
proof -
  let ?n = "length (poll_data r)"
  have n: "unat (of_nat ?n :: u64) = ?n" using assms(4) by (intro unat_of_nat_small) simp
  have lt: "unat (bytes_transmitted self) < unat (max_bytes self)"
    using assms(2) by (simp add: word_less_nat_alt)
  have "unat (bytes_transmitted self) + ?n < 2 ^ 64"
  proof (cases "unat (max_bytes self) \<le> 2 ^ 63")
    case True
    with lt assms(4) show ?thesis by simp
  next
    case False
    with assms(1) have "unat (bytes_transmitted self) + length (run_data p (Suc 0) (inner self)) < 2 ^ 64"
      unfolding sum_fits_def by blast
    with assms(3) show ?thesis by simp
  qed
  with n have "unat (bytes_transmitted self) + unat (of_nat ?n :: u64) < 2 ^ LENGTH(64)" by simp
  from unat_add_no_wrap [OF this] n show ?thesis by simp
qed

lemma poll_frame_at_limit:
  "max_bytes self \<le> bytes_transmitted self \<Longrightarrow> poll_frame p self = (Ready None, self)"
  by (simp add: poll_frame_def)

lemma unat_sub_u64:
  fixes a b :: u64 assumes "b < a" shows "unat (a - b) = unat a - unat b"
proof -
  from assms have "b \<le> a" by simp
  then show ?thesis by (simp add: unat_sub)
qed

lemma poll_frame_step:
  assumes inv: "limited_invar p iv self" and below: "bytes_transmitted self < max_bytes self"
    and poll: "p (inner self) = (r, b)" and len: "length (poll_data r) < 2 ^ 63"
  defines "res \<equiv> poll_frame p self"
  shows "poll_data (fst res) = take (remaining self) (poll_data r)"
    and "inner (snd res) = b"
    and "max_bytes (snd res) = max_bytes self"
    and "unat (bytes_transmitted (snd res)) =
           min (unat (max_bytes self)) (unat (bytes_transmitted self) + length (poll_data r))"
proof -
  let ?t = "bytes_transmitted self" and ?m = "max_bytes self"
  have lt: "unat ?t < unat ?m" using below by (simp add: word_less_nat_alt)
  have fits: "sum_fits p self" using inv by (simp add: limited_invar_def)
  have sub: "unat (?m - ?t) = remaining self"
    using below by (simp add: unat_sub_u64 remaining_def)
  have pos: "0 < ?m - ?t" using below by (simp add: word_less_nat_alt unat_sub_u64)
  have "poll_data (fst res) = take (remaining self) (poll_data r) \<and> inner (snd res) = b \<and>
    max_bytes (snd res) = max_bytes self \<and>
    unat (bytes_transmitted (snd res)) =
      min (unat (max_bytes self)) (unat (bytes_transmitted self) + length (poll_data r))"
  proof (cases "\<exists>d. r = Ready (Some (Inr (Data d)))")
    case True
    then obtain d where r: "r = Ready (Some (Inr (Data d)))" ..
    have sum: "unat (?t + of_nat (length d)) = unat ?t + length d"
      using no_wrap [OF fits below poll len] r by simp
    have cond: "?m < ?t + of_nat (length d) \<longleftrightarrow> unat ?m < unat ?t + length d"
      by (simp add: word_less_nat_alt sum)
    have tk: "\<not> unat ?m < unat ?t + length d \<Longrightarrow> take (remaining self) d = d"
      by (simp add: remaining_def)
    show ?thesis
      using below poll r lt sub pos sum cond tk
      by (simp add: res_def poll_frame_def Let_def)
  next
    case False
    with below poll lt show ?thesis
      by (cases r rule: poll_data.cases) (auto simp: res_def poll_frame_def Let_def)
  qed
  then show "poll_data (fst res) = take (remaining self) (poll_data r)"
    and "inner (snd res) = b"
    and "max_bytes (snd res) = max_bytes self"
    and "unat (bytes_transmitted (snd res)) =
           min (unat (max_bytes self)) (unat (bytes_transmitted self) + length (poll_data r))"
    by auto
qed

context http_body
begin

lemma limited_invar_poll:
  assumes "limited_invar poll invar self"
  shows "limited_invar poll invar (snd (poll_frame poll self))"
proof (cases "bytes_transmitted self < max_bytes self")
  case True
  obtain r b where p: "poll (inner self) = (r, b)" by fastforce
  have "invar (inner self)" using assms by (simp add: limited_invar_def)
  with frame_length invar_poll p have "length (poll_data r) < 2 ^ 63" and "invar b"
    by (metis fst_conv, metis snd_conv)
  note step = poll_frame_step [where p = poll, OF assms True p this(1)]
  have "sum_fits poll (snd (poll_frame poll self))"
  proof (cases "unat (max_bytes self) \<le> 2 ^ 63")
    case True
    with step(3) show ?thesis by (simp add: sum_fits_def)
  next
    case False
    have "unat (bytes_transmitted (snd (poll_frame poll self))) + length (run_data poll n b) < 2 ^ 64" for n
    proof -
      have "unat (bytes_transmitted self) + length (run_data poll (Suc n) (inner self)) < 2 ^ 64"
        using False assms unfolding limited_invar_def sum_fits_def by blast
      with step(4) p show ?thesis by (simp only: run_data_Suc fst_conv snd_conv length_append)
    qed
    with step(2) show ?thesis by (simp add: sum_fits_def)
  qed
  with step \<open>invar b\<close> assms show ?thesis by (simp add: limited_invar_def word_le_nat_alt)
next
  case False
  with assms show ?thesis by (simp add: poll_frame_at_limit)
qed

lemma limited_data_prefix:
  "limited_invar poll invar self \<Longrightarrow>
     run_data (poll_frame poll) n self = take (remaining self) (run_data poll n (inner self))"
proof (induction n arbitrary: self)
  case 0
  then show ?case by simp
next
  case (Suc n)
  show ?case
  proof (cases "bytes_transmitted self < max_bytes self")
    case True
    obtain r b where p: "poll (inner self) = (r, b)" by fastforce
    have iv: "invar (inner self)" using Suc.prems by (simp add: limited_invar_def)
    with frame_length p have len: "length (poll_data r) < 2 ^ 63" by (metis fst_conv)
    note step = poll_frame_step [where p = poll, OF Suc.prems True p len]
    let ?self' = "snd (poll_frame poll self)"
    have rem: "remaining ?self' = remaining self - length (poll_data r)"
      using step by (simp add: remaining_def)
    have "run_data (poll_frame poll) n ?self' = take (remaining ?self') (run_data poll n b)"
      using Suc.IH [OF limited_invar_poll [OF Suc.prems]] step(2) by simp
    with step(1) rem p show ?thesis by (simp only: run_data_Suc fst_conv snd_conv) simp
  next
    case False
    then have "remaining self = 0" and "poll_frame poll self = (Ready None, self)"
      by (simp_all add: remaining_def poll_frame_at_limit word_le_nat_alt not_less)
    with Suc.IH [OF Suc.prems] show ?thesis by (simp only: run_data_Suc fst_conv snd_conv) simp
  qed
qed

lemma limited_is_body:
  "http_body (poll_frame poll) (is_end_stream ended) (size_hint hint) (limited_invar poll invar)"
proof unfold_locales
  fix self assume inv: "limited_invar poll invar self"
  then show "limited_invar poll invar (snd (poll_frame poll self))" by (rule limited_invar_poll)
  have iv: "invar (inner self)" using inv by (simp add: limited_invar_def)
  show "length (poll_data (fst (poll_frame poll self))) < 2 ^ 63"
  proof (cases "bytes_transmitted self < max_bytes self")
    case True
    obtain r b where p: "poll (inner self) = (r, b)" by fastforce
    with frame_length iv have len: "length (poll_data r) < 2 ^ 63" by (metis fst_conv)
    with poll_frame_step(1) [where p = poll, OF inv True p len] show ?thesis by simp
  next
    case False
    then show ?thesis by (simp add: poll_frame_at_limit)
  qed
next
  fix self n assume inv: "limited_invar poll invar self" and e: "is_end_stream ended self"
  have iv: "invar (inner self)" using inv by (simp add: limited_invar_def)
  have "remaining self = 0 \<or> run_data poll n (inner self) = []"
    using e ended_silent [OF iv] by (auto simp: is_end_stream_def remaining_def word_le_nat_alt)
  with limited_data_prefix [OF inv, of n] show "run_data (poll_frame poll) n self = []" by auto
next
  fix self u n assume inv: "limited_invar poll invar self"
    and h: "hint_upper (size_hint hint self) = Some u"
  have iv: "invar (inner self)" using inv by (simp add: limited_invar_def)
  have "length (run_data (poll_frame poll) n self) =
          min (length (run_data poll n (inner self))) (remaining self)"
    using limited_data_prefix [OF inv] by (simp add: min.commute)
  also have "\<dots> \<le> unat u"
  proof (cases "hint_upper (hint (inner self))")
    case None
    with h show ?thesis
      by (auto simp: size_hint_def remaining_def unat_saturating_sub Let_def)
  next
    case (Some v)
    from hint_bound [OF iv Some] have "length (run_data poll n (inner self)) \<le> unat v" .
    with h Some show ?thesis
      by (auto simp: size_hint_def remaining_def unat_saturating_sub min_def Let_def word_le_nat_alt
            split: if_splits)
  qed
  finally show "length (run_data (poll_frame poll) n self) \<le> unat u" .
qed

end

section \<open>A body that is a queue of frames\<close>

text \<open>
  The bodies that reach the wrapper are what a client sends: a finite sequence of frames, possibly
  with pauses between them and an error at the end. The contract holds for such a body, with the
  size hint that is exact about the bytes to come.
\<close>

fun queue_poll :: "('e poll list, 'e) poller" where
  "queue_poll [] = (Ready None, [])"
| "queue_poll (r # rs) = (r, rs)"

definition queue_hint :: "'e poll list \<Rightarrow> size_hint" where
  "queue_hint q = \<lparr>hint_lower = 0, hint_upper = Some (of_nat (length (emitted q)))\<rparr>"

definition queue_invar :: "'e poll list \<Rightarrow> bool" where
  "queue_invar q = (length (emitted q) < 2 ^ 63)"

lemma run_queue: "run_data queue_poll n q = emitted (take n q)"
proof (induction n arbitrary: q)
  case 0
  then show ?case by simp
next
  case (Suc n)
  then show ?case by (cases q) (auto simp only: run_data_Suc queue_poll.simps fst_conv snd_conv
        take_Suc_Cons take_Nil emitted_simps poll_data.simps append_Nil)
qed

lemma emitted_append [simp]: "emitted (xs @ ys) = emitted xs @ emitted ys"
  by (simp add: emitted_def)

lemma emitted_take_le: "length (emitted (take n q)) \<le> length (emitted q)"
  by (metis append_take_drop_id emitted_append le_add1 length_append)

interpretation queue: http_body queue_poll "\<lambda>q. q = []" queue_hint queue_invar
proof unfold_locales
  fix q :: "'a poll list" assume "queue_invar q"
  then show "queue_invar (snd (queue_poll q))" and "length (poll_data (fst (queue_poll q))) < 2 ^ 63"
    by (cases q; simp add: queue_invar_def)+
next
  fix q :: "'a poll list" and n assume "queue_invar q" and "q = []"
  then show "run_data queue_poll n q = []" by (simp add: run_queue)
next
  fix q :: "'a poll list" and u n
  assume inv: "queue_invar q" and "hint_upper (queue_hint q) = Some u"
  then have "unat u = length (emitted q)"
    by (auto simp: queue_hint_def queue_invar_def intro: unat_of_nat_small)
  then show "length (run_data queue_poll n q) \<le> unat u"
    by (simp add: run_queue emitted_take_le)
qed

interpretation limited_queue:
  http_body "poll_frame queue_poll" "is_end_stream (\<lambda>q. q = [])" "size_hint queue_hint"
    "limited_invar queue_poll queue_invar"
  by (rule queue.limited_is_body)

section \<open>Properties\<close>

lemma any_poller_is_body:
  assumes "\<forall>b. length (poll_data (fst (p b))) < 2 ^ 63"
  shows "http_body p (\<lambda>_. False) (\<lambda>_. \<lparr>hint_lower = 0, hint_upper = None\<rparr>) (\<lambda>_. True)"
  using assms by unfold_locales auto

lemma run_limited_new:
  assumes "\<forall>b. length (poll_data (fst (p b))) < 2 ^ 63"
    and "unat m \<le> 2 ^ 63 \<or> (\<forall>n. length (run_data p n b) < 2 ^ 64)"
  shows "run_data (poll_frame p) n (limited_body_new b m) = take (unat m) (run_data p n b)"
proof -
  have inv: "limited_invar p (\<lambda>_. True) (limited_body_new b m)"
    using assms(2) by (simp add: limited_invar_new)
  have "remaining (limited_body_new b m) = unat m" and "inner (limited_body_new b m) = b"
    by (simp_all add: remaining_def limited_body_new_def)
  with http_body.limited_data_prefix [OF any_poller_is_body [OF assms(1)] inv]
  show ?thesis by simp
qed

text \<open>
  (C26) What a limited body sends is exactly the first \<open>max_bytes\<close> bytes of what the wrapped body
  sends, after any number of polls and however its data is cut into frames: frames within the limit
  pass unchanged, the frame that crosses it is truncated, nothing follows. The limit is any 64-bit
  number. A frame is a \<open>Bytes\<close> value and so shorter than \<open>2 ^ 63\<close> bytes; for a limit above \<open>2 ^ 63\<close>
  the wrapped body has fewer than \<open>2 ^ 64\<close> bytes in all, since the count of a longer one wraps around.
\<close>

theorem limited_body_prefix:
  assumes "\<forall>b. length (poll_data (fst (p b))) < 2 ^ 63"
    and "unat m \<le> 2 ^ 63 \<or> (\<forall>n. length (run_data p n b) < 2 ^ 64)"
  shows "run_data (poll_frame p) n (limited_body_new b m) = take (unat m) (run_data p n b)"
  by (rule run_limited_new [OF assms])

definition once_poll :: "(bool, unit) poller" where
  \<comment> \<open>a body of one frame\<close>
  "once_poll b = (if b then Ready (Some (Inr (Data ''abc''))) else Ready None, False)"

lemma run_once: "run_data once_poll n b = (if b \<and> 0 < n then ''abc'' else [])"
proof (induction n arbitrary: b)
  case (Suc n)
  then show ?case by (simp only: run_data_Suc) (simp add: once_poll_def)
qed simp

theorem limited_body_prefix_witness:
  "run_data (poll_frame once_poll) 5 (limited_body_new True 2) = ''ab'' \<and>
   run_data (poll_frame once_poll) 5 (limited_body_new True 0xFFFFFFFFFFFFFFFF) = ''abc''"
proof -
  have "\<forall>b. length (poll_data (fst (once_poll b))) < 2 ^ 63"
    and "\<forall>n. length (run_data once_poll n True) < 2 ^ 64"
    by (simp_all add: once_poll_def run_once)
  then have "run_data (poll_frame once_poll) 5 (limited_body_new True m) =
      take (unat m) (run_data once_poll 5 True)" for m
    using limited_body_prefix [of once_poll m True 5] by blast
  then show ?thesis by (simp add: run_once)
qed

text \<open>
  Beyond that the addition of \<open>poll_frame\<close> wraps around (in a build without overflow checks): the largest limit
  does not stop a body of three frames of \<open>2 ^ 63 - 1\<close> bytes.
\<close>

lemma limit_sum_wraps:
  assumes "length d = 2 ^ 63 - 1"
  shows "length (run_data (poll_frame (\<lambda>b :: unit. (Ready (Some (Inr (Data d))) :: unit poll, b))) (Suc (Suc (Suc 0)))
           (limited_body_new () 0xFFFFFFFFFFFFFFFF)) = 3 * (2 ^ 63 - 1)"
  using assms by (simp add: poll_frame_def limited_body_new_def)

text \<open>
  The upper size hint is sound: a limited body with an exact inner hint never emits more bytes
  than \<open>size_hint\<close> says, in every state, and it emits nothing once \<open>is_end_stream\<close> holds.
\<close>

theorem limited_body_hint_sound:
  assumes "limited_invar queue_poll queue_invar self"
  shows "(\<exists>u. hint_upper (size_hint queue_hint self) = Some u \<and>
            length (run_data (poll_frame queue_poll) n self) \<le> unat u) \<and>
         (is_end_stream (\<lambda>q. q = []) self \<longrightarrow> run_data (poll_frame queue_poll) n self = [])"
proof -
  obtain u where "hint_upper (size_hint queue_hint self) = Some u"
    by (auto simp: size_hint_def queue_hint_def Let_def)
  with limited_queue.hint_bound [OF assms] limited_queue.ended_silent [OF assms]
  show ?thesis by blast
qed

theorem limited_body_hint_sound_witness:
  "\<exists>u. hint_upper (size_hint queue_hint
          (limited_body_new [Ready (Some (Inr (Data ''abc''))) :: unit poll] 2)) = Some u \<and>
        length (run_data (poll_frame queue_poll) 1
          (limited_body_new [Ready (Some (Inr (Data ''abc''))) :: unit poll] 2)) \<le> unat u"
proof -
  have "limited_invar queue_poll queue_invar (limited_body_new [Ready (Some (Inr (Data ''abc''))) :: unit poll] 2)"
    by (simp add: limited_invar_def sum_fits_def limited_body_new_def queue_invar_def)
  from limited_body_hint_sound [OF this, of 1] show ?thesis by blast
qed

end
