(* ===== verification/Http_Types.thy ===== *)
theory Http_Types
  imports Limited_Body
begin

text \<open>
  The HTTP vocabulary of the \<open>http\<close> and \<open>hyper\<close> packages as the proxy uses it. A URI is known
  through its three accessors, a request and a response through their parts. The header map is a
  parameter: a type \<open>'h\<close> with the operations of \<open>HeaderMap\<close> and of \<open>HeaderValue\<close> in a record,
  and the documented laws of these operations as the locale \<open>header_map\<close>. A concrete header map, a
  list of name and value pairs, satisfies the laws.
\<close>

section \<open>URIs, requests and responses\<close>

record uri =
  uri_scheme :: "string option"
  uri_authority :: "string option"
  uri_path_and_query :: "string option"

record ('h, 'b) request =
  req_method :: string
  req_uri :: uri
  req_headers :: 'h
  req_body :: 'b

record ('h, 'b) response =
  resp_status :: nat
  resp_headers :: 'h
  resp_body :: 'b

text \<open>An outgoing body is the client's body, boxed as it is or wrapped in a \<^typ>\<open>'b limited_body\<close>.\<close>

datatype 'b out_body = Boxed 'b | LimitedBox "'b limited_body"

text \<open>A response body is the one the upstream server sends or a text of the proxy's own.\<close>

datatype 'r resp_body = Upstream 'r | Text string

definition path_or_slash :: "uri \<Rightarrow> string" where
  \<comment> \<open>\<open>uri.path_and_query().map(|pq| pq.as_str()).unwrap_or("/")\<close>\<close>
  "path_or_slash u = (case uri_path_and_query u of Some p \<Rightarrow> p | None \<Rightarrow> ''/'')"

section \<open>Header maps\<close>

text \<open>Header names compare without regard to case; \<open>HeaderName\<close> keeps the lower-case form.\<close>

definition to_lower :: "char \<Rightarrow> char" where
  "to_lower c =
     (case map_of (zip ''ABCDEFGHIJKLMNOPQRSTUVWXYZ'' ''abcdefghijklmnopqrstuvwxyz'') c of
        Some d \<Rightarrow> d | None \<Rightarrow> c)"

definition header_name :: "string \<Rightarrow> string" where
  "header_name s = map to_lower s"

record 'h header_ops =
  empty_headers :: 'h
  get_all :: "'h \<Rightarrow> string \<Rightarrow> string list"
  iter_headers :: "'h \<Rightarrow> (string \<times> string) list"
  remove_header :: "'h \<Rightarrow> string \<Rightarrow> 'h"
  append_header :: "'h \<Rightarrow> string \<Rightarrow> string \<Rightarrow> 'h"
  insert_header :: "'h \<Rightarrow> string \<Rightarrow> string \<Rightarrow> 'h"
  value_to_str :: "string \<Rightarrow> string option"
  value_from_str :: "string \<Rightarrow> string option"

text \<open>\<open>headers.get(name)\<close> is the first of the values.\<close>

definition get_header :: "'h header_ops \<Rightarrow> 'h \<Rightarrow> string \<Rightarrow> string option" where
  "get_header H h n = (case get_all H h n of [] \<Rightarrow> None | v # _ \<Rightarrow> Some v)"

text \<open>\<open>HeaderValue::to_str\<close> accepts visible ASCII, blank and tab; \<open>from_str\<close> also bytes above 127.\<close>

definition visible :: "char \<Rightarrow> bool" where
  "visible c = (let n = of_char c :: nat in n = 9 \<or> (32 \<le> n \<and> n < 127))"

locale header_map =
  fixes H :: "'h header_ops"
  assumes get_all_empty: "get_all H (empty_headers H) n = []"
    and get_all_remove:
      "get_all H (remove_header H h n) m = (if header_name n = header_name m then [] else get_all H h m)"
    and get_all_append:
      "get_all H (append_header H h n v) m =
         (if header_name n = header_name m then get_all H h m @ [v] else get_all H h m)"
    and get_all_insert:
      "get_all H (insert_header H h n v) m =
         (if header_name n = header_name m then [v] else get_all H h m)"
    and visible_str:
      "list_all visible s \<Longrightarrow> \<exists>v. value_from_str H s = Some v \<and> value_to_str H v = Some s"
begin

lemmas header_laws = get_all_empty get_all_remove get_all_append get_all_insert

end

section \<open>A concrete header map\<close>

type_synonym header_list = "(string \<times> string) list"

definition header_byte :: "char \<Rightarrow> bool" where
  "header_byte c = (let n = of_char c :: nat in n = 9 \<or> (32 \<le> n \<and> n \<noteq> 127))"

definition list_headers :: "header_list header_ops" where
  "list_headers =
     \<lparr>empty_headers = [],
      get_all = (\<lambda>h n. map snd (filter (\<lambda>p. fst p = header_name n) h)),
      iter_headers = (\<lambda>h. h),
      remove_header = (\<lambda>h n. filter (\<lambda>p. fst p \<noteq> header_name n) h),
      append_header = (\<lambda>h n v. h @ [(header_name n, v)]),
      insert_header = (\<lambda>h n v. filter (\<lambda>p. fst p \<noteq> header_name n) h @ [(header_name n, v)]),
      value_to_str = (\<lambda>v. if list_all visible v then Some v else None),
      value_from_str = (\<lambda>s. if list_all header_byte s then Some s else None)\<rparr>"

lemma filter_other:
  "n \<noteq> m \<Longrightarrow> filter (\<lambda>p. fst p \<noteq> n \<and> fst p = m) h = filter (\<lambda>p. fst p = m) h"
  by (induction h) auto

lemma visible_header_byte: "visible c \<Longrightarrow> header_byte c"
  by (auto simp: visible_def header_byte_def Let_def)

interpretation hlist: header_map list_headers
proof unfold_locales
  fix s assume "list_all visible s"
  then show "\<exists>v. value_from_str list_headers s = Some v \<and> value_to_str list_headers v = Some s"
    by (auto simp: list_headers_def list_all_iff intro: visible_header_byte)
qed (auto simp: list_headers_def filter_other)

text \<open>Names that occur in the source, in lower case.\<close>

lemma header_name_const [simp]:
  "header_name ''host'' = ''host''"
  "header_name ''proxy-connection'' = ''proxy-connection''"
  "header_name ''proxy-authorization'' = ''proxy-authorization''"
  "header_name ''proxy-authenticate'' = ''proxy-authenticate''"
  "header_name ''content-length'' = ''content-length''"
  "header_name ''Content-Length'' = ''content-length''"
  "header_name ''Content-Type'' = ''content-type''"
  "header_name ''HTTPJAIL'' = ''httpjail''"
  "header_name ''Httpjail-Loop-Prevention'' = ''httpjail-loop-prevention''"
  by (simp_all add: header_name_def to_lower_def)

end
