(* ===== verification/Upstream_TLS.thy ===== *)
theory Upstream_TLS
  imports Prelude
begin

text \<open>
  The shared client for upstream requests (\<^verbatim>\<open>src/src/proxy.rs\<close>) and the verifier that replaces the normal one when
  the validation of certificates is switched off (\<^verbatim>\<open>src/src/dangerous_verifier.rs\<close>). A certificate is opaque
  (\<open>'c\<close>); the trust store and the verifiers of the packages \<open>rustls\<close> and \<open>webpki\<close> are parameters.
\<close>

section \<open>Verifiers\<close>

datatype signature_scheme =
    RSA_PKCS1_SHA256 | RSA_PKCS1_SHA384 | RSA_PKCS1_SHA512
  | ECDSA_NISTP256_SHA256 | ECDSA_NISTP384_SHA384 | ECDSA_NISTP521_SHA512
  | RSA_PSS_SHA256 | RSA_PSS_SHA384 | RSA_PSS_SHA512 | ED25519 | OtherScheme nat

text \<open>\<open>DigitallySignedStruct\<close>: a scheme and a signature.\<close>

type_synonym signed = "signature_scheme \<times> string"

record 'c server_cert_verifier =
  verify_server_cert :: "'c \<Rightarrow> 'c list \<Rightarrow> string \<Rightarrow> string \<Rightarrow> nat \<Rightarrow> unit result"
  verify_tls12_signature :: "string \<Rightarrow> 'c \<Rightarrow> signed \<Rightarrow> unit result"
  verify_tls13_signature :: "string \<Rightarrow> 'c \<Rightarrow> signed \<Rightarrow> unit result"
  supported_verify_schemes :: "signature_scheme list"

definition DangerousAcceptAnyVerifier :: "'c server_cert_verifier" where
  "DangerousAcceptAnyVerifier =
     \<lparr>verify_server_cert = (\<lambda>end_entity intermediates server_name ocsp_response at. Ok ()),
      verify_tls12_signature = (\<lambda>message cert dss. Ok ()),
      verify_tls13_signature = (\<lambda>message cert dss. Ok ()),
      supported_verify_schemes =
        [RSA_PKCS1_SHA256, RSA_PKCS1_SHA384, RSA_PKCS1_SHA512, ECDSA_NISTP256_SHA256, ECDSA_NISTP384_SHA384,
         ECDSA_NISTP521_SHA512, RSA_PSS_SHA256, RSA_PSS_SHA384, RSA_PSS_SHA512, ED25519]\<rparr>"

record 'c client_config =
  verifier :: "'c server_cert_verifier"
  client_auth :: bool

definition create_dangerous_client_config :: "'c client_config" where
  "create_dangerous_client_config = \<lparr>verifier = DangerousAcceptAnyVerifier, client_auth = False\<rparr>"

section \<open>The shared client\<close>

text \<open>
  The parameters: \<open>root_add\<close> adds a certificate to a trust store, \<open>TLS_SERVER_ROOTS\<close> are the roots of the
  package \<open>webpki-roots\<close>, \<open>webpki_verifier\<close> the verifier that \<open>with_root_certificates\<close> builds for a store, and
  \<open>native_config\<close> the configuration of \<open>with_native_roots\<close>, if the roots of the system can be loaded.
\<close>

record 'c tls_env =
  root_add :: "'c list \<Rightarrow> 'c \<Rightarrow> 'c list result"
  TLS_SERVER_ROOTS :: "'c list"
  webpki_verifier :: "'c list \<Rightarrow> 'c server_cert_verifier"
  native_config :: "'c client_config result"

text \<open>
  A connector: its TLS configuration, and the happy-eyeballs timeout in milliseconds if it is set
  (otherwise the package's default holds).
\<close>

record 'c connector =
  tls_config :: "'c client_config"
  happy_eyeballs_timeout :: "nat option"

record 'c client =
  https_connector :: "'c connector"
  pool_idle_timeout :: nat
  pool_max_idle_per_host :: nat
  http1_title_case_headers :: bool
  http1_preserve_header_case :: bool

definition build_client :: "'c connector \<Rightarrow> 'c client" where
  "build_client https =
     \<lparr>https_connector = https, pool_idle_timeout = 5, pool_max_idle_per_host = 1,
      http1_title_case_headers = False, http1_preserve_header_case = True\<rparr>"

text \<open>A failing \<open>expect\<close> is a panic, here \<^const>\<open>None\<close>.\<close>

definition create_client_config_with_ca :: "'c tls_env \<Rightarrow> 'c \<Rightarrow> 'c client_config option" where
  "create_client_config_with_ca E ca =
     (case root_add E (TLS_SERVER_ROOTS E) ca of
        Inl _ \<Rightarrow> None
      | Inr roots \<Rightarrow> Some \<lparr>verifier = webpki_verifier E roots, client_auth = False\<rparr>)"

text \<open>
  The cell \<open>HTTPS_CLIENT\<close> is a \<open>OnceLock\<close>: the first initialisation wins. Both functions give the new
  content of the cell; \<open>danger\<close> says whether \<^verbatim>\<open>HTTPJAIL_DANGER_DISABLE_CERT_VALIDATION\<close> is set.
\<close>

definition init_client_with_ca :: "'c tls_env \<Rightarrow> bool \<Rightarrow> 'c \<Rightarrow> 'c client option \<Rightarrow> 'c client option" where
  "init_client_with_ca E danger ca cell =
     (case cell of
        Some c \<Rightarrow> Some c
      | None \<Rightarrow>
          (if danger then
             Some (build_client \<lparr>tls_config = create_dangerous_client_config, happy_eyeballs_timeout = None\<rparr>)
           else (case create_client_config_with_ca E ca of
                   None \<Rightarrow> None
                 | Some config \<Rightarrow> Some (build_client \<lparr>tls_config = config, happy_eyeballs_timeout = Some 250\<rparr>))))"

definition get_client :: "'c tls_env \<Rightarrow> 'c client option \<Rightarrow> 'c client option" where
  "get_client E cell =
     (case cell of
        Some c \<Rightarrow> Some c
      | None \<Rightarrow>
          (case native_config E of
             Inl _ \<Rightarrow> None
           | Inr config \<Rightarrow> Some (build_client \<lparr>tls_config = config, happy_eyeballs_timeout = None\<rparr>)))"

section \<open>Trust\<close>

abbreviation client_verifier :: "'c client \<Rightarrow> 'c server_cert_verifier" where
  "client_verifier c \<equiv> verifier (tls_config (https_connector c))"

datatype 'c client_call = InitWithCa bool 'c | GetClient

fun run_client_call :: "'c tls_env \<Rightarrow> 'c client_call \<Rightarrow> 'c client option \<Rightarrow> 'c client option" where
  "run_client_call E (InitWithCa danger ca) cell = init_client_with_ca E danger ca cell"
| "run_client_call E GetClient cell = get_client E cell"

text \<open>A sequence of calls, up to the first one that panics; the last content of the cell.\<close>

fun client_calls :: "'c tls_env \<Rightarrow> 'c client_call list \<Rightarrow> 'c client option \<Rightarrow> 'c client option" where
  "client_calls E [] cell = cell"
| "client_calls E (c # cs) cell =
     (case run_client_call E c cell of None \<Rightarrow> None | Some client \<Rightarrow> client_calls E cs (Some client))"

lemma client_kept: "client_calls E cs (Some c) = Some c"
proof (induction cs)
  case (Cons x cs)
  then show ?case by (cases x) (simp_all add: init_client_with_ca_def get_client_def)
qed simp

text \<open>
  The first initialisation fixes the client for all later calls. Without the variable that switches validation off,
  the client exists only if the jail's own authority could be added to the public roots, and its verifier is the
  one for these roots; with the variable it is the verifier that refuses no chain and no signature.
\<close>

lemma upstream_trust_fixed:
  assumes "client_calls E (InitWithCa danger ca # calls) None = Some c"
  shows "client_calls E later (Some c) = Some c"
    and "danger \<Longrightarrow> client_verifier c = DangerousAcceptAnyVerifier"
    and "\<not> danger \<Longrightarrow>
      \<exists>roots. root_add E (TLS_SERVER_ROOTS E) ca = Ok roots \<and> client_verifier c = webpki_verifier E roots"
  using assms
  by (auto simp: client_kept init_client_with_ca_def build_client_def create_client_config_with_ca_def
      create_dangerous_client_config_def split: if_splits sum.splits option.splits)

end
