(* ===== verification/Proxy.thy ===== *)
theory Proxy
  imports Rules Http_Types Upstream_TLS
begin

text \<open>
  \<^verbatim>\<open>src/src/proxy.rs\<close>: the HTTP side of the proxy. The rule engine, the upstream client and the
  header map are parameters, collected in \<open>proxy_ctx\<close> together with the instance's nonce. The
  outside world \<open>'w\<close> holds what the rule engine and the network keep; handlers are state
  transformers over it.
\<close>

section \<open>Constants and raw responses\<close>

definition HTTPJAIL_HEADER :: string where "HTTPJAIL_HEADER = ''HTTPJAIL''"
definition HTTPJAIL_HEADER_VALUE :: string where "HTTPJAIL_HEADER_VALUE = ''true''"
definition BLOCKED_MESSAGE :: string where "BLOCKED_MESSAGE = ''Request blocked by httpjail''"
definition HTTPJAIL_LOOP_DETECTION_HEADER :: string where
  "HTTPJAIL_LOOP_DETECTION_HEADER = ''Httpjail-Loop-Prevention''"

definition create_connect_403_response :: string where
  "create_connect_403_response =
     ''HTTP/1.1 403 Forbidden'' @ crlf @ ''Content-Type: text/plain'' @ crlf @
     ''Content-Length: 27'' @ crlf @ crlf @ ''Request blocked by httpjail''"

definition blocked_text :: "string option \<Rightarrow> string" where
  \<comment> \<open>the message of \<open>create_connect_403_response_with_context\<close> and \<open>create_forbidden_response\<close>\<close>
  "blocked_text ctx = (case ctx of Some c \<Rightarrow> BLOCKED_MESSAGE @ newline @ c | None \<Rightarrow> BLOCKED_MESSAGE)"

definition create_connect_403_response_with_context :: "string option \<Rightarrow> string" where
  "create_connect_403_response_with_context ctx =
     (let message = blocked_text ctx
      in ''HTTP/1.1 403 Forbidden'' @ crlf @ ''Content-Type: text/plain'' @ crlf @
         ''Content-Length: '' @ dec (length message) @ crlf @ crlf @ message)"

section \<open>Byte limits\<close>

datatype ('h, 'b) byte_limit_result =
    WithinLimit "('h, 'b out_body) request"
  | ExceedsLimit u64 u64

definition request_line_size :: "string \<Rightarrow> uri \<Rightarrow> u64" where
  "request_line_size meth u =
     of_nat (length (meth @ '' '' @ path_or_slash u @ '' HTTP/1.1'' @ crlf))"

definition headers_size :: "(string \<times> string) list \<Rightarrow> u64" where
  "headers_size hs = sum_list (map (\<lambda>(n, v). of_nat (length n) + 2 + of_nat (length v) + 2) hs)"

definition total_header_size :: "'h header_ops \<Rightarrow> ('h, 'b) request \<Rightarrow> u64" where
  "total_header_size H req =
     request_line_size (req_method req) (req_uri req) +
     headers_size (iter_headers H (req_headers req)) + 2"

definition content_length :: "'h header_ops \<Rightarrow> 'h \<Rightarrow> u64 option" where
  "content_length H h =
     Option.bind (Option.bind (get_header H h ''content-length'') (value_to_str H)) parse_u64"

definition limit_body :: "'b out_body \<Rightarrow> u64 \<Rightarrow> 'b out_body" where
  \<comment> \<open>\<open>LimitedBody::new(body, limit)\<close>, boxed; the body comes from \<open>prepare_upstream_request\<close>\<close>
  "limit_body body m =
     (case body of Boxed b \<Rightarrow> LimitedBox (limited_body_new b m) | LimitedBox lb \<Rightarrow> LimitedBox lb)"

definition apply_request_byte_limit ::
  "'h header_ops \<Rightarrow> ('h, 'b out_body) request \<Rightarrow> u64 \<Rightarrow> ('h, 'b) byte_limit_result" where
  "apply_request_byte_limit H req limit =
     (let size = total_header_size H req;
          body_limit = saturating_sub limit size;
          limited = req\<lparr>req_body := limit_body (req_body req) body_limit\<rparr>
      in case content_length H (req_headers req) of
           Some len \<Rightarrow>
             (if size + len > limit then ExceedsLimit len limit else WithinLimit limited)
         | None \<Rightarrow> WithinLimit limited)"

section \<open>Forwarding\<close>

definition prepare_upstream_request ::
  "'h header_ops \<Rightarrow> ('h, 'b) request \<Rightarrow> uri \<Rightarrow> string \<Rightarrow> ('h, 'b out_body) request" where
  "prepare_upstream_request H req target_uri nonce =
     (let h = req_headers req;
          h = remove_header H h ''proxy-connection'';
          h = remove_header H h ''proxy-authorization'';
          h = remove_header H h ''proxy-authenticate'';
          h = append_header H h HTTPJAIL_LOOP_DETECTION_HEADER
                (case value_from_str H nonce of Some v \<Rightarrow> v | None \<Rightarrow> ''invalid'');
          h = (case uri_authority target_uri of
                 Some authority \<Rightarrow>
                   insert_header H h ''host''
                     (case value_from_str H authority of Some v \<Rightarrow> v | None \<Rightarrow> ''unknown'')
               | None \<Rightarrow> h)
      in \<lparr>req_method = req_method req, req_uri = target_uri, req_headers = h,
          req_body = Boxed (req_body req)\<rparr>)"

record ('h, 'b, 'r, 'w) proxy_ctx =
  hdr :: "'h header_ops"
  uri_to_string :: "uri \<Rightarrow> string"
  uri_parse :: "string \<Rightarrow> uri result"
  ctx_engine :: "'w rule_engine_trait"
  client_request :: "('h, 'b out_body) request \<Rightarrow> 'w \<Rightarrow> ('h, 'r) response result \<times> 'w"
  loop_nonce :: string

definition create_error_response :: "'h header_ops \<Rightarrow> nat \<Rightarrow> string \<Rightarrow> ('h, 'r resp_body) response" where
  "create_error_response H status message =
     (let h = empty_headers H;
          h = append_header H h ''Content-Type'' ''text/plain'';
          h = append_header H h ''Content-Length'' (dec (length message));
          h = append_header H h HTTPJAIL_HEADER HTTPJAIL_HEADER_VALUE
      in \<lparr>resp_status = status, resp_headers = h, resp_body = Text message\<rparr>)"

definition create_forbidden_response ::
  "'h header_ops \<Rightarrow> string option \<Rightarrow> ('h, 'r resp_body) response" where
  "create_forbidden_response H ctx = create_error_response H 403 (blocked_text ctx)"

definition too_large_text :: "u64 \<Rightarrow> u64 \<Rightarrow> string" where
  "too_large_text len m =
     ''Request body size ('' @ dec (unat len) @ '' bytes) exceeds maximum allowed ('' @
     dec (unat m) @ '' bytes)''"

text \<open>
  The part that \<open>proxy_request\<close> and \<open>proxy_https_request\<close> share after the target URI is known:
  prepare the request, apply the limit, send it, mark the response.
\<close>

definition forward ::
  "('h, 'b, 'r, 'w) proxy_ctx \<Rightarrow> ('h, 'b) request \<Rightarrow> uri \<Rightarrow> u64 option \<Rightarrow> 'w \<Rightarrow>
     ('h, 'r resp_body) response result \<times> 'w" where
  "forward C req target_uri max_tx w =
     (let prepared_req = prepare_upstream_request (hdr C) req target_uri (loop_nonce C)
      in case (case max_tx of
                 Some limit \<Rightarrow> apply_request_byte_limit (hdr C) prepared_req limit
               | None \<Rightarrow> WithinLimit prepared_req) of
           ExceedsLimit len m \<Rightarrow> (Ok (create_error_response (hdr C) 413 (too_large_text len m)), w)
         | WithinLimit new_req \<Rightarrow>
             (case client_request C new_req w of
                (Inl e, w') \<Rightarrow> (Err e, w')
              | (Inr resp, w') \<Rightarrow>
                  (Ok \<lparr>resp_status = resp_status resp,
                       resp_headers = insert_header (hdr C) (resp_headers resp)
                                        HTTPJAIL_HEADER HTTPJAIL_HEADER_VALUE,
                       resp_body = Upstream (resp_body resp)\<rparr>, w')))"

definition proxy_request ::
  "('h, 'b, 'r, 'w) proxy_ctx \<Rightarrow> ('h, 'b) request \<Rightarrow> string \<Rightarrow> u64 option \<Rightarrow> 'w \<Rightarrow>
     ('h, 'r resp_body) response result \<times> 'w" where
  "proxy_request C req full_url max_tx w =
     (case uri_parse C full_url of
        Inl e \<Rightarrow> (Err e, w)
      | Inr target_uri \<Rightarrow> forward C req target_uri max_tx w)"

definition loop_text :: string where
  "loop_text = ''Loop detected: request already processed by this httpjail instance''"

definition is_loop :: "'h header_ops \<Rightarrow> string \<Rightarrow> 'h \<Rightarrow> bool" where
  "is_loop H nonce h =
     list_ex (\<lambda>v. value_to_str H v = Some nonce) (get_all H h HTTPJAIL_LOOP_DETECTION_HEADER)"

definition http_full_url :: "('h, 'b, 'r, 'w) proxy_ctx \<Rightarrow> ('h, 'b) request \<Rightarrow> string" where
  "http_full_url C req =
     (let u = req_uri req
      in if uri_scheme u \<noteq> None \<and> uri_authority u \<noteq> None then uri_to_string C u
         else (let host = (case Option.bind (get_header (hdr C) (req_headers req) ''host'')
                                   (value_to_str (hdr C)) of
                             Some h \<Rightarrow> h | None \<Rightarrow> ''unknown'')
               in ''http://'' @ host @ path_or_slash u))"

definition handle_http_request ::
  "('h, 'b, 'r, 'w) proxy_ctx \<Rightarrow> ('h, 'b) request \<Rightarrow> string \<Rightarrow> 'w \<Rightarrow>
     ('h, 'r resp_body) response \<times> 'w" where
  "handle_http_request C req requester_ip w =
     (if is_loop (hdr C) (loop_nonce C) (req_headers req) then
        (create_forbidden_response (hdr C) (Some loop_text), w)
      else
        let full_url = http_full_url C req
        in case evaluate_with_context_and_ip (ctx_engine C) (req_method req) full_url requester_ip w of
             (evaluation, w) \<Rightarrow>
               (case action evaluation of
                  Allow \<Rightarrow>
                    (case proxy_request C req full_url (max_tx_bytes evaluation) w of
                       (Inr resp, w) \<Rightarrow> (resp, w)
                     | (Inl _, w) \<Rightarrow> (create_error_response (hdr C) 502 ''Proxy error'', w))
                | Deny \<Rightarrow> (create_forbidden_response (hdr C) (eval_context evaluation), w)))"

text \<open>
  \<open>handle_http_connection\<close> serves the requests that arrive on a connection one after the other
  (\<open>http1::Builder::serve_connection\<close>); a request is answered before the next one is handled.
\<close>

fun serve_connection :: "('q \<Rightarrow> 'w \<Rightarrow> 'p \<times> 'w) \<Rightarrow> 'q list \<Rightarrow> 'w \<Rightarrow> 'p list \<times> 'w" where
  "serve_connection service [] w = ([], w)"
| "serve_connection service (req # reqs) w =
     (case service req w of (resp, w') \<Rightarrow>
        case serve_connection service reqs w' of (resps, w'') \<Rightarrow> (resp # resps, w''))"

definition handle_http_connection ::
  "('h, 'b, 'r, 'w) proxy_ctx \<Rightarrow> ('h, 'b) request list \<Rightarrow> string \<Rightarrow> 'w \<Rightarrow>
     ('h, 'r resp_body) response list \<times> 'w" where
  "handle_http_connection C reqs remote_ip w =
     serve_connection (\<lambda>req. handle_http_request C req remote_ip) reqs w"

section \<open>Listeners\<close>

datatype ip_addr = V4 u32 | V6 "128 word"

record socket_addr =
  addr_ip :: ip_addr
  addr_port :: u16

datatype domain = IPV4 | IPV6

datatype sock_call =
    Socket domain
  | SetFreebind nat
  | SetReuseAddress nat
  | SetNonblocking nat
  | Bind nat socket_addr
  | Listen nat nat
  | FromStd nat
  | TcpBind socket_addr

record 'w net_ops =
  sock :: "sock_call \<Rightarrow> ('w, nat) fallible"
  gen_range :: "u16 \<Rightarrow> u16 \<Rightarrow> 'w \<Rightarrow> u16 \<times> 'w"
  local_port :: "nat \<Rightarrow> ('w, u16) fallible"

definition LOCALHOST4 :: ip_addr where "LOCALHOST4 = V4 0x7F000001"

definition is_specific_non_loopback :: "ip_addr \<Rightarrow> bool" where
  "is_specific_non_loopback ip =
     (case ip of V4 a \<Rightarrow> a \<noteq> 0x7F000001 \<and> a \<noteq> 0 | V6 a \<Rightarrow> a \<noteq> 1 \<and> a \<noteq> 0)"

definition bind_listener :: "'w net_ops \<Rightarrow> socket_addr \<Rightarrow> ('w, nat) fallible" where
  "bind_listener N addr =
     (if is_specific_non_loopback (addr_ip addr) then
        and_then (sock N (Socket (case addr_ip addr of V4 _ \<Rightarrow> IPV4 | V6 _ \<Rightarrow> IPV6))) (\<lambda>fd w.
          case sock N (SetFreebind fd) w of (_, w) \<Rightarrow>
          and_then (sock N (SetReuseAddress fd)) (\<lambda>_.
          and_then (sock N (SetNonblocking fd)) (\<lambda>_.
          and_then (sock N (Bind fd addr)) (\<lambda>_.
          and_then (sock N (Listen fd 128)) (\<lambda>_.
          and_then (sock N (SetNonblocking fd)) (\<lambda>_.
            sock N (FromStd fd)))))) w)
      else sock N (TcpBind addr))"

definition no_port_text :: "u16 \<Rightarrow> u16 \<Rightarrow> string \<Rightarrow> string" where
  "no_port_text start en ip =
     ''No available port found after 16 attempts in range '' @ dec (unat start) @ ''-'' @
     dec (unat en) @ '' on '' @ ip"

fun bind_attempts ::
  "nat \<Rightarrow> 'w net_ops \<Rightarrow> (ip_addr \<Rightarrow> string) \<Rightarrow> u16 \<Rightarrow> u16 \<Rightarrow> ip_addr \<Rightarrow> ('w, nat) fallible" where
  "bind_attempts 0 N show_ip start en ip w = (Err (no_port_text start en (show_ip ip)), w)"
| "bind_attempts (Suc n) N show_ip start en ip w =
     (case gen_range N start en w of (port, w) \<Rightarrow>
        case bind_listener N \<lparr>addr_ip = ip, addr_port = port\<rparr> w of
          (Inr listener, w) \<Rightarrow> (Ok listener, w)
        | (Inl _, w) \<Rightarrow> bind_attempts n N show_ip start en ip w)"

definition bind_to_available_port ::
  "'w net_ops \<Rightarrow> (ip_addr \<Rightarrow> string) \<Rightarrow> u16 \<Rightarrow> u16 \<Rightarrow> ip_addr \<Rightarrow> ('w, nat) fallible" where
  "bind_to_available_port N show_ip start en ip = bind_attempts 16 N show_ip start en ip"

section \<open>The proxy server\<close>

text \<open>\<open>hex n\<close> is what \<open>format!("{:x}", n)\<close> prints.\<close>

fun hex :: "nat \<Rightarrow> string" where
  "hex n = (if n < 16 then [''0123456789abcdef'' ! n]
            else hex (n div 16) @ [''0123456789abcdef'' ! (n mod 16)])"

declare hex.simps [simp del]

definition new_loop_nonce :: "u64 \<Rightarrow> string" where
  "new_loop_nonce random_u64 = hex (unat random_u64)"

record ('e, 'm) proxy_server =
  http_bind :: "socket_addr option"
  https_bind :: "socket_addr option"
  ps_engine :: 'e
  ps_cert_manager :: 'm
  ps_nonce :: string

definition proxy_server_new ::
  "'m result \<Rightarrow> ('m \<Rightarrow> 'c) \<Rightarrow> 'c tls_env \<Rightarrow> bool \<Rightarrow> u64 \<Rightarrow>
     socket_addr option \<Rightarrow> socket_addr option \<Rightarrow> 'e \<Rightarrow> 'c client option \<Rightarrow>
     (('e, 'm) proxy_server \<times> 'c client option) option" where
  \<comment> \<open>\<^const>\<open>None\<close> is a panic\<close>
  "proxy_server_new cert_manager ca_der E danger rnd http https engine cell =
     (case cert_manager of
        Inl _ \<Rightarrow> None
      | Inr cm \<Rightarrow>
          (case init_client_with_ca E danger (ca_der cm) cell of
             None \<Rightarrow> None
           | Some client \<Rightarrow>
               Some (\<lparr>http_bind = http, https_bind = https, ps_engine = engine,
                      ps_cert_manager = cm, ps_nonce = new_loop_nonce rnd\<rparr>, Some client)))"

datatype proto = HTTP | HTTPS

definition bind_or_search ::
  "'w net_ops \<Rightarrow> (ip_addr \<Rightarrow> string) \<Rightarrow> socket_addr option \<Rightarrow> ('w, nat) fallible" where
  "bind_or_search N show_ip bind =
     (case bind of
        Some addr \<Rightarrow> bind_listener N addr
      | None \<Rightarrow> bind_to_available_port N show_ip 8000 8999 LOCALHOST4)"

definition proxy_server_start ::
  "'w net_ops \<Rightarrow> (ip_addr \<Rightarrow> string) \<Rightarrow> (proto \<Rightarrow> nat \<Rightarrow> 'w \<Rightarrow> 'w) \<Rightarrow> ('e, 'm) proxy_server \<Rightarrow>
     ('w, u16 \<times> u16) fallible" where
  \<comment> \<open>the third argument is \<open>spawn_listener_task\<close> with the handler of the protocol\<close>
  "proxy_server_start N show_ip spawn self =
     and_then (bind_or_search N show_ip (http_bind self)) (\<lambda>http_listener.
     and_then (local_port N http_listener) (\<lambda>http_port w.
       let w = spawn HTTP http_listener w
       in and_then (bind_or_search N show_ip (https_bind self)) (\<lambda>https_listener.
          and_then (local_port N https_listener) (\<lambda>https_port w.
            let w = spawn HTTPS https_listener w in (Ok (http_port, https_port), w))) w))"

text \<open>The accept loop: a failed \<open>accept\<close> is logged and the loop goes on.\<close>

fun spawn_listener_task ::
  "('s \<times> socket_addr \<Rightarrow> 'w \<Rightarrow> unit result \<times> 'w) \<Rightarrow> ('s \<times> socket_addr) result list \<Rightarrow> 'w \<Rightarrow> 'w" where
  "spawn_listener_task handler [] w = w"
| "spawn_listener_task handler (Inr conn # accepts) w =
     spawn_listener_task handler accepts (snd (handler conn w))"
| "spawn_listener_task handler (Inl _ # accepts) w = spawn_listener_task handler accepts w"

lemmas response_defs [proxy_simps] =
  create_forbidden_response_def create_error_response_def HTTPJAIL_HEADER_def
  HTTPJAIL_HEADER_VALUE_def HTTPJAIL_LOOP_DETECTION_HEADER_def BLOCKED_MESSAGE_def

section \<open>Header rewriting\<close>

context header_map
begin

lemma get_header_insert:
  "get_header H (insert_header H h n v) m =
     (if header_name n = header_name m then Some v else get_header H h m)"
  by (simp add: get_header_def get_all_insert)

text \<open>What \<open>prepare_upstream_request\<close> leaves under each header name.\<close>

lemma prepared_host:
  assumes "uri_authority t = Some a" and "list_all visible a"
  shows "\<exists>v. get_all H (req_headers (prepare_upstream_request H req t nonce)) ''host'' = [v] \<and>
             value_to_str H v = Some a"
  using visible_str [OF assms(2)] assms(1)
  by (auto simp: prepare_upstream_request_def Let_def get_all_insert)

lemma prepared_loop_header:
  assumes "list_all visible nonce"
  shows "\<exists>v. get_all H (req_headers (prepare_upstream_request H req t nonce))
               HTTPJAIL_LOOP_DETECTION_HEADER =
             get_all H (req_headers req) HTTPJAIL_LOOP_DETECTION_HEADER @ [v] \<and>
             value_to_str H v = Some nonce"
  using visible_str [OF assms]
  by (auto simp: prepare_upstream_request_def Let_def header_laws HTTPJAIL_LOOP_DETECTION_HEADER_def
      split: option.splits)

lemma prepared_removed:
  assumes "n \<in> {''proxy-connection'', ''proxy-authorization'', ''proxy-authenticate''}"
  shows "get_all H (req_headers (prepare_upstream_request H req t nonce)) n = []"
  using assms
  by (auto simp: prepare_upstream_request_def Let_def header_laws HTTPJAIL_LOOP_DETECTION_HEADER_def
      split: option.splits)

lemma prepared_other:
  assumes "header_name n \<notin> {''host'', ''proxy-connection'', ''proxy-authorization'',
    ''proxy-authenticate'', ''httpjail-loop-prevention''}"
  shows "get_all H (req_headers (prepare_upstream_request H req t nonce)) n = get_all H (req_headers req) n"
  using assms
  by (auto simp: prepare_upstream_request_def Let_def header_laws HTTPJAIL_LOOP_DETECTION_HEADER_def
      split: option.splits)

lemma prepared_is_loop:
  assumes "list_all visible nonce"
  shows "is_loop H nonce (req_headers (prepare_upstream_request H req t nonce))"
  using prepared_loop_header [OF assms, of req t] by (auto simp: is_loop_def list_ex_iff)

text \<open>Every response made by the proxy carries the marker header once.\<close>

lemma error_response_marked:
  "get_all H (resp_headers (create_error_response H status message)) HTTPJAIL_HEADER =
     [HTTPJAIL_HEADER_VALUE]"
  by (simp add: create_error_response_def Let_def header_laws HTTPJAIL_HEADER_def)

lemma error_response_length:
  "get_all H (resp_headers (create_error_response H status message)) ''content-length'' =
     [dec (length message)]"
  by (simp add: create_error_response_def Let_def header_laws HTTPJAIL_HEADER_def)

end

lemma prepared_parts [simp]:
  "req_method (prepare_upstream_request H req t nonce) = req_method req"
  "req_uri (prepare_upstream_request H req t nonce) = t"
  "req_body (prepare_upstream_request H req t nonce) = Boxed (req_body req)"
  by (simp_all add: prepare_upstream_request_def Let_def)

section \<open>Byte limits: lemmas\<close>

lemma within_limit_parts:
  assumes "apply_request_byte_limit H req m = WithinLimit req'"
  shows "req_method req' = req_method req" "req_uri req' = req_uri req"
    "req_headers req' = req_headers req"
    "req_body req' = limit_body (req_body req) (saturating_sub m (total_header_size H req))"
  using assms by (auto simp: apply_request_byte_limit_def Let_def split: option.splits if_splits)

section \<open>What happens during a request\<close>

text \<open>
  The definitions leave the world open, so a run can be observed by running them over a world
  paired with a trace: \<open>watch C\<close> records each evaluation, with its result, and each request that
  is handed to the upstream client.
\<close>

datatype ('h, 'b) event =
    Evaluated string string string evaluation_result
  | SentUp "('h, 'b out_body) request"

definition watch ::
  "('h, 'b, 'r, 'w) proxy_ctx \<Rightarrow> ('h, 'b, 'r, 'w \<times> ('h, 'b) event list) proxy_ctx" where
  "watch C =
     \<lparr>hdr = hdr C, uri_to_string = uri_to_string C, uri_parse = uri_parse C,
      ctx_engine = \<lparr>evaluate = (\<lambda>m u ip st. case evaluate (ctx_engine C) m u ip (fst st) of
                      (r, w) \<Rightarrow> (r, (w, snd st @ [Evaluated m u ip r]))),
                    engine_name = engine_name (ctx_engine C)\<rparr>,
      client_request = (\<lambda>q st. case client_request C q (fst st) of
                          (r, w) \<Rightarrow> (r, (w, snd st @ [SentUp q]))),
      loop_nonce = loop_nonce C\<rparr>"

lemma watch_sel [simp]:
  "hdr (watch C) = hdr C" "uri_to_string (watch C) = uri_to_string C"
  "uri_parse (watch C) = uri_parse C" "loop_nonce (watch C) = loop_nonce C"
  "http_full_url (watch C) req = http_full_url C req"
  by (simp_all add: watch_def http_full_url_def Let_def)

lemma watch_client:
  "client_request (watch C) q st =
     (fst (client_request C q (fst st)), (snd (client_request C q (fst st)), snd st @ [SentUp q]))"
  by (simp add: watch_def split: prod.splits)

lemma watch_evaluate:
  "evaluate_with_context_and_ip (ctx_engine (watch C)) m u ip st =
     (fst (evaluate (ctx_engine C) m u ip (fst st)),
      (snd (evaluate (ctx_engine C) m u ip (fst st)),
       snd st @ [Evaluated m u ip (fst (evaluate (ctx_engine C) m u ip (fst st)))]))"
  by (simp add: watch_def evaluate_with_context_and_ip_def split: prod.splits)

text \<open>The request that \<open>forward\<close> hands to the client, if it hands one.\<close>

definition upstream_request ::
  "'h header_ops \<Rightarrow> string \<Rightarrow> ('h, 'b) request \<Rightarrow> uri \<Rightarrow> u64 option \<Rightarrow> ('h, 'b) byte_limit_result" where
  "upstream_request H nonce req t max_tx =
     (let q = prepare_upstream_request H req t nonce
      in case max_tx of Some m \<Rightarrow> apply_request_byte_limit H q m | None \<Rightarrow> WithinLimit q)"

lemma upstream_request_parts:
  assumes "upstream_request H nonce req t max_tx = WithinLimit q"
  shows "req_method q = req_method req" "req_uri q = t"
    "req_headers q = req_headers (prepare_upstream_request H req t nonce)"
  using assms
  by (auto simp: upstream_request_def Let_def within_limit_parts split: option.splits)

lemma forward_world:
  "snd (forward C req t max_tx w) =
     (case upstream_request (hdr C) (loop_nonce C) req t max_tx of
        WithinLimit q \<Rightarrow> snd (client_request C q w) | ExceedsLimit _ _ \<Rightarrow> w)"
  by (simp add: forward_def upstream_request_def Let_def
      split: option.splits byte_limit_result.splits sum.splits prod.splits)

lemma forward_trace:
  "snd (snd (forward (watch C) req t max_tx (w, tr))) =
     (case upstream_request (hdr C) (loop_nonce C) req t max_tx of
        WithinLimit q \<Rightarrow> tr @ [SentUp q] | ExceedsLimit _ _ \<Rightarrow> tr)"
  by (simp add: forward_world watch_client split: byte_limit_result.splits)

text \<open>\<open>allowed_trace C req url r\<close>: what follows the verdict \<open>r\<close> on the URL in the trace.\<close>

definition allowed_trace ::
  "('h, 'b, 'r, 'w) proxy_ctx \<Rightarrow> ('h, 'b) request \<Rightarrow> string \<Rightarrow> evaluation_result \<Rightarrow>
     ('h, 'b) event list" where
  "allowed_trace C req url r =
     (if action r = Deny then []
      else case uri_parse C url of
             Inl _ \<Rightarrow> []
           | Inr t \<Rightarrow>
               (case upstream_request (hdr C) (loop_nonce C) req t (max_tx_bytes r) of
                  WithinLimit q \<Rightarrow> [SentUp q] | ExceedsLimit _ _ \<Rightarrow> []))"

lemma proxy_request_trace:
  "action r = Allow \<Longrightarrow>
   snd (snd (proxy_request (watch C) req url (max_tx_bytes r) (w, tr))) = tr @ allowed_trace C req url r"
  by (simp add: proxy_request_def allowed_trace_def forward_trace
      split: sum.splits byte_limit_result.splits)

lemma handle_http_request_trace:
  "snd (snd (handle_http_request (watch C) req ip (w, tr))) =
     (if is_loop (hdr C) (loop_nonce C) (req_headers req) then tr
      else let url = http_full_url C req;
               r = fst (evaluate (ctx_engine C) (req_method req) url ip w)
           in tr @ [Evaluated (req_method req) url ip r] @ allowed_trace C req url r)"
proof (cases "is_loop (hdr C) (loop_nonce C) (req_headers req)")
  case False
  define url where "url = http_full_url C req"
  obtain r w1 where e: "evaluate (ctx_engine C) (req_method req) url ip w = (r, w1)" by fastforce
  show ?thesis
  proof (cases "action r")
    case Allow
    let ?tr = "tr @ [Evaluated (req_method req) url ip r]"
    obtain p w2 b where p: "proxy_request (watch C) req url (max_tx_bytes r) (w1, ?tr) = (p, w2, b)"
      by (metis prod.exhaust)
    with proxy_request_trace [OF Allow, of C req url w1 ?tr] have "b = ?tr @ allowed_trace C req url r"
      by simp
    with False e Allow p show ?thesis
      by (cases p) (simp_all add: handle_http_request_def watch_evaluate Let_def flip: url_def)
  next
    case Deny
    with False e show ?thesis
      by (simp add: handle_http_request_def watch_evaluate Let_def allowed_trace_def flip: url_def)
  qed
qed (simp add: handle_http_request_def)

text \<open>
  A trace is guarded if each request that goes upstream comes directly after an evaluation that
  allowed it, for the same method and for the URL that the request's URI is the parse of.
\<close>

fun guarded :: "(string \<Rightarrow> uri result) \<Rightarrow> ('h, 'b) event list \<Rightarrow> bool" where
  "guarded P [] = True"
| "guarded P (Evaluated m u ip r # SentUp q # es) =
     (action r = Allow \<and> req_method q = m \<and> P u = Ok (req_uri q) \<and> guarded P es)"
| "guarded P (Evaluated m u ip r # es) = guarded P es"
| "guarded P (SentUp q # es) = False"

definition evaluations :: "('h, 'b) event list \<Rightarrow> nat" where
  "evaluations es = length (filter (\<lambda>e. \<exists>m u ip r. e = Evaluated m u ip r) es)"

definition sends :: "('h, 'b) event list \<Rightarrow> nat" where
  "sends es = length (filter (\<lambda>e. \<exists>q. e = SentUp q) es)"

lemma guarded_Evaluated: "guarded P ys \<Longrightarrow> guarded P (Evaluated m u ip r # ys)"
  by (cases "(P, ys)" rule: guarded.cases) simp_all

lemma guarded_append: "guarded P xs \<Longrightarrow> guarded P ys \<Longrightarrow> guarded P (xs @ ys)"
  by (induction P xs rule: guarded.induct) (simp_all add: guarded_Evaluated)

lemma evaluations_simps [simp]:
  "evaluations [] = 0" "evaluations (Evaluated m u ip r # es) = Suc (evaluations es)"
  "evaluations (SentUp q # es) = evaluations es" "evaluations (es @ fs) = evaluations es + evaluations fs"
  by (simp_all add: evaluations_def)

lemma sends_simps [simp]:
  "sends [] = 0" "sends (Evaluated m u ip r # es) = sends es"
  "sends (SentUp q # es) = Suc (sends es)" "sends (es @ fs) = sends es + sends fs"
  by (simp_all add: sends_def)

lemma allowed_trace_cases:
  "allowed_trace C req url r = [] \<or>
   (\<exists>q t. allowed_trace C req url r = [SentUp q] \<and> action r = Allow \<and> uri_parse C url = Ok t \<and>
      upstream_request (hdr C) (loop_nonce C) req t (max_tx_bytes r) = WithinLimit q)"
  by (cases "action r") (auto simp: allowed_trace_def split: sum.splits byte_limit_result.splits)

lemma allowed_trace_guarded: "guarded (uri_parse C) (Evaluated (req_method req) url ip r # allowed_trace C req url r)"
  using allowed_trace_cases [of C req url r] by (auto simp: upstream_request_parts)

text \<open>
  Observing a run does not change it: with the trace removed, the watched handler gives the
  response and the world of the handler itself.
\<close>

lemma forward_watch:
  "fst (forward (watch C) req t m st) = fst (forward C req t m (fst st))"
  "fst (snd (forward (watch C) req t m st)) = snd (forward C req t m (fst st))"
  by (auto simp: forward_def watch_client Let_def
      split: option.splits byte_limit_result.splits sum.splits prod.splits)

lemma proxy_request_watch:
  "fst (proxy_request (watch C) req url m st) = fst (proxy_request C req url m (fst st))"
  "fst (snd (proxy_request (watch C) req url m st)) = snd (proxy_request C req url m (fst st))"
  by (simp_all add: proxy_request_def forward_watch split: sum.splits)

lemma handle_http_request_split:
  "handle_http_request C req ip w =
     (if is_loop (hdr C) (loop_nonce C) (req_headers req) then
        (create_forbidden_response (hdr C) (Some loop_text), w)
      else let url = http_full_url C req;
               e = evaluate (ctx_engine C) (req_method req) url ip w;
               p = proxy_request C req url (max_tx_bytes (fst e)) (snd e)
           in if action (fst e) = Allow then
                (case fst p of Inr resp \<Rightarrow> resp
                             | Inl _ \<Rightarrow> create_error_response (hdr C) 502 ''Proxy error'', snd p)
              else (create_forbidden_response (hdr C) (eval_context (fst e)), snd e))"
  by (auto simp: handle_http_request_def evaluate_with_context_and_ip_def Let_def
      split: prod.splits sum.splits action.splits)

lemma evaluate_watch:
  "fst (evaluate (ctx_engine (watch C)) m u ip st) = fst (evaluate (ctx_engine C) m u ip (fst st))"
  "fst (snd (evaluate (ctx_engine (watch C)) m u ip st)) = snd (evaluate (ctx_engine C) m u ip (fst st))"
  using watch_evaluate [of C m u ip st] by (simp_all add: evaluate_with_context_and_ip_def)

lemma watch_faithful:
  "fst (handle_http_request (watch C) req ip st) = fst (handle_http_request C req ip (fst st))"
  "fst (snd (handle_http_request (watch C) req ip st)) = snd (handle_http_request C req ip (fst st))"
  by (simp_all add: handle_http_request_split Let_def proxy_request_watch evaluate_watch
      split: sum.splits)

section \<open>Request handlers\<close>

text \<open>
  The contract of a request handler that the proxy runs over a watched world: it extends the trace
  by a guarded piece with at most one evaluation and at most one request upstream. A connection
  served by such a handler is guarded as a whole.
\<close>

locale gated_handler =
  fixes P :: "string \<Rightarrow> uri result"
    and handle :: "'q \<Rightarrow> 'w \<times> ('h, 'b) event list \<Rightarrow> 'p \<times> 'w \<times> ('h, 'b) event list"
  assumes gated:
    "\<exists>es. snd (snd (handle req (w, tr))) = tr @ es \<and> guarded P es \<and>
          evaluations es \<le> 1 \<and> sends es \<le> evaluations es"
begin

lemma connection_gated:
  "\<exists>es. snd (snd (serve_connection handle reqs (w, tr))) = tr @ es \<and> guarded P es \<and>
        sends es \<le> evaluations es \<and> evaluations es \<le> length reqs"
proof (induction reqs arbitrary: w tr)
  case Nil
  show ?case by (intro exI [of _ "[]"]) simp
next
  case (Cons req reqs)
  obtain p w1 tr1 where h: "handle req (w, tr) = (p, w1, tr1)" by (metis prod.exhaust)
  with gated [of req w tr] obtain es where es: "tr1 = tr @ es" "guarded P es"
    "evaluations es \<le> 1" "sends es \<le> evaluations es" by auto
  from Cons.IH [of w1 tr1] obtain fs where fs:
    "snd (snd (serve_connection handle reqs (w1, tr1))) = tr1 @ fs" "guarded P fs"
    "sends fs \<le> evaluations fs" "evaluations fs \<le> length reqs" by auto
  have "snd (snd (serve_connection handle (req # reqs) (w, tr))) = tr @ (es @ fs)"
    using h es(1) fs(1) by (auto split: prod.splits)
  moreover have "guarded P (es @ fs)" using es(2) fs(2) by (rule guarded_append)
  ultimately show ?case using es(3,4) fs(3,4) by (intro exI [of _ "es @ fs"]) simp
qed

end

interpretation http: gated_handler "uri_parse C" "\<lambda>req. handle_http_request (watch C) req ip" for C ip
proof unfold_locales
  fix req w and tr :: "('a, 'b) event list"
  show "\<exists>es. snd (snd (handle_http_request (watch C) req ip (w, tr))) = tr @ es \<and>
    guarded (uri_parse C) es \<and> evaluations es \<le> 1 \<and> sends es \<le> evaluations es"
  proof (cases "is_loop (hdr C) (loop_nonce C) (req_headers req)")
    case True
    then show ?thesis by (intro exI [of _ "[]"]) (simp add: handle_http_request_trace)
  next
    case False
    let ?url = "http_full_url C req"
    let ?r = "fst (evaluate (ctx_engine C) (req_method req) ?url ip w)"
    have "evaluations (allowed_trace C req ?url ?r) = 0 \<and> sends (allowed_trace C req ?url ?r) \<le> 1"
      using allowed_trace_cases [of C req ?url ?r] by auto
    with False allowed_trace_guarded [of C req ?url ip ?r] show ?thesis
      by (intro exI [of _ "Evaluated (req_method req) ?url ip ?r # allowed_trace C req ?url ?r"])
        (simp add: handle_http_request_trace Let_def)
  qed
qed

section \<open>Sizes on the wire\<close>

text \<open>The head of a request as HTTP/1.1 writes it.\<close>

definition wire_head :: "'h header_ops \<Rightarrow> ('h, 'b) request \<Rightarrow> string" where
  "wire_head H req =
     req_method req @ '' '' @ path_or_slash (req_uri req) @ '' HTTP/1.1'' @ crlf @
     concat (map (\<lambda>(n, v). n @ '': '' @ v @ crlf) (iter_headers H (req_headers req))) @ crlf"

lemma headers_size_wire:
  "headers_size hs = of_nat (length (concat (map (\<lambda>(n, v). n @ '': '' @ v @ crlf) hs)))"
  by (induction hs) (auto simp: headers_size_def)

lemma total_header_size_wire: "total_header_size H req = of_nat (length (wire_head H req))"
  by (simp add: total_header_size_def wire_head_def request_line_size_def headers_size_wire)

lemma unat_total_header_size:
  "length (wire_head H req) < 2 ^ 64 \<Longrightarrow> unat (total_header_size H req) = length (wire_head H req)"
  by (simp add: total_header_size_wire unat_of_nat_small)

lemma wire_head_cong:
  "req_method q = req_method r \<Longrightarrow> req_uri q = req_uri r \<Longrightarrow> req_headers q = req_headers r \<Longrightarrow>
     wire_head H q = wire_head H r"
  by (simp add: wire_head_def)

section \<open>Properties\<close>

text \<open>
  (C1) Complete mediation: whatever requests arrive on an HTTP connection, every request that
  reaches the upstream client comes directly after an evaluation by the rule engine that allowed
  it, for the method it is sent with and for the URL that its target URI is the parse of. There is
  at most one evaluation per request, and never more upstream requests than evaluations.
\<close>

theorem http_mediation:
  "let es = snd (snd (handle_http_connection (watch C) reqs ip (w, [])))
   in guarded (uri_parse C) es \<and> sends es \<le> evaluations es \<and> evaluations es \<le> length reqs"
  using http.connection_gated [of C ip reqs w "[]"]
  by (auto simp: handle_http_connection_def Let_def)

text \<open>
  A denied request stays inside: if the rule engine denies the method and URL, the client gets
  a 403 whose body is the block message, with the engine's context on a second line if there is
  one, whose Content-Length is the length of that body, and nothing is sent upstream.
\<close>

theorem http_denied:
  assumes "header_map (hdr C)"
    and "\<not> is_loop (hdr C) (loop_nonce C) (req_headers req)"
    and "evaluate (ctx_engine C) (req_method req) (http_full_url C req) ip w = (r, w')"
    and "action r = Deny"
  shows "\<exists>resp text. handle_http_request C req ip w = (resp, w') \<and> resp_status resp = 403 \<and>
     resp_body resp = Text text \<and> text = blocked_text (eval_context r) \<and>
     get_all (hdr C) (resp_headers resp) ''content-length'' = [dec (length text)] \<and>
     sends (snd (snd (handle_http_request (watch C) req ip (w, [])))) = 0"
proof -
  have h: "handle_http_request C req ip w =
      (create_error_response (hdr C) 403 (blocked_text (eval_context r)), w')"
    using assms by (simp add: handle_http_request_split create_forbidden_response_def Let_def)
  have t: "sends (snd (snd (handle_http_request (watch C) req ip (w, [])))) = 0"
    using assms by (simp add: handle_http_request_trace allowed_trace_def Let_def)
  show ?thesis
    using h t header_map.error_response_length [OF assms(1)]
    by (auto simp: create_error_response_def Let_def)
qed

text \<open>
  A proxy over the list header map, with one rule, for concrete runs: hosts are allowed by a list,
  an allowed request has the given limit, the upstream server answers 200.
\<close>

definition sample_uri :: "string \<Rightarrow> uri" where
  "sample_uri u = \<lparr>uri_scheme = Some ''http'', uri_authority = Some (drop 7 u), uri_path_and_query = Some ''/''\<rparr>"

definition sample_proxy ::
  "string list \<Rightarrow> u64 option \<Rightarrow> string \<Rightarrow> (header_list, 'b, unit, nat) proxy_ctx" where
  "sample_proxy allowed limit nonce =
     \<lparr>hdr = list_headers, uri_to_string = (\<lambda>u. ''http://'' @ the (uri_authority u)),
      uri_parse = (\<lambda>u. Ok (sample_uri u)),
      ctx_engine = \<lparr>evaluate = (\<lambda>m u ip n.
          (if u \<in> set allowed then \<lparr>action = Allow, eval_context = None, max_tx_bytes = limit\<rparr>
           else \<lparr>action = Deny, eval_context = Some ''no'', max_tx_bytes = None\<rparr>, n + 1)),
        engine_name = ''sample''\<rparr>,
      client_request = (\<lambda>q n. (Ok \<lparr>resp_status = 200, resp_headers = [], resp_body = ()\<rparr>, n + 1)),
      loop_nonce = nonce\<rparr>"

definition sample_request :: "string \<Rightarrow> header_list \<Rightarrow> 'b \<Rightarrow> (header_list, 'b) request" where
  "sample_request host hs b =
     \<lparr>req_method = ''GET'', req_uri = sample_uri (''http://'' @ host), req_headers = hs, req_body = b\<rparr>"

lemmas sample_defs = sample_proxy_def sample_request_def sample_uri_def http_full_url_def is_loop_def
  HTTPJAIL_LOOP_DETECTION_HEADER_def list_headers_def

theorem http_denied_witness:
  "\<exists>resp. handle_http_request (sample_proxy [''http://a''] None ''7'') (sample_request ''b'' [] ()) ''::1'' 4 =
       (resp, 5) \<and> resp_status resp = 403 \<and>
     resp_body resp = Text (''Request blocked by httpjail'' @ newline @ ''no'')"
proof -
  let ?C = "sample_proxy [''http://a''] None ''7'' :: (header_list, unit, unit, nat) proxy_ctx"
  let ?r = "\<lparr>action = Deny, eval_context = Some ''no'', max_tx_bytes = None\<rparr> :: evaluation_result"
  have "header_map (hdr ?C)" by (simp add: sample_proxy_def hlist.header_map_axioms)
  moreover have "\<not> is_loop (hdr ?C) (loop_nonce ?C) (req_headers (sample_request ''b'' [] ()))"
    by (simp add: sample_defs)
  moreover have "evaluate (ctx_engine ?C) (req_method (sample_request ''b'' [] ()))
      (http_full_url ?C (sample_request ''b'' [] ())) ''::1'' 4 = (?r, 5)"
    by (simp add: sample_defs Let_def)
  ultimately show ?thesis
    using http_denied [of ?C "sample_request ''b'' [] ()" "''::1''" 4 ?r 5]
    by (auto simp: blocked_text_def BLOCKED_MESSAGE_def)
qed

text \<open>The nonce is made of hexadecimal digits, so it is a valid header value.\<close>

lemma hex_digit_visible:
  assumes "d < 16" shows "visible (''0123456789abcdef'' ! d)"
proof -
  have "list_all visible ''0123456789abcdef''" by (simp add: visible_def)
  with assms show ?thesis by (simp add: list_all_length)
qed

lemma hex_visible: "list_all visible (hex n)"
proof (induction n rule: hex.induct)
  case (1 n)
  show ?case
  proof (cases "n < 16")
    case True
    then show ?thesis using hex_digit_visible [of n] by (subst hex.simps) simp
  next
    case False
    with 1 show ?thesis using hex_digit_visible [of "n mod 16"]
      by (subst hex.simps) (simp add: list_all_append)
  qed
qed

lemma sent_is_allowed:
  assumes "SentUp q \<in> set (snd (snd (handle_http_request (watch C) req ip (w, []))))"
  obtains t r where "r = fst (evaluate (ctx_engine C) (req_method req) (http_full_url C req) ip w)"
    and "action r = Allow" and "uri_parse C (http_full_url C req) = Ok t"
    and "upstream_request (hdr C) (loop_nonce C) req t (max_tx_bytes r) = WithinLimit q"
proof -
  let ?r = "fst (evaluate (ctx_engine C) (req_method req) (http_full_url C req) ip w)"
  have "SentUp q \<in> set (allowed_trace C req (http_full_url C req) ?r)"
    using assms by (auto simp: handle_http_request_trace Let_def split: if_splits)
  then show thesis
    using allowed_trace_cases [of C req "http_full_url C req" ?r] that by auto
qed



text \<open>
  (C25) The headers of a request sent upstream: the Host header has exactly one value, the authority
  of the URL that the rule engine allowed, whatever the client put there; the three proxy headers
  are gone; the loop header keeps its values and has this instance's nonce added at the end; all
  other headers are as the client sent them.
\<close>

theorem upstream_headers:
  assumes "header_map (hdr C)" and "list_all visible (loop_nonce C)"
    and "SentUp q \<in> set (snd (snd (handle_http_request (watch C) req ip (w, []))))"
    and "uri_authority (req_uri q) = Some a" and "list_all visible a"
  shows "uri_parse C (http_full_url C req) = Ok (req_uri q) \<and>
    (\<exists>v. get_all (hdr C) (req_headers q) ''host'' = [v] \<and> value_to_str (hdr C) v = Some a) \<and>
    (\<forall>n \<in> {''proxy-connection'', ''proxy-authorization'', ''proxy-authenticate''}.
       get_all (hdr C) (req_headers q) n = []) \<and>
    (\<exists>v. get_all (hdr C) (req_headers q) HTTPJAIL_LOOP_DETECTION_HEADER =
           get_all (hdr C) (req_headers req) HTTPJAIL_LOOP_DETECTION_HEADER @ [v] \<and>
         value_to_str (hdr C) v = Some (loop_nonce C)) \<and>
    (\<forall>n. header_name n \<notin> {''host'', ''proxy-connection'', ''proxy-authorization'',
           ''proxy-authenticate'', ''httpjail-loop-prevention''} \<longrightarrow>
       get_all (hdr C) (req_headers q) n = get_all (hdr C) (req_headers req) n)"
proof -
  obtain t and r :: evaluation_result where t: "uri_parse C (http_full_url C req) = Ok t"
    and u: "upstream_request (hdr C) (loop_nonce C) req t (max_tx_bytes r) = WithinLimit q"
    using assms(3) by (rule sent_is_allowed)
  note q = upstream_request_parts [OF u]
  with t show ?thesis
    using header_map.prepared_host [OF assms(1) _ assms(5), of t req "loop_nonce C"]
      header_map.prepared_removed [OF assms(1), of _ req t "loop_nonce C"]
      header_map.prepared_loop_header [OF assms(1,2), of req t]
      header_map.prepared_other [OF assms(1), of _ req t "loop_nonce C"] assms(4)
    by simp
qed

theorem upstream_headers_witness:
  "\<exists>q. SentUp q \<in> set (snd (snd (handle_http_request (watch (sample_proxy [''http://a''] None ''7''))
         (sample_request ''a'' [(''host'', ''evil''), (''proxy-connection'', ''x''), (''x'', ''y'')] ())
         ''::1'' (0, [])))) \<and>
       get_all list_headers (req_headers q) ''host'' = [''a''] \<and>
       get_all list_headers (req_headers q) ''proxy-connection'' = []"
proof -
  let ?C = "sample_proxy [''http://a''] None ''7'' :: (header_list, unit, unit, nat) proxy_ctx"
  let ?req = "sample_request ''a'' [(''host'', ''evil''), (''proxy-connection'', ''x''), (''x'', ''y'')] ()"
  let ?q = "prepare_upstream_request list_headers ?req (sample_uri ''http://a'') ''7''"
  have h: "header_map (hdr ?C)" by (simp add: sample_proxy_def hlist.header_map_axioms)
  have n: "list_all visible (loop_nonce ?C)" by (simp add: sample_proxy_def visible_def)
  have s: "SentUp ?q \<in> set (snd (snd (handle_http_request (watch ?C) ?req ''::1'' (0, []))))"
    by (simp add: handle_http_request_trace allowed_trace_def upstream_request_def sample_defs Let_def)
  have a: "uri_authority (req_uri ?q) = Some ''a''" "list_all visible ''a''"
    by (simp_all add: sample_uri_def visible_def)
  have "value_to_str list_headers v = Some ''a'' \<Longrightarrow> v = ''a''" for v
    by (simp add: list_headers_def split: if_splits)
  moreover have "hdr ?C = list_headers" by (simp add: sample_proxy_def)
  ultimately show ?thesis
    using upstream_headers [OF h n s a] s by auto
qed

text \<open>
  Every response that the HTTP handler gives, an upstream response, a refusal or an error,
  carries the header HTTPJAIL with the single value true.
\<close>

theorem responses_marked:
  assumes "header_map (hdr C)"
  shows "get_all (hdr C) (resp_headers (fst (handle_http_request C req ip w))) HTTPJAIL_HEADER =
    [HTTPJAIL_HEADER_VALUE]"
proof -
  note marked = header_map.error_response_marked [OF assms]
  have "get_all (hdr C) (resp_headers resp) HTTPJAIL_HEADER = [HTTPJAIL_HEADER_VALUE]"
    if "fst (proxy_request C r u m w) = Ok resp" for r u m w resp
    using that marked header_map.get_all_insert [OF assms]
    by (auto simp: proxy_request_def forward_def Let_def
        split: sum.splits byte_limit_result.splits prod.splits)
  with marked show ?thesis
    by (auto simp: handle_http_request_split create_forbidden_response_def Let_def split: sum.splits)
qed

theorem responses_marked_witness:
  "get_all list_headers (resp_headers (fst (handle_http_request
     (sample_proxy [''http://a''] None ''7'' :: (header_list, unit, unit, nat) proxy_ctx)
     (sample_request ''a'' [] ()) ''::1'' 0))) ''httpjail'' = [''true'']"
proof -
  let ?C = "sample_proxy [''http://a''] None ''7'' :: (header_list, unit, unit, nat) proxy_ctx"
  have hdr: "hdr ?C = list_headers" by (simp add: sample_proxy_def)
  have "get_all list_headers h HTTPJAIL_HEADER = get_all list_headers h ''httpjail''" for h
    by (simp add: list_headers_def HTTPJAIL_HEADER_def header_name_def to_lower_def)
  with hdr responses_marked [of ?C "sample_request ''a'' [] ()" "''::1''" 0] hlist.header_map_axioms
  show ?thesis by (simp add: HTTPJAIL_HEADER_VALUE_def)
qed

lemma upstream_limited_body:
  assumes "upstream_request H nonce req t (Some m) = WithinLimit q"
  shows "req_body q = LimitedBox (limited_body_new (req_body req) (saturating_sub m (total_header_size H q)))"
proof -
  let ?p = "prepare_upstream_request H req t nonce"
  have lim: "apply_request_byte_limit H ?p m = WithinLimit q"
    using assms by (simp add: upstream_request_def Let_def)
  note parts = within_limit_parts [OF this]
  have "total_header_size H q = total_header_size H ?p"
    using parts by (simp add: total_header_size_def)
  with parts show ?thesis by (simp add: limit_body_def)
qed

text \<open>
  (C6) The byte limit covers the whole request: if the head of the request as HTTP/1.1 writes it
  fits into \<open>max_tx_bytes\<close>, then head and body together never exceed \<open>max_tx_bytes\<close>, however the
  client sends its body and however often it is polled, and the body sent is the longest prefix
  of the client's body that leaves room for the head. The limit is any 64-bit number; the frames of
  the body are shorter than \<open>2 ^ 63\<close> bytes, and for a limit above \<open>2 ^ 63\<close> the body has fewer than
  \<open>2 ^ 64\<close> bytes in all.
\<close>

theorem byte_limit_total:
  assumes "upstream_request H nonce req t (Some m) = WithinLimit q"
    and "length (wire_head H q) \<le> unat m"
    and "unat m \<le> 2 ^ 63 \<or> (\<forall>n. length (run_data p n (req_body req)) < 2 ^ 64)"
    and "\<forall>b. length (poll_data (fst (p b))) < 2 ^ 63"
  shows "\<exists>lb. req_body q = LimitedBox lb \<and>
     run_data (poll_frame p) n lb =
       take (unat m - length (wire_head H q)) (run_data p n (req_body req)) \<and>
     length (wire_head H q) + length (run_data (poll_frame p) n lb) \<le> unat m"
proof -
  let ?k = "saturating_sub m (total_header_size H q)"
  have "unat m < 2 ^ 64" using unat_less_2p [of m] by simp
  with assms(2) have "length (wire_head H q) < 2 ^ 64" by simp
  then have k: "unat ?k = unat m - length (wire_head H q)"
    by (simp add: unat_saturating_sub unat_total_header_size)
  with assms(3) have "unat ?k \<le> 2 ^ 63 \<or> (\<forall>n. length (run_data p n (req_body req)) < 2 ^ 64)" by auto
  from run_limited_new [OF assms(4) this, of n] k upstream_limited_body [OF assms(1)] assms(2)
  show ?thesis by (auto simp: min_def)
qed

lemma sample_head_length:
  "length (wire_head list_headers
     (prepare_upstream_request list_headers (sample_request ''a'' [] b) (sample_uri ''http://a'') ''7'')) = 56"
  by (simp add: wire_head_def prepare_upstream_request_def sample_defs path_or_slash_def Let_def
      header_byte_def)

theorem byte_limit_total_witness:
  "\<exists>q lb. upstream_request list_headers ''7'' (sample_request ''a'' [] ()) (sample_uri ''http://a'')
            (Some 90) = WithinLimit q \<and> req_body q = LimitedBox lb \<and>
     length (run_data (poll_frame (\<lambda>b :: unit. (Ready (Some (Inr (Data ''0123456789''))) :: unit poll, b)))
       9 lb) \<le> 90"
proof -
  let ?req = "sample_request ''a'' [] ()" and ?t = "sample_uri ''http://a''"
  let ?p = "\<lambda>b :: unit. (Ready (Some (Inr (Data ''0123456789''))) :: unit poll, b)"
  obtain q where q: "upstream_request list_headers ''7'' ?req ?t (Some 90) = WithinLimit q"
    by (simp add: upstream_request_def apply_request_byte_limit_def content_length_def get_header_def
        prepare_upstream_request_def sample_defs Let_def header_byte_def)
  have "wire_head list_headers q = wire_head list_headers (prepare_upstream_request list_headers ?req ?t ''7'')"
    using upstream_request_parts [OF q] by (intro wire_head_cong) simp_all
  with sample_head_length have "length (wire_head list_headers q) = 56" by simp
  with byte_limit_total [OF q, of ?p 9] q show ?thesis by auto
qed

lemma limit_decision:
  assumes "content_length H (req_headers req) = Some len"
  shows "apply_request_byte_limit H req m = ExceedsLimit len m \<longleftrightarrow>
           m < total_header_size H req + len"
    and "(\<exists>q. apply_request_byte_limit H req m = WithinLimit q) \<longleftrightarrow>
           total_header_size H req + len \<le> m"
  using assms by (auto simp: apply_request_byte_limit_def Let_def not_less)

lemma limit_rejects_iff:
  assumes "length (wire_head H req) < 2 ^ 64" and "content_length H (req_headers req) = Some len"
  shows "apply_request_byte_limit H req m = ExceedsLimit len m \<longleftrightarrow>
           unat m < (length (wire_head H req) + unat len) mod 2 ^ 64"
  using assms limit_decision(1) [OF assms(2), of m]
  by (simp add: word_less_nat_alt unat_word_ariths unat_total_header_size)

text \<open>
  Early rejection is exact as long as the sum does not leave 64 bits: a request that announces
  its body length is rejected if and only if head and announced body together are longer than the
  limit, and the rejection reports the announced length and the limit; a request that announces no
  length, or an unreadable one, is never rejected.
\<close>

theorem early_rejection_exact:
  assumes "\<forall>len. content_length H (req_headers req) = Some len \<longrightarrow>
             length (wire_head H req) + unat len < 2 ^ 64"
  shows "case content_length H (req_headers req) of
           None \<Rightarrow> \<exists>q. apply_request_byte_limit H req m = WithinLimit q
         | Some len \<Rightarrow>
             (if length (wire_head H req) + unat len > unat m
              then apply_request_byte_limit H req m = ExceedsLimit len m
              else \<exists>q. apply_request_byte_limit H req m = WithinLimit q)"
proof (cases "content_length H (req_headers req)")
  case None
  then show ?thesis by (simp add: apply_request_byte_limit_def Let_def)
next
  case (Some len)
  with assms have "length (wire_head H req) < 2 ^ 64"
    and "(length (wire_head H req) + unat len) mod 2 ^ 64 = length (wire_head H req) + unat len"
    by auto
  with Some limit_rejects_iff [of H req len m] limit_decision [OF Some, of m] show ?thesis
    by (auto simp: not_less)
qed

theorem early_rejection_exact_witness:
  "apply_request_byte_limit list_headers
     (sample_request ''a'' [(''content-length'', ''70'')] (Boxed ())) 100 = ExceedsLimit 70 100"
proof -
  let ?req = "sample_request ''a'' [(''content-length'', ''70'')] (Boxed ())"
  have c: "content_length list_headers (req_headers ?req) = Some 70"
    by (simp add: content_length_def get_header_def sample_defs visible_def parse_u64_def
        parse_unsigned_def digit_val_def)
  have w: "length (wire_head list_headers ?req) = 38"
    by (simp add: wire_head_def sample_defs path_or_slash_def)
  show ?thesis using early_rejection_exact [of list_headers ?req 100] c w by simp
qed

text \<open>
  The rejection test adds the head's size to the announced length in 64 bits. A Content-Length
  close to \<open>2 ^ 64\<close> makes the sum wrap around to a small number: the request is then not rejected,
  for every limit that the head alone respects, although it announces a body far above the limit.
\<close>

theorem huge_content_length_not_rejected:
  assumes "content_length H (req_headers req) = Some len"
    and "2 ^ 64 \<le> length (wire_head H req) + unat len"
    and "length (wire_head H req) \<le> unat m"
  shows "\<exists>q. apply_request_byte_limit H req m = WithinLimit q"
proof -
  have m: "unat m < 2 ^ 64" using unat_less_2p [of m] by simp
  have len: "unat len < 2 ^ 64" using unat_less_2p [of len] by simp
  have "(length (wire_head H req) + unat len) mod 2 ^ 64 = length (wire_head H req) + unat len - 2 ^ 64"
    using assms(2,3) m len by (simp add: mod_if)
  also have "\<dots> \<le> unat m" using len assms(3) by linarith
  finally show ?thesis
    using limit_rejects_iff [OF _ assms(1), of m] limit_decision [OF assms(1), of m] assms(3) m
    by (auto simp: not_less)
qed

theorem huge_content_length_not_rejected_witness:
  "\<exists>q. apply_request_byte_limit list_headers
     (sample_request ''a'' [(''content-length'', ''18446744073709551600'')] (Boxed ())) 100 = WithinLimit q"
proof -
  let ?req = "sample_request ''a'' [(''content-length'', ''18446744073709551600'')] (Boxed ())"
  have c: "content_length list_headers (req_headers ?req) = Some 18446744073709551600"
    by (simp add: content_length_def get_header_def sample_defs visible_def parse_u64_def
        parse_unsigned_def digit_val_def)
  have "length (wire_head list_headers ?req) = 56"
    by (simp add: wire_head_def sample_defs path_or_slash_def)
  with huge_content_length_not_rejected [OF c, of 100] show ?thesis by simp
qed

text \<open>
  The limit does not cover a head that is longer than the limit: a request without a
  Content-Length goes upstream with its whole head, with an empty body, for every limit.
\<close>

theorem oversized_head_is_sent:
  assumes "content_length H (req_headers (prepare_upstream_request H req t nonce)) = None"
    and "unat m < length (wire_head H (prepare_upstream_request H req t nonce))"
    and "length (wire_head H (prepare_upstream_request H req t nonce)) < 2 ^ 64"
  shows "\<exists>q. upstream_request H nonce req t (Some m) = WithinLimit q \<and>
     req_body q = LimitedBox (limited_body_new (req_body req) 0) \<and> unat m < length (wire_head H q)"
proof -
  let ?p = "prepare_upstream_request H req t nonce"
  obtain q where q: "upstream_request H nonce req t (Some m) = WithinLimit q"
    using assms(1) by (simp add: upstream_request_def apply_request_byte_limit_def Let_def)
  have w: "wire_head H q = wire_head H ?p"
    using upstream_request_parts [OF q] by (intro wire_head_cong) simp_all
  have "unat (saturating_sub m (total_header_size H q)) = 0"
    using assms(2,3) w by (simp add: unat_saturating_sub unat_total_header_size)
  then have "saturating_sub m (total_header_size H q) = 0" by (simp add: unat_eq_zero)
  with upstream_limited_body [OF q] q w assms(2) show ?thesis by auto
qed

theorem oversized_head_is_sent_witness:
  "\<exists>q. upstream_request list_headers ''7'' (sample_request ''a'' [] ()) (sample_uri ''http://a'') (Some 20)
         = WithinLimit q \<and> 20 < length (wire_head list_headers q)"
proof -
  let ?p = "prepare_upstream_request list_headers (sample_request ''a'' [] ()) (sample_uri ''http://a'') ''7''"
  have "content_length list_headers (req_headers ?p) = None"
    by (simp add: content_length_def get_header_def prepare_upstream_request_def sample_defs Let_def
        header_byte_def)
  from oversized_head_is_sent [OF this, of 20] sample_head_length [of "()"] show ?thesis by auto
qed

section \<open>Listeners: properties\<close>

text \<open>The socket calls of a run, recorded like the events of a request.\<close>

definition watch_net :: "'w net_ops \<Rightarrow> ('w \<times> sock_call list) net_ops" where
  "watch_net N =
     \<lparr>sock = (\<lambda>c st. case sock N c (fst st) of (r, w) \<Rightarrow> (r, (w, snd st @ [c]))),
      gen_range = (\<lambda>a b st. case gen_range N a b (fst st) of (p, w) \<Rightarrow> (p, (w, snd st))),
      local_port = (\<lambda>l st. case local_port N l (fst st) of (p, w) \<Rightarrow> (p, (w, snd st)))\<rparr>"

lemma watch_net_sock:
  "sock (watch_net N) c (w, cs) = (fst (sock N c w), (snd (sock N c w), cs @ [c]))"
  by (simp add: watch_net_def split: prod.splits)

lemma watch_net_range:
  "gen_range (watch_net N) a b (w, cs) = (fst (gen_range N a b w), (snd (gen_range N a b w), cs))"
  by (simp add: watch_net_def split: prod.splits)

definition local_candidate :: "u16 \<Rightarrow> u16 \<Rightarrow> sock_call \<Rightarrow> bool" where
  "local_candidate start en c =
     (\<exists>p. c = TcpBind \<lparr>addr_ip = LOCALHOST4, addr_port = p\<rparr> \<and> start \<le> p \<and> p \<le> en)"

lemma bind_local: "bind_listener N \<lparr>addr_ip = LOCALHOST4, addr_port = p\<rparr> =
    sock N (TcpBind \<lparr>addr_ip = LOCALHOST4, addr_port = p\<rparr>)"
  by (simp add: bind_listener_def is_specific_non_loopback_def LOCALHOST4_def fun_eq_iff)

lemma bind_attempts_calls:
  assumes range: "\<And>w. start \<le> fst (gen_range N start en w) \<and> fst (gen_range N start en w) \<le> en"
  shows "\<exists>cs. snd (snd (bind_attempts n (watch_net N) show_ip start en LOCALHOST4 (w, cs0))) = cs0 @ cs \<and>
     list_all (local_candidate start en) cs \<and> length cs \<le> n \<and>
     (case fst (bind_attempts n (watch_net N) show_ip start en LOCALHOST4 (w, cs0)) of
        Inl e \<Rightarrow> e = no_port_text start en (show_ip LOCALHOST4) \<and> length cs = n
      | Inr listener \<Rightarrow> \<exists>w'. cs \<noteq> [] \<and> fst (sock N (last cs) w') = Ok listener)"
proof (induction n arbitrary: w cs0)
  case 0
  then show ?case by simp
next
  case (Suc n)
  obtain p w1 where g: "gen_range N start en w = (p, w1)" by fastforce
  with range [of w] have p: "start \<le> p" "p \<le> en" by auto
  let ?c = "TcpBind \<lparr>addr_ip = LOCALHOST4, addr_port = p\<rparr>"
  have cand: "local_candidate start en ?c" using p by (simp add: local_candidate_def)
  obtain r w2 where s: "sock N ?c w1 = (r, w2)" by fastforce
  show ?case
  proof (cases r)
    case (Inr listener)
    with g s cand show ?thesis
      by (intro exI [of _ "[?c]"])
        (auto simp: watch_net_range watch_net_sock bind_local intro!: exI [of _ w1])
  next
    case (Inl e)
    from Suc.IH [of w2 "cs0 @ [?c]"] obtain cs where cs:
      "snd (snd (bind_attempts n (watch_net N) show_ip start en LOCALHOST4 (w2, cs0 @ [?c]))) = cs0 @ [?c] @ cs"
      "list_all (local_candidate start en) cs" "length cs \<le> n"
      "case fst (bind_attempts n (watch_net N) show_ip start en LOCALHOST4 (w2, cs0 @ [?c])) of
        Inl e \<Rightarrow> e = no_port_text start en (show_ip LOCALHOST4) \<and> length cs = n
      | Inr listener \<Rightarrow> \<exists>w'. cs \<noteq> [] \<and> fst (sock N (last cs) w') = Ok listener"
      by auto
    with g s Inl cand show ?thesis
      by (intro exI [of _ "?c # cs"])
        (auto simp: watch_net_range watch_net_sock bind_local split: sum.splits)
  qed
qed

text \<open>
  The port search makes at most sixteen attempts, each of them a bind on 127.0.0.1 with a port
  of the range, and nothing else; it returns the listener of its last attempt, and reports that no
  port was found only after sixteen failures.
\<close>

theorem port_search_bounded:
  assumes "\<forall>w. start \<le> fst (gen_range N start en w) \<and> fst (gen_range N start en w) \<le> en"
  shows "case bind_to_available_port (watch_net N) show_ip start en LOCALHOST4 (w, []) of
     (r, w', cs) \<Rightarrow> list_all (local_candidate start en) cs \<and> length cs \<le> 16 \<and>
       (case r of
          Inl e \<Rightarrow> e = no_port_text start en (show_ip LOCALHOST4) \<and> length cs = 16
        | Inr listener \<Rightarrow> \<exists>w'. cs \<noteq> [] \<and> fst (sock N (last cs) w') = Ok listener)"
  using bind_attempts_calls [of start N en 16 show_ip w "[]"] assms
  by (auto simp: bind_to_available_port_def split: prod.splits sum.splits)

definition busy_ports :: "nat \<Rightarrow> nat net_ops" where
  \<comment> \<open>a random number generator that counts upwards from 8000, and a number of busy ports\<close>
  "busy_ports busy =
     \<lparr>sock = (\<lambda>c n. (if n < busy then Err ''in use'' else Ok n, n + 1)),
      gen_range = (\<lambda>a b n. (if 8000 + of_nat n \<le> b \<and> a \<le> 8000 + of_nat n then 8000 + of_nat n else a, n)),
      local_port = (\<lambda>l n. (Ok 8000, n))\<rparr>"

theorem port_search_bounded_witness:
  "length (snd (snd (bind_to_available_port (watch_net (busy_ports 3)) (\<lambda>_. ''127.0.0.1'') 8000 8999
     LOCALHOST4 (0, [])))) \<le> 16"
proof -
  have "\<forall>w. 8000 \<le> fst (gen_range (busy_ports 3) 8000 8999 w) \<and> fst (gen_range (busy_ports 3) 8000 8999 w) \<le> 8999"
    by (simp add: busy_ports_def)
  from port_search_bounded [OF this, of "\<lambda>_. ''127.0.0.1''" 0] show ?thesis
    by (auto split: prod.splits)
qed

definition freebind_calls :: "nat \<Rightarrow> socket_addr \<Rightarrow> sock_call list" where
  "freebind_calls fd addr =
     [SetFreebind fd, SetReuseAddress fd, SetNonblocking fd, Bind fd addr, Listen fd 128,
      SetNonblocking fd, FromStd fd]"

text \<open>
  Binding a specific non-loopback address: IP_FREEBIND is requested on the new socket before
  the socket is bound, its failure does not stop the bind, and every other failing call is the last
  one; a listener is returned only after the complete sequence.
\<close>

theorem bind_listener_freebind:
  assumes "is_specific_non_loopback (addr_ip addr)"
    and "sock N (Socket (case addr_ip addr of V4 _ \<Rightarrow> IPV4 | V6 _ \<Rightarrow> IPV6)) w = (Ok fd, w1)"
  shows "case bind_listener (watch_net N) addr (w, []) of (r, w', cs) \<Rightarrow>
     prefix (tl cs) (freebind_calls fd addr) \<and> 3 \<le> length cs \<and>
     (is_ok r \<longrightarrow> tl cs = freebind_calls fd addr)"
  using assms
  by (auto simp: bind_listener_def watch_net_sock and_then_def freebind_calls_def
      split: prod.splits sum.splits)

theorem bind_listener_freebind_witness:
  "prefix [SetFreebind 0, SetReuseAddress 0]
     (tl (snd (snd (bind_listener (watch_net (busy_ports 0)) \<lparr>addr_ip = V4 0x0A630001, addr_port = 80\<rparr> (0, [])))))"
proof -
  let ?a = "\<lparr>addr_ip = V4 0x0A630001, addr_port = 80\<rparr>"
  have a: "is_specific_non_loopback (addr_ip ?a)" by (simp add: is_specific_non_loopback_def)
  have s: "sock (busy_ports 0) (Socket (case addr_ip ?a of V4 _ \<Rightarrow> IPV4 | V6 _ \<Rightarrow> IPV6)) 0 = (Ok 0, 1)"
    by (simp add: busy_ports_def)
  have "is_ok (fst (bind_listener (watch_net (busy_ports 0)) ?a (0, [])))"
    by (simp add: bind_listener_def is_specific_non_loopback_def watch_net_def busy_ports_def and_then_def)
  with bind_listener_freebind [OF a s] show ?thesis
    by (auto simp: freebind_calls_def split: prod.splits)
qed

end
