(* ===== verification/Proxy_TLS.thy ===== *)
theory Proxy_TLS
  imports Proxy
begin

text \<open>
  \<^verbatim>\<open>src/src/proxy_tls.rs\<close>: the HTTPS side of the proxy. A connection is classified by its first
  bytes as transparent TLS, a CONNECT tunnel, plain HTTP or unknown; TLS is terminated with a
  certificate for the host, and the decrypted requests are evaluated and forwarded one by one.

  The TCP stream, the certificate manager, the TLS library and the TLS parser are parameters
  (\<open>conn_ops\<close>, \<open>tls_parser\<close>) over the outside world \<open>'w\<close>.
\<close>

section \<open>Parameters\<close>

datatype peek_result = Peeked string | PeekError | PeekTimeout

datatype conn_line = ConnEof | ConnLine string | ConnError | ConnTimeout

datatype io_result = Done | Failed string | TimedOut

datatype tls_message = ClientHello "string option" | OtherMessage

datatype tls_extension = SNI "(bool \<times> string) list" | OtherExtension

text \<open>
  The parser of the \<open>tls-parser\<close> package: the messages of a record, and the extensions of a
  ClientHello. In an SNI entry the flag says that its type is \<open>HostName\<close>.
\<close>

record tls_parser =
  parse_tls_plaintext :: "string \<Rightarrow> tls_message list option"
  parse_tls_extensions :: "string \<Rightarrow> tls_extension list option"

text \<open>
  \<open>header_lines\<close>: what reading the CONNECT headers line by line gives, each with whether the total
  time was up before the line was read. \<open>incoming\<close>: the requests that arrive on the (decrypted)
  connection and how serving the connection ends; \<open>respond\<close> writes a response.
\<close>

record ('h, 'b, 'r, 'k, 'w) conn_ops =
  peek :: "nat \<Rightarrow> 'w \<Rightarrow> peek_result \<times> 'w"
  read_first_line :: "'w \<Rightarrow> conn_line \<times> 'w"
  header_lines :: "'w \<Rightarrow> (bool \<times> conn_line) list \<times> 'w"
  write_flush :: "string \<Rightarrow> 'w \<Rightarrow> io_result \<times> 'w"
  get_cert_for_host :: "string \<Rightarrow> ('w, 'k) fallible"
  with_single_cert :: "'k \<Rightarrow> unit result"
  tls_accept :: "'k \<Rightarrow> 'w \<Rightarrow> io_result \<times> 'w"
  incoming :: "'w \<Rightarrow> (('h, 'b) request list \<times> unit result) \<times> 'w"
  respond :: "('h, 'r resp_body) response \<Rightarrow> 'w \<Rightarrow> 'w"

section \<open>Decrypted requests\<close>

definition https_url :: "string \<Rightarrow> ('h, 'b) request \<Rightarrow> string" where
  "https_url host req = ''https://'' @ host @ path_or_slash (req_uri req)"

definition proxy_https_request ::
  "('h, 'b, 'r, 'w) proxy_ctx \<Rightarrow> ('h, 'b) request \<Rightarrow> string \<Rightarrow> u64 option \<Rightarrow> 'w \<Rightarrow>
     ('h, 'r resp_body) response result \<times> 'w" where
  "proxy_https_request C req host max_tx w =
     (case uri_parse C (https_url host req) of
        Inl e \<Rightarrow> (Err e, w)
      | Inr target_uri \<Rightarrow> forward C req target_uri max_tx w)"

definition handle_decrypted_https_request ::
  "('h, 'b, 'r, 'w) proxy_ctx \<Rightarrow> ('h, 'b) request \<Rightarrow> string \<Rightarrow> string \<Rightarrow> 'w \<Rightarrow>
     ('h, 'r resp_body) response \<times> 'w" where
  "handle_decrypted_https_request C req host requester_ip w =
     (let full_url = https_url host req
      in case evaluate_with_context_and_ip (ctx_engine C) (req_method req) full_url requester_ip w of
           (evaluation, w) \<Rightarrow>
             (case action evaluation of
                Allow \<Rightarrow>
                  (case proxy_https_request C req host (max_tx_bytes evaluation) w of
                     (Inr resp, w) \<Rightarrow> (resp, w)
                   | (Inl _, w) \<Rightarrow> (create_error_response (hdr C) 502 ''Proxy error'', w))
              | Deny \<Rightarrow> (create_forbidden_response (hdr C) (eval_context evaluation), w)))"

definition serve_http1 ::
  "('h, 'b, 'r, 'k, 'w) conn_ops \<Rightarrow> (('h, 'b) request \<Rightarrow> 'w \<Rightarrow> ('h, 'r resp_body) response \<times> 'w) \<Rightarrow>
     ('w, unit) fallible" where
  \<comment> \<open>\<open>http1::Builder::serve_connection(io, service).await?\<close>\<close>
  "serve_http1 N service w =
     (case incoming N w of ((reqs, res), w) \<Rightarrow>
        (res, snd (serve_connection
                (\<lambda>req w. case service req w of (resp, w) \<Rightarrow> (resp, respond N resp w)) reqs w)))"

definition handle_plain_http ::
  "('h, 'b, 'r, 'w) proxy_ctx \<Rightarrow> ('h, 'b, 'r, 'k, 'w) conn_ops \<Rightarrow> string \<Rightarrow> ('w, unit) fallible" where
  "handle_plain_http C N remote_ip = serve_http1 N (\<lambda>req. handle_http_request C req remote_ip)"

section \<open>TLS interception\<close>

definition perform_tls_interception ::
  "('h, 'b, 'r, 'w) proxy_ctx \<Rightarrow> ('h, 'b, 'r, 'k, 'w) conn_ops \<Rightarrow> string \<Rightarrow> string \<Rightarrow> ('w, unit) fallible" where
  "perform_tls_interception C N host remote_ip w =
     (case get_cert_for_host N host w of
        (Inl e, w) \<Rightarrow> (Err (''Failed to get certificate for '' @ host @ '': '' @ e), w)
      | (Inr key, w) \<Rightarrow>
          (case with_single_cert N key of
             Inl e \<Rightarrow> (Err (''Failed to create TLS config: '' @ e), w)
           | Inr _ \<Rightarrow>
               (case tls_accept N key w of
                  (Failed e, w) \<Rightarrow> (Err e, w)
                | (TimedOut, w) \<Rightarrow> (Err ''TLS handshake timeout'', w)
                | (Done, w) \<Rightarrow>
                    serve_http1 N (\<lambda>req. handle_decrypted_https_request C req host remote_ip) w)))"

text \<open>The host names of the SNI entries, in order: the first one that is UTF-8 is the result.\<close>

fun sni_entry :: "(bool \<times> string) list \<Rightarrow> string option" where
  "sni_entry [] = None"
| "sni_entry ((is_hostname, data) # rest) =
     (if is_hostname \<and> valid_utf8 data then Some data else sni_entry rest)"

fun sni_extension :: "tls_extension list \<Rightarrow> string option" where
  "sni_extension [] = None"
| "sni_extension (OtherExtension # exts) = sni_extension exts"
| "sni_extension (SNI sni_list # exts) =
     (case sni_entry sni_list of Some h \<Rightarrow> Some h | None \<Rightarrow> sni_extension exts)"

definition extract_sni_from_stream ::
  "tls_parser \<Rightarrow> ('h, 'b, 'r, 'k, 'w) conn_ops \<Rightarrow> 'w \<Rightarrow> string option \<times> 'w" where
  "extract_sni_from_stream T N w =
     (case peek N 2048 w of
        (PeekTimeout, w) \<Rightarrow> (None, w)
      | (PeekError, w) \<Rightarrow> (None, w)
      | (Peeked buf, w) \<Rightarrow>
          ((if length buf < 5 then None
            else case parse_tls_plaintext T buf of
                   Some (ClientHello (Some ext_data) # _) \<Rightarrow>
                     (case parse_tls_extensions T ext_data of
                        Some exts \<Rightarrow> sni_extension exts
                      | None \<Rightarrow> None)
                 | _ \<Rightarrow> None), w))"

definition handle_transparent_tls ::
  "('h, 'b, 'r, 'w) proxy_ctx \<Rightarrow> tls_parser \<Rightarrow> ('h, 'b, 'r, 'k, 'w) conn_ops \<Rightarrow> string \<Rightarrow>
     ('w, unit) fallible" where
  \<comment> \<open>after the host name is known, the same steps as \<^const>\<open>perform_tls_interception\<close>\<close>
  "handle_transparent_tls C T N remote_ip w =
     (case extract_sni_from_stream T N w of (sni, w) \<Rightarrow>
        let hostname = (case sni of Some s \<Rightarrow> s | None \<Rightarrow> ''example.com'')
        in perform_tls_interception C N hostname remote_ip w)"

section \<open>CONNECT tunnels\<close>

definition connect_host :: "string \<Rightarrow> string" where
  "connect_host target =
     (if CHR '':'' \<in> set target then takeWhile (\<lambda>c. c \<noteq> CHR '':'') target else target)"

text \<open>The header loop: \<^const>\<open>False\<close> if it ends the connection because the time is up.\<close>

fun read_connect_headers :: "(bool \<times> conn_line) list \<Rightarrow> bool" where
  "read_connect_headers [] = True"
| "read_connect_headers ((expired, l) # ls) =
     (if expired then False
      else case l of
             ConnEof \<Rightarrow> True
           | ConnLine s \<Rightarrow>
               (if s = crlf \<or> s = newline then True else read_connect_headers ls)
           | ConnError \<Rightarrow> True
           | ConnTimeout \<Rightarrow> True)"

definition CONNECT_OK :: string where
  "CONNECT_OK = ''HTTP/1.1 200 Connection Established'' @ crlf @ crlf"

definition handle_connect_tunnel ::
  "('h, 'b, 'r, 'w) proxy_ctx \<Rightarrow> ('h, 'b, 'r, 'k, 'w) conn_ops \<Rightarrow> string \<Rightarrow> ('w, unit) fallible" where
  "handle_connect_tunnel C N remote_ip w =
     (case read_first_line N w of
        (ConnEof, w) \<Rightarrow> (Ok (), w)
      | (ConnError, w) \<Rightarrow> (Ok (), w)
      | (ConnTimeout, w) \<Rightarrow> (Ok (), w)
      | (ConnLine first_line, w) \<Rightarrow>
          (case split_whitespace first_line of
             _ # target # _ \<Rightarrow>
               (let host = connect_host target
                in case header_lines N w of (ls, w) \<Rightarrow>
                  if \<not> read_connect_headers ls then (Ok (), w)
                  else (case evaluate_with_context_and_ip (ctx_engine C) ''GET''
                               (''https://'' @ target) remote_ip w of
                    (evaluation, w) \<Rightarrow>
                      (case action evaluation of
                         Allow \<Rightarrow>
                           (case write_flush N CONNECT_OK w of
                              (Done, w) \<Rightarrow> perform_tls_interception C N host remote_ip w
                            | (Failed e, w) \<Rightarrow> (Err e, w)
                            | (TimedOut, w) \<Rightarrow> (Err ''Timeout writing CONNECT response'', w))
                       | Deny \<Rightarrow>
                           (Ok (), snd (write_flush N
                              (create_connect_403_response_with_context (eval_context evaluation)) w)))))
           | _ \<Rightarrow> (Ok (), w)))"

section \<open>Protocol detection\<close>

datatype protocol = Closed | TransparentTls | ConnectTunnel | PlainHttp | UnknownProtocol

definition detect_protocol :: "string \<Rightarrow> protocol" where
  \<comment> \<open>the argument is what \<open>peek\<close> put into the six-byte, zero-filled buffer\<close>
  "detect_protocol bytes =
     (let n = length bytes;
          peek_buf = take 6 (bytes @ replicate 6 (CHR 0x00));
          b0 = of_char (peek_buf ! 0) :: nat;
          b1 = of_char (peek_buf ! 1) :: nat
      in if n = 0 then Closed
         else if b0 = 0x16 \<and> n > 1 \<and> (b1 = 0x03 \<or> b1 = 0x02) then TransparentTls
         else if b0 \<ge> 0x41 \<and> b0 \<le> 0x5A then
           (if starts_with (from_utf8_lossy peek_buf) ''CONNEC'' then ConnectTunnel else PlainHttp)
         else UnknownProtocol)"

definition handle_https_connection ::
  "('h, 'b, 'r, 'w) proxy_ctx \<Rightarrow> tls_parser \<Rightarrow> ('h, 'b, 'r, 'k, 'w) conn_ops \<Rightarrow> string \<Rightarrow>
     ('w, unit) fallible" where
  "handle_https_connection C T N remote_ip w =
     (case peek N 6 w of
        (PeekError, w) \<Rightarrow> (Ok (), w)
      | (PeekTimeout, w) \<Rightarrow> (Ok (), w)
      | (Peeked bytes, w) \<Rightarrow>
          (case detect_protocol bytes of
             Closed \<Rightarrow> (Ok (), w)
           | TransparentTls \<Rightarrow> handle_transparent_tls C T N remote_ip w
           | ConnectTunnel \<Rightarrow> handle_connect_tunnel C N remote_ip w
           | PlainHttp \<Rightarrow> handle_plain_http C N remote_ip w
           | UnknownProtocol \<Rightarrow> (Ok (), w)))"

lemma serve_connection_kept:
  assumes "\<And>req w. J w \<Longrightarrow> J (snd (service req w))" and "J w"
  shows "J (snd (serve_connection service reqs w))"
  using assms(2)
proof (induction reqs arbitrary: w)
  case (Cons req reqs)
  from Cons.IH [OF assms(1) [OF Cons.prems]] show ?case by (simp add: case_prod_beta)
qed simp

section \<open>Decrypted requests: traces\<close>

lemma proxy_https_request_eq:
  "proxy_https_request C req host m = proxy_request C req (https_url host req) m"
  by (simp add: fun_eq_iff proxy_https_request_def proxy_request_def)

lemma decrypted_split:
  "handle_decrypted_https_request C req host ip w =
     (let url = https_url host req;
          e = evaluate (ctx_engine C) (req_method req) url ip w;
          p = proxy_request C req url (max_tx_bytes (fst e)) (snd e)
      in if action (fst e) = Allow then
           (case fst p of Inr resp \<Rightarrow> resp
                        | Inl _ \<Rightarrow> create_error_response (hdr C) 502 ''Proxy error'', snd p)
         else (create_forbidden_response (hdr C) (eval_context (fst e)), snd e))"
  by (auto simp: handle_decrypted_https_request_def evaluate_with_context_and_ip_def
      proxy_https_request_eq Let_def split: prod.splits sum.splits action.splits)

lemma decrypted_trace:
  "snd (snd (handle_decrypted_https_request (watch C) req host ip (w, tr))) =
     (let url = https_url host req;
          r = fst (evaluate (ctx_engine C) (req_method req) url ip w)
      in tr @ [Evaluated (req_method req) url ip r] @ allowed_trace C req url r)"
proof -
  define url where "url = https_url host req"
  define r where "r = fst (evaluate (ctx_engine C) (req_method req) url ip w)"
  have e: "evaluate (ctx_engine (watch C)) (req_method req) url ip (w, tr) =
      (r, (snd (evaluate (ctx_engine C) (req_method req) url ip w),
           tr @ [Evaluated (req_method req) url ip r]))"
    using watch_evaluate [of C "req_method req" url ip "(w, tr)"]
    by (simp add: evaluate_with_context_and_ip_def r_def)
  have "snd (snd (handle_decrypted_https_request (watch C) req host ip (w, tr))) =
      tr @ [Evaluated (req_method req) url ip r] @ allowed_trace C req url r"
  proof (cases "action r")
    case Allow
    with proxy_request_trace [OF Allow, of C req url] e show ?thesis
      by (simp add: decrypted_split Let_def flip: url_def)
  next
    case Deny
    with e show ?thesis by (simp add: decrypted_split allowed_trace_def Let_def flip: url_def)
  qed
  then show ?thesis by (simp add: Let_def url_def r_def)
qed

lemma decrypted_watch:
  "fst (handle_decrypted_https_request (watch C) req host ip st) =
     fst (handle_decrypted_https_request C req host ip (fst st))"
  "fst (snd (handle_decrypted_https_request (watch C) req host ip st)) =
     snd (handle_decrypted_https_request C req host ip (fst st))"
  by (simp_all add: decrypted_split Let_def proxy_request_watch evaluate_watch split: sum.splits)

lemma piece_gated:
  "guarded (uri_parse C) (Evaluated (req_method req) url ip r # allowed_trace C req url r) \<and>
   evaluations (Evaluated (req_method req) url ip r # allowed_trace C req url r) = 1 \<and>
   sends (Evaluated (req_method req) url ip r # allowed_trace C req url r) \<le> 1"
  using allowed_trace_cases [of C req url r] allowed_trace_guarded [of C req url ip r] by auto

interpretation https: gated_handler "uri_parse C"
  "\<lambda>req. handle_decrypted_https_request (watch C) req host ip" for C host ip
proof unfold_locales
  fix req :: "('a, 'b) request" and w and tr :: "('a, 'b) event list"
  let ?url = "https_url host req"
  let ?r = "fst (evaluate (ctx_engine C) (req_method req) ?url ip w)"
  show "\<exists>es. snd (snd (handle_decrypted_https_request (watch C) req host ip (w, tr))) = tr @ es \<and>
    guarded (uri_parse C) es \<and> evaluations es \<le> 1 \<and> sends es \<le> evaluations es"
    using piece_gated [of C req ?url ip ?r]
    by (intro exI [of _ "Evaluated (req_method req) ?url ip ?r # allowed_trace C req ?url ?r"])
      (simp add: decrypted_trace Let_def)
qed

section \<open>Connections: traces\<close>

definition lift_world :: "('w \<Rightarrow> 'a \<times> 'w) \<Rightarrow> 'w \<times> 't \<Rightarrow> 'a \<times> 'w \<times> 't" where
  "lift_world f st = (fst (f (fst st)), (snd (f (fst st)), snd st))"

definition watch_conn :: "('h, 'b, 'r, 'k, 'w) conn_ops \<Rightarrow> ('h, 'b, 'r, 'k, 'w \<times> 't) conn_ops" where
  \<comment> \<open>the connection does not change what is recorded beside its world\<close>
  "watch_conn N =
     \<lparr>peek = (\<lambda>n. lift_world (peek N n)), read_first_line = lift_world (read_first_line N),
      header_lines = lift_world (header_lines N),
      write_flush = (\<lambda>s. lift_world (write_flush N s)),
      get_cert_for_host = (\<lambda>h. lift_world (get_cert_for_host N h)),
      with_single_cert = with_single_cert N, tls_accept = (\<lambda>k. lift_world (tls_accept N k)),
      incoming = lift_world (incoming N),
      respond = (\<lambda>resp st. (respond N resp (fst st), snd st))\<rparr>"

text \<open>The operations of a connection on the second part of a world.\<close>

definition beside :: "('h, 'b, 'r, 'k, 'v) conn_ops \<Rightarrow> ('h, 'b, 'r, 'k, 's \<times> 'v) conn_ops" where
  "beside N =
     \<lparr>peek = (\<lambda>n w. apsnd (Pair (fst w)) (peek N n (snd w))),
      read_first_line = (\<lambda>w. apsnd (Pair (fst w)) (read_first_line N (snd w))),
      header_lines = (\<lambda>w. apsnd (Pair (fst w)) (header_lines N (snd w))),
      write_flush = (\<lambda>s w. apsnd (Pair (fst w)) (write_flush N s (snd w))),
      get_cert_for_host = (\<lambda>h w. apsnd (Pair (fst w)) (get_cert_for_host N h (snd w))),
      with_single_cert = with_single_cert N,
      tls_accept = (\<lambda>k w. apsnd (Pair (fst w)) (tls_accept N k (snd w))),
      incoming = (\<lambda>w. apsnd (Pair (fst w)) (incoming N (snd w))),
      respond = (\<lambda>resp w. (fst w, respond N resp (snd w)))\<rparr>"

text \<open>A fallible step over a watched world whose trace grows by a guarded piece.\<close>

definition extends :: "(string \<Rightarrow> uri result) \<Rightarrow> ('h, 'b) event list \<Rightarrow> 'a \<times> 'w \<times> ('h, 'b) event list \<Rightarrow> bool" where
  "extends P tr r = (\<exists>es. snd (snd r) = tr @ es \<and> guarded P es)"

lemma extends_refl [simp]: "extends P tr (x, w, tr)"
  by (auto simp: extends_def intro!: exI [of _ "[]"])

context gated_handler
begin

lemma responding:
  assumes "\<And>q st. snd (rsp q st) = snd st"
  shows "gated_handler P (\<lambda>req st. case handle req st of (resp, st) \<Rightarrow> (resp, rsp resp st))"
proof
  fix req w and tr :: "('h, 'b) event list"
  obtain resp w1 tr1 where h: "handle req (w, tr) = (resp, w1, tr1)" by (metis prod.exhaust)
  with gated [of req w tr] assms [of resp "(w1, tr1)"]
  show "\<exists>es. snd (snd (case handle req (w, tr) of (resp, st) \<Rightarrow> (resp, rsp resp st))) = tr @ es \<and>
    guarded P es \<and> evaluations es \<le> 1 \<and> sends es \<le> evaluations es"
    by simp
qed

end

lemma serve_extends:
  assumes "gated_handler P service"
  shows "extends P tr (serve_http1 (watch_conn N) service (w, tr))"
proof -
  have "gated_handler P (\<lambda>req st. case service req st of (resp, st) \<Rightarrow> (resp, respond (watch_conn N) resp st))"
    by (rule gated_handler.responding [OF assms]) (simp add: watch_conn_def)
  from gated_handler.connection_gated [OF this]
  have "\<exists>es. snd (snd (serve_connection
      (\<lambda>req st. case service req st of (resp, st) \<Rightarrow> (resp, respond (watch_conn N) resp st)) reqs (w1, tr))) =
    tr @ es \<and> guarded P es" for reqs w1
    by blast
  moreover have "incoming (watch_conn N) (w, tr) = (fst (incoming N w), (snd (incoming N w), tr))"
    by (simp add: watch_conn_def lift_world_def)
  ultimately show ?thesis
    by (simp add: serve_http1_def extends_def case_prod_beta)
qed

lemma watch_conn_ops:
  "peek (watch_conn N) n (w, tr) = (fst (peek N n w), (snd (peek N n w), tr))"
  "read_first_line (watch_conn N) (w, tr) = (fst (read_first_line N w), (snd (read_first_line N w), tr))"
  "header_lines (watch_conn N) (w, tr) = (fst (header_lines N w), (snd (header_lines N w), tr))"
  "write_flush (watch_conn N) s (w, tr) = (fst (write_flush N s w), (snd (write_flush N s w), tr))"
  "get_cert_for_host (watch_conn N) h (w, tr) =
     (fst (get_cert_for_host N h w), (snd (get_cert_for_host N h w), tr))"
  "with_single_cert (watch_conn N) = with_single_cert N"
  "tls_accept (watch_conn N) k (w, tr) = (fst (tls_accept N k w), (snd (tls_accept N k w), tr))"
  by (simp_all add: watch_conn_def lift_world_def)

lemma interception_extends:
  "extends (uri_parse C) tr (perform_tls_interception (watch C) (watch_conn N) host ip (w, tr))"
  using serve_extends [OF https.gated_handler_axioms [of C host ip]]
  by (auto simp: perform_tls_interception_def watch_conn_ops split: sum.splits io_result.splits)

lemma transparent_extends:
  "extends (uri_parse C) tr (handle_transparent_tls (watch C) T (watch_conn N) ip (w, tr))"
proof -
  have "extract_sni_from_stream T (watch_conn N) (w, tr) =
      (fst (extract_sni_from_stream T N w), (snd (extract_sni_from_stream T N w), tr))"
    by (auto simp: extract_sni_from_stream_def watch_conn_ops split: peek_result.splits prod.splits)
  then show ?thesis by (simp add: handle_transparent_tls_def interception_extends Let_def)
qed

lemma extends_trans:
  "guarded P es \<Longrightarrow> extends P (tr @ es) r \<Longrightarrow> extends P tr r"
  by (auto simp: extends_def dest: guarded_append)

lemma connect_extends:
  "extends (uri_parse C) tr (handle_connect_tunnel (watch C) (watch_conn N) ip (w, tr))"
proof -
  have "extends (uri_parse C) tr (x, w1, tr @ [Evaluated m u i r])" for x w1 m u i r
    by (rule extends_trans [of _ "[Evaluated m u i r]"]) simp_all
  moreover have "extends (uri_parse C) tr
      (perform_tls_interception (watch C) (watch_conn N) host ip (w1, tr @ [Evaluated m u i r]))"
    for host w1 m u i r
    by (rule extends_trans [OF _ interception_extends]) simp
  ultimately show ?thesis
    by (auto simp: handle_connect_tunnel_def watch_conn_ops watch_evaluate Let_def
        split: conn_line.splits list.splits action.splits io_result.splits)
qed

lemma https_connection_extends:
  "extends (uri_parse C) tr (handle_https_connection (watch C) T (watch_conn N) ip (w, tr))"
  using serve_extends [OF http.gated_handler_axioms [of C ip]]
  by (auto simp: handle_https_connection_def watch_conn_ops transparent_extends connect_extends
      handle_plain_http_def split: peek_result.splits protocol.splits)

section \<open>Properties\<close>

text \<open>
  (C2) Complete mediation on the HTTPS port: whatever arrives on a connection, transparent TLS, a
  CONNECT tunnel or plain HTTP, and however the certificate manager, the handshake and the client
  behave, every request that reaches the upstream client comes directly after an evaluation that
  allowed it, for its own method and for the URL that its target URI is the parse of. In particular
  an allowed CONNECT never stands in for the evaluation of the requests inside the tunnel.
\<close>

theorem https_mediation:
  "guarded (uri_parse C) (snd (snd (handle_https_connection (watch C) T (watch_conn N) ip (w, []))))"
  using https_connection_extends [of C "[]" T N ip w] by (simp add: extends_def)

text \<open>Lossy decoding neither removes nor invents ASCII bytes at the start of a string.\<close>

lemma lossy_Cons_ascii: "of_char c < (0x80 :: nat) \<Longrightarrow> from_utf8_lossy (c # s) = c # from_utf8_lossy s"
  by (subst from_utf8_lossy.simps) (simp add: utf8_next_def)

lemma lossy_head:
  assumes "from_utf8_lossy s = c # t" and "of_char c < (0x80 :: nat)"
  shows "\<exists>s'. s = c # s' \<and> from_utf8_lossy s' = t"
proof (cases s)
  case Nil
  with assms(1) show ?thesis by (simp add: from_utf8_lossy.simps)
next
  case (Cons d s')
  show ?thesis
  proof (cases "of_char d < (0x80 :: nat)")
    case True
    with assms(1) Cons show ?thesis by (simp add: lossy_Cons_ascii)
  next
    case False
    obtain ok n where u: "utf8_next s = (ok, n)" by fastforce
    then have "0 < n" using utf8_next_pos [of s] by simp
    with assms(1) u Cons have "c = d \<or> c = CHR 0xEF"
      by (subst (asm) from_utf8_lossy.simps) (auto simp: take_Cons' split: if_splits)
    with False assms(2) show ?thesis by auto
  qed
qed

lemma lossy_prefix:
  assumes "\<forall>c \<in> set p. of_char c < (0x80 :: nat)"
  shows "starts_with (from_utf8_lossy s) p \<longleftrightarrow> starts_with s p"
  using assms
proof (induction p arbitrary: s)
  case Nil
  then show ?case by (simp add: starts_with_def)
next
  case (Cons c p)
  have c: "of_char c < (0x80 :: nat)" using Cons.prems by simp
  show ?case
  proof (cases "\<exists>s'. s = c # s'")
    case True
    with Cons c show ?thesis by (auto simp: starts_with_def lossy_Cons_ascii)
  next
    case False
    with lossy_head [of s c] c show ?thesis
      by (auto simp: starts_with_def prefix_def)
  qed
qed

lemma prefix_take: "prefix p s \<longleftrightarrow> take (length p) s = p"
  by (metis append_eq_conv_conj append_take_drop_id prefix_def)

lemma starts_with_CONNEC: "starts_with s ''CONNEC'' \<longleftrightarrow> take 6 s = ''CONNEC''"
proof -
  have "length ''CONNEC'' = 6" by simp
  then show ?thesis using prefix_take [of "''CONNEC''" s] by (simp only: starts_with_def)
qed

lemma peek_buffer_prefix:
  "starts_with (take 6 (bytes @ replicate 6 (CHR 0x00))) ''CONNEC'' \<longleftrightarrow> starts_with bytes ''CONNEC''"
proof (cases "6 \<le> length bytes")
  case True
  then show ?thesis by (simp add: starts_with_CONNEC)
next
  case False
  let ?b = "bytes @ replicate 6 (CHR 0x00)"
  have "take 6 ?b ! length bytes = CHR 0x00" using False by (simp add: nth_append)
  moreover have "list_all (\<lambda>c. c \<noteq> CHR 0x00) ''CONNEC''" by simp
  then have "''CONNEC'' ! length bytes \<noteq> CHR 0x00" using False by (simp add: list_all_length)
  ultimately have b: "take 6 ?b \<noteq> ''CONNEC''" by metis
  have "length (take 6 bytes) \<noteq> length ''CONNEC''" using False by simp
  then have "take 6 bytes \<noteq> ''CONNEC''" by metis
  moreover have "take 6 (take 6 ?b) = take 6 ?b" by simp
  ultimately show ?thesis using b unfolding starts_with_CONNEC by metis
qed

lemma of_char_nat_eq: "(of_char c :: nat) = of_char d \<longleftrightarrow> c = d"
  by (rule of_char_eq_iff)

lemma of_char_consts:
  "(of_char c :: nat) = 22 \<longleftrightarrow> c = CHR 0x16" "(of_char c :: nat) = 3 \<longleftrightarrow> c = CHR 0x03"
  "(of_char c :: nat) = 2 \<longleftrightarrow> c = CHR 0x02"
  subgoal using of_char_nat_eq [of c "CHR 0x16"] by simp
  subgoal using of_char_nat_eq [of c "CHR 0x03"] by (simp add: numeral_3_eq_3)
  subgoal using of_char_nat_eq [of c "CHR 0x02"] by (simp add: numeral_2_eq_2)
  done

lemma detect_protocol_Cons:
  "detect_protocol (c # rest) =
     (if c = CHR 0x16 \<and> (\<exists>r. rest = CHR 0x03 # r \<or> rest = CHR 0x02 # r) then TransparentTls
      else if 65 \<le> (of_char c :: nat) \<and> (of_char c :: nat) \<le> 90 then
        (if starts_with (c # rest) ''CONNEC'' then ConnectTunnel else PlainHttp)
      else UnknownProtocol)"
proof -
  have l: "starts_with (from_utf8_lossy (take 6 ((c # rest) @ replicate 6 (CHR 0x00)))) ''CONNEC'' \<longleftrightarrow>
      starts_with (c # rest) ''CONNEC''"
    using lossy_prefix [of "''CONNEC''"] peek_buffer_prefix [of "c # rest"] by simp
  show ?thesis
    unfolding detect_protocol_def Let_def l
    by (cases rest) (auto simp: of_char_consts)
qed

text \<open>
  Protocol detection on the HTTPS port: a connection is taken for a CONNECT tunnel exactly if
  the first peek delivers at least the six bytes CONNEC, and for transparent TLS exactly if it
  delivers a handshake byte followed by major version 2 or 3; a capital letter followed by anything
  else is plain HTTP. The decision looks at what one peek delivers: a CONNECT whose first segment
  is shorter than six bytes is therefore treated as plain HTTP.
\<close>

theorem protocol_detection:
  "(detect_protocol bytes = ConnectTunnel \<longleftrightarrow> starts_with bytes ''CONNEC'') \<and>
   (detect_protocol bytes = TransparentTls \<longleftrightarrow>
      (\<exists>rest. bytes = CHR 0x16 # CHR 0x03 # rest \<or> bytes = CHR 0x16 # CHR 0x02 # rest)) \<and>
   (detect_protocol bytes = PlainHttp \<longleftrightarrow>
      (\<exists>c rest. bytes = c # rest \<and> 65 \<le> (of_char c :: nat) \<and> (of_char c :: nat) \<le> 90) \<and>
      \<not> starts_with bytes ''CONNEC'') \<and>
   (detect_protocol bytes = Closed \<longleftrightarrow> bytes = [])"
proof (cases bytes)
  case Nil
  then show ?thesis by (simp add: detect_protocol_def starts_with_def)
next
  case (Cons c rest)
  show ?thesis
    by (auto simp: Cons detect_protocol_Cons starts_with_def)
qed


text \<open>
  The host of a tunnel and of a transparent connection, against the URL that is evaluated.
\<close>

lemma connect_host_port:
  assumes "CHR '':'' \<notin> set h"
  shows "connect_host (h @ '':'' @ p) = h"
proof -
  have "takeWhile (\<lambda>c. c \<noteq> CHR '':'') (h @ '':'' @ p) = h @ takeWhile (\<lambda>c. c \<noteq> CHR '':'') ('':'' @ p)"
    by (rule takeWhile_append2) (use assms in auto)
  then show ?thesis by (simp add: connect_host_def)
qed

text \<open>
  A denied CONNECT ends the connection: the rule engine is asked about a GET of the full
  target, and after its refusal the only further action is to write the 403 with the engine's
  context; no certificate is made, no handshake is started, no request is read, and the handler
  reports success even if that write fails.
\<close>

theorem connect_denied:
  assumes "peek N 6 w = (Peeked bytes, w0)" and "starts_with bytes ''CONNEC''"
    and "read_first_line N w0 = (ConnLine line, w1)"
    and "split_whitespace line = verb # target # rest"
    and "header_lines N w1 = (ls, w2)" and "read_connect_headers ls"
    and "evaluate (ctx_engine C) ''GET'' (''https://'' @ target) ip w2 = (r, w3)"
    and "action r = Deny"
  shows "handle_https_connection C T N ip w =
    (Ok (), snd (write_flush N (create_connect_403_response_with_context (eval_context r)) w3))"
proof -
  have "detect_protocol bytes = ConnectTunnel"
    using assms(2) by (cases bytes) (auto simp: detect_protocol_Cons starts_with_def)
  with assms show ?thesis
    by (simp add: handle_https_connection_def handle_connect_tunnel_def
        evaluate_with_context_and_ip_def Let_def)
qed

text \<open>A connection that sends one CONNECT line, for concrete runs; the world counts the steps.\<close>

definition sample_conn ::
  "string \<Rightarrow> (header_list, 'b) request list \<Rightarrow> (header_list, 'b, unit, unit, nat) conn_ops" where
  "sample_conn line reqs =
     \<lparr>peek = (\<lambda>n w. (Peeked (take n line), w)), read_first_line = (\<lambda>w. (ConnLine line, w)),
      header_lines = (\<lambda>w. ([(False, ConnLine crlf)], w)),
      write_flush = (\<lambda>s w. (Done, w + length s)), get_cert_for_host = (\<lambda>h w. (Ok (), w)),
      with_single_cert = (\<lambda>_. Ok ()), tls_accept = (\<lambda>_ w. (Done, w)),
      incoming = (\<lambda>w. ((reqs, Ok ()), w)), respond = (\<lambda>_ w. w)\<rparr>"

lemma split_connect_line: "split_whitespace ''CONNECT b:8443 HTTP/1.1'' = [''CONNECT'', ''b:8443'', ''HTTP/1.1'']"
  by (simp add: split_whitespace_def chars_ascii is_ws_single ascii_ws_def)

theorem connect_denied_witness:
  "handle_https_connection (sample_proxy [''http://a''] None ''7'' :: (header_list, unit, unit, nat) proxy_ctx)
     (\<lparr>parse_tls_plaintext = (\<lambda>_. None), parse_tls_extensions = (\<lambda>_. None)\<rparr>)
     (sample_conn ''CONNECT b:8443 HTTP/1.1'' []) ''::1'' 0 =
     (Ok (), 1 + length (create_connect_403_response_with_context (Some ''no'')))"
proof -
  let ?C = "sample_proxy [''http://a''] None ''7'' :: (header_list, unit, unit, nat) proxy_ctx"
  let ?N = "sample_conn ''CONNECT b:8443 HTTP/1.1'' [] :: (header_list, unit, unit, unit, nat) conn_ops"
  let ?r = "\<lparr>action = Deny, eval_context = Some ''no'', max_tx_bytes = None\<rparr> :: evaluation_result"
  have "handle_https_connection ?C (\<lparr>parse_tls_plaintext = (\<lambda>_. None), parse_tls_extensions = (\<lambda>_. None)\<rparr>)
      ?N ''::1'' 0 =
      (Ok (), snd (write_flush ?N (create_connect_403_response_with_context (eval_context ?r)) 1))"
  proof (rule connect_denied)
    show "peek ?N 6 0 = (Peeked ''CONNEC'', 0)" by (simp add: sample_conn_def)
    show "starts_with ''CONNEC'' ''CONNEC''" by (simp add: starts_with_def)
    show "read_first_line ?N 0 = (ConnLine ''CONNECT b:8443 HTTP/1.1'', 0)" by (simp add: sample_conn_def)
    show "header_lines ?N 0 = ([(False, ConnLine crlf)], 0)" by (simp add: sample_conn_def)
    show "evaluate (ctx_engine ?C) ''GET'' (''https://'' @ ''b:8443'') ''::1'' 0 = (?r, 1)"
      by (simp add: sample_proxy_def)
  qed (simp_all add: split_connect_line)
  then show ?thesis by (simp add: sample_conn_def)
qed

text \<open>
  (C15) Inside a tunnel or a transparent TLS connection the host is fixed by the connection: every
  decrypted request is evaluated and forwarded with the URL made of that host and its own path,
  whatever authority or Host header the client puts into the request, and the Host header that goes
  upstream is the authority of exactly that URL.
\<close>

theorem https_host_binding:
  assumes "header_map (hdr C)"
    and "SentUp q \<in> set (snd (snd (handle_decrypted_https_request (watch C) req host ip (w, []))))"
    and "uri_authority (req_uri q) = Some a" and "list_all visible a"
  shows "uri_parse C (''https://'' @ host @ path_or_slash (req_uri req)) = Ok (req_uri q) \<and>
    req_method q = req_method req \<and>
    action (fst (evaluate (ctx_engine C) (req_method req)
      (''https://'' @ host @ path_or_slash (req_uri req)) ip w)) = Allow \<and>
    (\<exists>v. get_all (hdr C) (req_headers q) ''host'' = [v] \<and> value_to_str (hdr C) v = Some a)"
proof -
  let ?url = "https_url host req"
  let ?r = "fst (evaluate (ctx_engine C) (req_method req) ?url ip w)"
  have "SentUp q \<in> set (allowed_trace C req ?url ?r)"
    using assms(2) by (auto simp: decrypted_trace Let_def)
  then obtain t where t: "action ?r = Allow" "uri_parse C ?url = Ok t"
    and u: "upstream_request (hdr C) (loop_nonce C) req t (max_tx_bytes ?r) = WithinLimit q"
    using allowed_trace_cases [of C req ?url ?r] by auto
  note q = upstream_request_parts [OF u]
  with t assms(3) header_map.prepared_host [OF assms(1) _ assms(4), of t req "loop_nonce C"]
  show ?thesis by (simp add: https_url_def)
qed

theorem https_host_binding_witness:
  "\<exists>q. SentUp q \<in> set (snd (snd (handle_decrypted_https_request
         (watch (sample_proxy [''https://a/''] None ''7'' :: (header_list, unit, unit, nat) proxy_ctx))
         (sample_request ''evil'' [(''host'', ''evil'')] ()) ''a'' ''::1'' (0, [])))) \<and>
       get_all list_headers (req_headers q) ''host'' = [''/a/'']"
proof -
  let ?C = "sample_proxy [''https://a/''] None ''7'' :: (header_list, unit, unit, nat) proxy_ctx"
  let ?req = "sample_request ''evil'' [(''host'', ''evil'')] ()"
  let ?q = "prepare_upstream_request list_headers ?req (sample_uri ''https://a/'') ''7''"
  have h: "header_map (hdr ?C)" by (simp add: sample_proxy_def hlist.header_map_axioms)
  have s: "SentUp ?q \<in> set (snd (snd (handle_decrypted_https_request (watch ?C) ?req ''a'' ''::1'' (0, []))))"
    by (simp add: decrypted_trace allowed_trace_def upstream_request_def https_url_def path_or_slash_def
        sample_defs Let_def)
  have a: "uri_authority (req_uri ?q) = Some ''/a/''" "list_all visible ''/a/''"
    by (simp_all add: sample_uri_def visible_def)
  have "value_to_str list_headers v = Some ''/a/'' \<Longrightarrow> v = ''/a/''" for v
    by (simp add: list_headers_def split: if_splits)
  moreover have "hdr ?C = list_headers" by (simp add: sample_proxy_def)
  ultimately show ?thesis using https_host_binding [OF h s a] s by auto
qed

text \<open>
  The port of a CONNECT target is dropped: the tunnel to host h and port p is allowed or denied
  as https://h:p, but its requests are then evaluated and forwarded as https://h/..., so they go to
  the default port. For a bracketed IPv6 target the host is cut at the first colon of the address.
\<close>

theorem connect_port_dropped:
  assumes "CHR '':'' \<notin> set h"
  shows "https_url (connect_host (h @ '':'' @ p)) req = ''https://'' @ h @ path_or_slash (req_uri req) \<and>
         connect_host (''['' @ h @ '':'' @ v6) = ''['' @ h"
  using connect_host_port [OF assms, of p] connect_host_port [of "''['' @ h" v6] assms
  by (simp add: https_url_def)

theorem connect_port_dropped_witness:
  "connect_host ''[2001:db8::1]:443'' = ''[2001''"
  using connect_port_dropped [of "''2001''" "''x''" "sample_request ''a'' [] ()" "''db8::1]:443''"]
  by simp

text \<open>
  The handler of decrypted requests has no loop check: a request that carries this instance's
  own nonce is evaluated like any other, and if it is allowed it is forwarded once more, where the
  plain HTTP handler refuses it.
\<close>

theorem https_loop_not_detected:
  assumes "is_loop (hdr C) (loop_nonce C) (req_headers req)"
    and "fst (evaluate (ctx_engine C) (req_method req) (https_url host req) ip w) = allow"
    and "uri_parse C (https_url host req) = Ok t"
  shows "sends (snd (snd (handle_decrypted_https_request (watch C) req host ip (w, [])))) = 1 \<and>
         sends (snd (snd (handle_http_request (watch C) req ip (w, [])))) = 0"
  using assms
  by (simp add: decrypted_trace handle_http_request_trace allowed_trace_def upstream_request_def
      allow_def Let_def)

theorem https_loop_not_detected_witness:
  "sends (snd (snd (handle_decrypted_https_request
     (watch (sample_proxy [''https://a/''] None ''7'' :: (header_list, unit, unit, nat) proxy_ctx))
     (sample_request ''a'' [(''httpjail-loop-prevention'', ''7'')] ()) ''a'' ''::1'' (0, [])))) = 1"
proof -
  let ?C = "sample_proxy [''https://a/''] None ''7'' :: (header_list, unit, unit, nat) proxy_ctx"
  let ?req = "sample_request ''a'' [(''httpjail-loop-prevention'', ''7'')] ()"
  have l: "is_loop (hdr ?C) (loop_nonce ?C) (req_headers ?req)"
    by (simp add: sample_defs visible_def)
  have e: "fst (evaluate (ctx_engine ?C) (req_method ?req) (https_url ''a'' ?req) ''::1'' 0) = allow"
    by (simp add: sample_proxy_def sample_request_def sample_uri_def https_url_def path_or_slash_def allow_def)
  have t: "uri_parse ?C (https_url ''a'' ?req) = Ok (sample_uri (https_url ''a'' ?req))"
    by (simp add: sample_proxy_def)
  from https_loop_not_detected [OF l e t] show ?thesis by simp
qed

text \<open>
  The SNI search returns the first entry of type host name, over all SNI extensions in order,
  whose bytes are valid UTF-8, and nothing if there is none.
\<close>

theorem sni_first_hostname:
  "sni_extension exts =
     (case filter (\<lambda>(is_hostname, data). is_hostname \<and> valid_utf8 data)
             (concat (map (\<lambda>e. case e of SNI l \<Rightarrow> l | OtherExtension \<Rightarrow> []) exts)) of
        [] \<Rightarrow> None | (_, data) # _ \<Rightarrow> Some data)"
proof -
  have entry: "sni_entry l =
      (case filter (\<lambda>(is_hostname, data). is_hostname \<and> valid_utf8 data) l of
         [] \<Rightarrow> None | (_, data) # _ \<Rightarrow> Some data)" for l
    by (induction l rule: sni_entry.induct) auto
  show ?thesis
    by (induction exts rule: sni_extension.induct) (auto simp: entry split: list.splits)
qed

end
