(* ===== verification/Deny_All.thy ===== *)
theory Deny_All
  imports Proxy_TLS
begin

text \<open>
  The proxy (\<^verbatim>\<open>src/src/proxy.rs\<close>, \<^verbatim>\<open>src/src/proxy_tls.rs\<close>) with a rule engine that denies everything: a locale
  for the engine, one that adds the connection, and the invariant that both ports then keep. The invariant
  \<open>J\<close> is a property of the outside world; it holds as long as nothing but the upstream client can break it, since
  the client is never called.
\<close>

section \<open>Engines that deny\<close>

locale deny_all =
  fixes C :: "('h, 'b, 'r, 'w) proxy_ctx" and J :: "'w \<Rightarrow> bool"
  assumes denies: "J w \<Longrightarrow> action (fst (evaluate (ctx_engine C) m u ip w)) = Deny"
    and keeps: "J w \<Longrightarrow> J (snd (evaluate (ctx_engine C) m u ip w))"
begin

lemma http_kept: "J w \<Longrightarrow> J (snd (handle_http_request C req ip w))"
  by (simp add: handle_http_request_split Let_def denies keeps)

lemma decrypted_kept: "J w \<Longrightarrow> J (snd (handle_decrypted_https_request C req host ip w))"
  by (simp add: decrypted_split Let_def denies keeps)

lemma http_connection_kept: "J w \<Longrightarrow> J (snd (handle_http_connection C reqs ip w))"
  unfolding handle_http_connection_def by (rule serve_connection_kept [where J = J, OF http_kept])

end

section \<open>Connections on the HTTPS port\<close>

text \<open>The stream, the certificate manager and the handshake do not touch what \<open>J\<close> speaks about.\<close>

locale deny_all_conn = deny_all C J
  for C :: "('h, 'b, 'r, 'w) proxy_ctx" and J +
  fixes N :: "('h, 'b, 'r, 'k, 'w) conn_ops"
  assumes peek_kept: "J w \<Longrightarrow> J (snd (peek N n w))"
    and first_line_kept: "J w \<Longrightarrow> J (snd (read_first_line N w))"
    and header_lines_kept: "J w \<Longrightarrow> J (snd (header_lines N w))"
    and write_kept: "J w \<Longrightarrow> J (snd (write_flush N s w))"
    and cert_kept: "J w \<Longrightarrow> J (snd (get_cert_for_host N h w))"
    and accept_kept: "J w \<Longrightarrow> J (snd (tls_accept N key w))"
    and incoming_kept: "J w \<Longrightarrow> J (snd (incoming N w))"
    and respond_kept: "J w \<Longrightarrow> J (respond N resp w)"
begin

lemma serve_kept:
  assumes "\<And>req w. J w \<Longrightarrow> J (snd (service req w))" and "J w"
  shows "J (snd (serve_http1 N service w))"
  by (simp add: serve_http1_def case_prod_beta)
    (rule serve_connection_kept [where J = J], simp_all add: respond_kept assms incoming_kept)

lemma interception_kept:
  assumes "J w"
  shows "J (snd (perform_tls_interception C N host ip w))"
proof -
  obtain k w1 where k: "get_cert_for_host N host w = (k, w1)" by fastforce
  with cert_kept [OF assms, of host] have w1: "J w1" by simp
  have "J w2" if "tls_accept N key w1 = (x, w2)" for key x w2 using accept_kept [OF w1, of key] that by simp
  with w1 serve_kept [OF decrypted_kept] show ?thesis
    by (auto simp: perform_tls_interception_def k split: sum.splits prod.splits io_result.splits)
qed

lemma sni_kept: "J w \<Longrightarrow> J (snd (extract_sni_from_stream T N w))"
  using peek_kept [of w 2048] by (auto simp: extract_sni_from_stream_def split: prod.splits peek_result.splits)

lemma transparent_kept: "J w \<Longrightarrow> J (snd (handle_transparent_tls C T N ip w))"
  using interception_kept [OF sni_kept] by (simp add: handle_transparent_tls_def case_prod_beta Let_def)

text \<open>A tunnel is refused before anything else is read from it.\<close>

lemma connect_kept:
  assumes "J w"
  shows "J (snd (handle_connect_tunnel C N ip w))"
proof -
  obtain l w1 where l: "read_first_line N w = (l, w1)" by fastforce
  with first_line_kept [OF assms] have w1: "J w1" by simp
  obtain ls w2 where h: "header_lines N w1 = (ls, w2)" by fastforce
  with header_lines_kept [OF w1] have w2: "J w2" by simp
  show ?thesis
    using w1 w2 denies [OF w2] write_kept [OF keeps [OF w2]]
    by (auto simp: handle_connect_tunnel_def l h evaluate_with_context_and_ip_def case_prod_beta Let_def
        split: conn_line.splits list.splits)
qed

lemma https_connection_kept:
  assumes "J w"
  shows "J (snd (handle_https_connection C T N ip w))"
proof -
  obtain p w1 where p: "peek N 6 w = (p, w1)" by fastforce
  with peek_kept [OF assms, of 6] have "J w1" by simp
  with transparent_kept connect_kept serve_kept [OF http_kept] show ?thesis
    by (simp add: handle_https_connection_def handle_plain_http_def p split: peek_result.splits protocol.splits)
qed

end

section \<open>Watched engines and connections\<close>

text \<open>
  An engine with a state of its own beside the rest of the world: the operations of the connection act on the
  rest. If the engine denies in the states of a set that it never leaves, the watched proxy sends nothing.
\<close>

lemma watched_deny_all:
  assumes "\<And>m u ip s. I (fst s) \<Longrightarrow> action (fst (evaluate (ctx_engine C) m u ip s)) = Deny"
    and "\<And>m u ip s. I (fst s) \<Longrightarrow> I (fst (snd (evaluate (ctx_engine C) m u ip s)))"
  shows "deny_all_conn (watch C) (\<lambda>st. I (fst (fst st)) \<and> sends (snd st) = 0) (watch_conn (beside N))"
  by unfold_locales
    (simp_all add: evaluate_watch assms watch_conn_def lift_world_def beside_def
      watch_evaluate [unfolded evaluate_with_context_and_ip_def])

end
