(* ===== verification/Jail.thy ===== *)
theory Jail
  imports Prelude
begin

text \<open>
  \<^verbatim>\<open>src/src/jail/mod.rs\<close> and \<^verbatim>\<open>src/src/jail/weak.rs\<close>: the jail configuration, the \<open>Jail\<close>
  trait as a record of operations, the choice of a jail, and the weak jail, which only sets proxy
  variables in the environment of the command. External commands are run by the parameter
  \<open>sys_ops\<close> over the outside world \<open>'w\<close>.
\<close>

section \<open>Commands\<close>

record sys_command =
  cmd_program :: string
  cmd_args :: "string list"
  cmd_env :: "(string \<times> string) list"
  cmd_stdin :: "string option"

definition command :: "string \<Rightarrow> string list \<Rightarrow> sys_command" where
  "command p args = \<lparr>cmd_program = p, cmd_args = args, cmd_env = [], cmd_stdin = None\<rparr>"

text \<open>\<open>Command::env\<close> adds to the inherited environment; the last setting of a variable counts.\<close>

definition child_env :: "(string \<rightharpoonup> string) \<Rightarrow> sys_command \<Rightarrow> (string \<rightharpoonup> string)" where
  "child_env parent c = foldl (\<lambda>m (k, v). m(k \<mapsto> v)) parent (cmd_env c)"

datatype exit_status = ExitCode int | Signalled

text \<open>The result of running a command to its end.\<close>

record cmd_output =
  out_success :: bool
  out_stdout :: string
  out_stderr :: string

section \<open>Configuration\<close>

record jail_config =
  http_proxy_port :: u16
  https_proxy_port :: u16
  jail_id :: string
  enable_heartbeat :: bool
  heartbeat_interval_secs :: u64
  orphan_timeout_secs :: u64

definition CHARSET :: string where
  "CHARSET = ''0123456789abcdefghijklmnopqrstuvwxyz''"

fun generate_base36_id :: "(nat \<Rightarrow> 'w \<Rightarrow> nat \<times> 'w) \<Rightarrow> nat \<Rightarrow> 'w \<Rightarrow> string \<times> 'w" where
  \<comment> \<open>the first argument is \<open>rng.gen_range(0..n)\<close>\<close>
  "generate_base36_id gen 0 w = ([], w)"
| "generate_base36_id gen (Suc n) w =
     (case gen (length CHARSET) w of (idx, w) \<Rightarrow>
        case generate_base36_id gen n w of (cs, w) \<Rightarrow> (CHARSET ! idx # cs, w))"

definition jail_config_new :: "(nat \<Rightarrow> 'w \<Rightarrow> nat \<times> 'w) \<Rightarrow> 'w \<Rightarrow> jail_config \<times> 'w" where
  "jail_config_new gen w =
     (case generate_base36_id gen 8 w of (jid, w) \<Rightarrow>
        (\<lparr>http_proxy_port = 8040, https_proxy_port = 8043, jail_id = jid, enable_heartbeat = True,
          heartbeat_interval_secs = 1, orphan_timeout_secs = 10\<rparr>, w))"

text \<open>\<open>PathBuf::join\<close>: an absolute second path replaces the first.\<close>

definition path_join :: "string \<Rightarrow> string \<Rightarrow> string" where
  "path_join a b =
     (if starts_with b ''/'' then b
      else if a = [] \<or> last a = CHR ''/'' then a @ b else a @ ''/'' @ b)"

text \<open>
  \<open>Path::parent\<close> of a path given as text: trailing separators and current-directory components do not
  count, and the root has no parent. The text is handled from its end.
\<close>

fun trim_components :: "string \<Rightarrow> string" where
  "trim_components r =
     (case r of
        c # d # cs \<Rightarrow>
          (if c = CHR ''/'' then trim_components (d # cs)
           else if c = CHR ''.'' \<and> d = CHR ''/'' then trim_components (d # cs)
           else r)
      | _ \<Rightarrow> r)"

declare trim_components.simps [simp del]

definition path_parent :: "string \<Rightarrow> string option" where
  "path_parent p =
     (let r = trim_components (rev p)
      in if r = [] \<or> r = ''/'' then None
         else Some (rev (trim_components (dropWhile (\<lambda>c. c \<noteq> CHR ''/'') r))))"

definition get_canary_dir :: "string option \<Rightarrow> string" where
  "get_canary_dir data_dir =
     (case data_dir of
        Some d \<Rightarrow> path_join (path_join d ''httpjail'') ''canaries''
      | None \<Rightarrow> ''/tmp/httpjail'')"

definition get_temp_dir :: string where "get_temp_dir = ''/tmp/httpjail''"

section \<open>Jails\<close>

text \<open>
  The trait \<open>Jail\<close>. \<open>setup\<close> takes the jail by mutable reference; dropping a jail is an operation of
  its own because the drop glue of the implementations runs commands.
\<close>

record ('j, 'w) jail_ops =
  jail_setup :: "u16 \<Rightarrow> 'j \<Rightarrow> 'w \<Rightarrow> unit result \<times> 'j \<times> 'w"
  jail_execute :: "'j \<Rightarrow> string list \<Rightarrow> (string \<times> string) list \<Rightarrow> ('w, exit_status) fallible"
  jail_cleanup :: "'j \<Rightarrow> ('w, unit) fallible"
  jail_ident :: "'j \<Rightarrow> string"
  jail_cleanup_orphaned :: "string \<Rightarrow> ('w, unit) fallible"
  jail_drop :: "'j \<Rightarrow> 'w \<Rightarrow> 'w"

datatype platform = MacOS | Linux | OtherPlatform

datatype jail_choice = UseWeak | UseManagedDocker | UseManagedLinux

definition create_jail :: "platform \<Rightarrow> bool \<Rightarrow> bool \<Rightarrow> jail_choice result" where
  "create_jail p weak_mode docker_mode =
     (case p of
        MacOS \<Rightarrow> Ok UseWeak
      | Linux \<Rightarrow>
          (if weak_mode then Ok UseWeak
           else if docker_mode then Ok UseManagedDocker else Ok UseManagedLinux)
      | OtherPlatform \<Rightarrow> Err ''Unsupported platform'')"

section \<open>The weak jail\<close>

definition weak_setup :: "u16 \<Rightarrow> jail_config \<Rightarrow> 'w \<Rightarrow> unit result \<times> jail_config \<times> 'w" where
  "weak_setup proxy_port config w = (Ok (), config, w)"

definition proxy_address :: "u16 \<Rightarrow> string" where
  "proxy_address port = ''http://127.0.0.1:'' @ dec (unat port)"

definition no_proxy_hosts :: "(string \<Rightarrow> string option) \<Rightarrow> string" where
  "no_proxy_hosts env_var =
     (let hosts = ''localhost,127.0.0.1,::1''
      in case (case env_var ''NO_PROXY'' of Some e \<Rightarrow> Some e | None \<Rightarrow> env_var ''no_proxy'') of
           Some existing \<Rightarrow> (if existing \<noteq> [] then existing @ '','' @ hosts else hosts)
         | None \<Rightarrow> hosts)"

definition weak_command ::
  "jail_config \<Rightarrow> (string \<Rightarrow> string option) \<Rightarrow> string list \<Rightarrow> (string \<times> string) list \<Rightarrow> sys_command" where
  "weak_command config env_var cmd extra_env =
     \<lparr>cmd_program = hd cmd, cmd_args = tl cmd,
      cmd_env =
        [(''HTTP_PROXY'', proxy_address (http_proxy_port config)),
         (''HTTPS_PROXY'', proxy_address (https_proxy_port config)),
         (''http_proxy'', proxy_address (http_proxy_port config)),
         (''https_proxy'', proxy_address (https_proxy_port config)),
         (''NO_PROXY'', no_proxy_hosts env_var), (''no_proxy'', no_proxy_hosts env_var)] @ extra_env,
      cmd_stdin = None\<rparr>"

definition weak_execute ::
  "(sys_command \<Rightarrow> ('w, exit_status) fallible) \<Rightarrow> (string \<Rightarrow> string option) \<Rightarrow> jail_config \<Rightarrow>
     string list \<Rightarrow> (string \<times> string) list \<Rightarrow> ('w, exit_status) fallible" where
  "weak_execute run env_var config cmd extra_env w =
     (if cmd = [] then (Err ''No command specified'', w)
      else (case run (weak_command config env_var cmd extra_env) w of
              (Inl e, w) \<Rightarrow> (Err (''Failed to execute command: '' @ e), w)
            | (Inr status, w) \<Rightarrow> (Ok status, w)))"

definition weak_jail ::
  "(sys_command \<Rightarrow> ('w, exit_status) fallible) \<Rightarrow> (string \<Rightarrow> string option) \<Rightarrow>
     (jail_config, 'w) jail_ops" where
  "weak_jail run env_var =
     \<lparr>jail_setup = weak_setup, jail_execute = weak_execute run env_var,
      jail_cleanup = (\<lambda>_ w. (Ok (), w)), jail_ident = jail_id,
      jail_cleanup_orphaned = (\<lambda>_ w. (Ok (), w)), jail_drop = (\<lambda>_ w. w)\<rparr>"

section \<open>Properties\<close>

lemma child_env_append:
  "foldl (\<lambda>m (k, v). m(k \<mapsto> v)) p (xs @ ys) = foldl (\<lambda>m (k, v). m(k \<mapsto> v)) (foldl (\<lambda>m (k, v). m(k \<mapsto> v)) p xs) ys"
  by simp

lemma env_not_set: "k \<notin> fst ` set xs \<Longrightarrow> foldl (\<lambda>m (k, v). m(k \<mapsto> v)) p xs k = p k"
  by (induction xs arbitrary: p) (auto split: prod.splits)

lemma generate_base36_id_length: "length (fst (generate_base36_id gen n w)) = n"
  by (induction n arbitrary: w) (auto split: prod.splits, metis fst_conv)

lemma generate_base36_id_chars:
  assumes "\<And>n w. 0 < n \<Longrightarrow> fst (gen n w) < n"
  shows "set (fst (generate_base36_id gen n w)) \<subseteq> set CHARSET"
proof (induction n arbitrary: w)
  case 0
  then show ?case by simp
next
  case (Suc n)
  obtain idx w1 where g: "gen (length CHARSET) w = (idx, w1)" by fastforce
  have "idx < length CHARSET" using assms [of "length CHARSET" w] g by (simp add: CHARSET_def)
  then have "CHARSET ! idx \<in> set CHARSET" by (rule nth_mem)
  with Suc.IH [of w1] g show ?case by (auto split: prod.splits)
qed

text \<open>
  (C40) A jail identifier has exactly eight characters, all of them digits or lower-case letters, so
  it contains no character with a meaning in a path, a host name, an interface name or a rule set.
\<close>

theorem jail_id_wellformed:
  assumes "\<forall>n w. 0 < n \<longrightarrow> fst (gen n w) < n"
  shows "length (jail_id (fst (jail_config_new gen w))) = 8 \<and>
    (\<forall>c \<in> set (jail_id (fst (jail_config_new gen w))).
       (48 \<le> (of_char c :: nat) \<and> (of_char c :: nat) \<le> 57) \<or> (97 \<le> (of_char c :: nat) \<and> (of_char c :: nat) \<le> 122))"
proof -
  have j: "jail_id (fst (jail_config_new gen w)) = fst (generate_base36_id gen 8 w)"
    by (simp add: jail_config_new_def split: prod.splits)
  have "\<forall>c \<in> set CHARSET. (48 \<le> (of_char c :: nat) \<and> (of_char c :: nat) \<le> 57) \<or>
      (97 \<le> (of_char c :: nat) \<and> (of_char c :: nat) \<le> 122)"
    by (simp add: CHARSET_def)
  with generate_base36_id_chars [of gen 8 w] assms show ?thesis
    unfolding j by (auto simp: generate_base36_id_length)
qed

theorem jail_id_wellformed_witness:
  "length (jail_id (fst (jail_config_new (\<lambda>n w. (w mod n, w + 7)) 3))) = 8"
proof -
  have "\<forall>n w. 0 < n \<longrightarrow> fst (w mod n, w + 7 :: nat) < n" by simp
  from jail_id_wellformed [OF this, of 3] show ?thesis by blast
qed

text \<open>
  The command of a weak jail sees this jail's proxies under all four names, and a proxy
  exclusion list that ends with the local hosts and starts with the user's own list, unless the
  caller's extra environment sets that very variable.
\<close>

theorem weak_jail_environment:
  assumes "k \<notin> fst ` set extra_env"
  shows "child_env parent (weak_command config env_var cmd extra_env) k =
    (if k \<in> {''HTTP_PROXY'', ''http_proxy''} then Some (proxy_address (http_proxy_port config))
     else if k \<in> {''HTTPS_PROXY'', ''https_proxy''} then Some (proxy_address (https_proxy_port config))
     else if k \<in> {''NO_PROXY'', ''no_proxy''} then Some (no_proxy_hosts env_var)
     else parent k) \<and>
   suffix ''localhost,127.0.0.1,::1'' (no_proxy_hosts env_var)"
proof
  show "suffix ''localhost,127.0.0.1,::1'' (no_proxy_hosts env_var)"
    by (auto simp: no_proxy_hosts_def suffix_def Let_def split: option.splits)
qed (use env_not_set [OF assms] in \<open>simp add: child_env_def weak_command_def\<close>)

theorem weak_jail_environment_witness:
  "child_env Map.empty (weak_command
     \<lparr>http_proxy_port = 8040, https_proxy_port = 8043, jail_id = ''a'', enable_heartbeat = True,
      heartbeat_interval_secs = 1, orphan_timeout_secs = 10\<rparr> (\<lambda>_. None) [''curl''] [(''X'', ''1'')]) ''https_proxy'' =
     Some (proxy_address 8043)"
  using weak_jail_environment [of "''https_proxy''" "[(''X'', ''1'')]" Map.empty
      "\<lparr>http_proxy_port = 8040, https_proxy_port = 8043, jail_id = ''a'', enable_heartbeat = True,
      heartbeat_interval_secs = 1, orphan_timeout_secs = 10\<rparr>" "\<lambda>_. None" "[''curl'']"]
  by simp

end
