(* ===== verification/Sys_Resource.thy ===== *)
theory Sys_Resource
  imports Jail
begin

text \<open>
  \<^verbatim>\<open>src/src/sys_resource.rs\<close>: system resources that are cleaned up when their owner is dropped. The
  operating system is the parameter \<open>sys_ops\<close> over the outside world: running a command, feeding a
  command's standard input, and the few file operations the jails use. An error with context is
  modelled as the whole chain, context first, as \<open>{:#}\<close> prints it.
\<close>

section \<open>The operating system\<close>

datatype pipe_result =
    SpawnFailed string
  | WriteFailed string
  | WaitFailed string
  | Finished cmd_output

datatype rm_result = Removed | RmNotFound | RmFailed string

record 'w sys_ops =
  run :: "sys_command \<Rightarrow> ('w, cmd_output) fallible"
  pipe :: "sys_command \<Rightarrow> 'w \<Rightarrow> pipe_result \<times> 'w"
  run_status :: "sys_command \<Rightarrow> ('w, exit_status) fallible"
  create_dir_all :: "string \<Rightarrow> ('w, unit) fallible"
  write_new :: "string \<Rightarrow> string \<Rightarrow> ('w, unit) fallible"
  create_new :: "string \<Rightarrow> ('w, unit) fallible"
  remove_dir_all :: "string \<Rightarrow> 'w \<Rightarrow> rm_result \<times> 'w"
  read_link :: "string \<Rightarrow> ('w, string) fallible"
  canonicalize :: "string \<Rightarrow> ('w, string) fallible"

definition err_context :: "string \<Rightarrow> 'a result \<Rightarrow> 'a result" where
  "err_context c r = (case r of Inl e \<Rightarrow> Err (c @ '': '' @ e) | Inr x \<Rightarrow> Ok x)"

definition with_ctx :: "string \<Rightarrow> ('w, 'a) fallible \<Rightarrow> ('w, 'a) fallible" where
  "with_ctx c m w = (err_context c (fst (m w)), snd (m w))"

text \<open>The format \<^verbatim>\<open>{:?}\<close> of a string of printable ASCII, of which only the quote and the backslash are escaped.\<close>

definition debug_str :: "string \<Rightarrow> string" where
  "debug_str s =
     [CHR 0x22] @ concat (map (\<lambda>c. if c = CHR 0x22 \<or> c = CHR 0x5C then [CHR 0x5C, c] else [c]) s) @ [CHR 0x22]"

section \<open>System resources\<close>

text \<open>The trait \<open>SystemResource\<close>; \<open>cleanup\<close> takes the resource by mutable reference.\<close>

record ('r, 'w) resource_ops =
  res_create :: "string \<Rightarrow> ('w, 'r) fallible"
  res_cleanup :: "'r \<Rightarrow> 'w \<Rightarrow> unit result \<times> 'r \<times> 'w"
  res_for_existing :: "string \<Rightarrow> 'r"

record 'r managed = resource :: "'r option"

definition managed_create :: "('r, 'w) resource_ops \<Rightarrow> string \<Rightarrow> ('w, 'r managed) fallible" where
  "managed_create R jid = and_then (res_create R jid) (\<lambda>r. return_ok \<lparr>resource = Some r\<rparr>)"

definition managed_for_existing :: "('r, 'w) resource_ops \<Rightarrow> string \<Rightarrow> 'r managed" where
  "managed_for_existing R jid = \<lparr>resource = Some (res_for_existing R jid)\<rparr>"

definition from_resource :: "'r \<Rightarrow> 'r managed" where
  "from_resource r = \<lparr>resource = Some r\<rparr>"

definition managed_drop :: "('r, 'w) resource_ops \<Rightarrow> 'r managed \<Rightarrow> 'w \<Rightarrow> 'w" where
  \<comment> \<open>\<open>Drop\<close>: an error of the cleanup is logged and ignored\<close>
  "managed_drop R self w =
     (case resource self of
        Some r \<Rightarrow> (case res_cleanup R r w of (_, _, w) \<Rightarrow> w)
      | None \<Rightarrow> w)"

definition drop_option :: "('r, 'w) resource_ops \<Rightarrow> 'r managed option \<Rightarrow> 'w \<Rightarrow> 'w" where
  "drop_option R f w = (case f of Some m \<Rightarrow> managed_drop R m w | None \<Rightarrow> w)"

lemma drop_option_None [simp]: "drop_option R None w = w"
  by (simp add: drop_option_def)

text \<open>
  The contract in the trait's documentation: cleaning up is idempotent and the resource itself
  tracks whether there is still something to clean, so a second cleanup does nothing at all.
\<close>

locale system_resource =
  fixes R :: "('r, 'w) resource_ops"
  assumes cleanup_idempotent:
    "res_cleanup R r w = (Ok (), r', w') \<Longrightarrow> res_cleanup R r' v = (Ok (), r', v)"
begin

lemma drop_after_cleanup:
  assumes "res_cleanup R r w = (Ok (), r', w')"
  shows "managed_drop R \<lparr>resource = Some r'\<rparr> v = v"
  using cleanup_idempotent [OF assms] by (simp add: managed_drop_def)

lemma cleanup_twice:
  "fst (res_cleanup R r w) = Ok () \<Longrightarrow>
   (case res_cleanup R r w of (_, r', w') \<Rightarrow> res_cleanup R r' w') = res_cleanup R r w"
  by (cases "res_cleanup R r w") (auto dest: cleanup_idempotent)

end

end
