(* ===== verification/Cert_Manager.thy ===== *)
theory Cert_Manager
  imports Jail Sys_Resource
begin

text \<open>
  \<^verbatim>\<open>src/src/tls.rs\<close>: the certificate authority on disk, the certificates for intercepted hosts and their
  cache, and the environment variables that make tools trust the authority. The packages \<open>rcgen\<close> (keys
  and certificates) and \<open>lru\<close> (the cache) are parameters; a panic is the value \<^const>\<open>None\<close>.
\<close>

section \<open>Certificates\<close>

datatype dn_type = CountryName | OrganizationName | CommonName

datatype key_usage = DigitalSignature | KeyCertSign | CrlSign | KeyAgreement

text \<open>Calendar days, in the order of the calendar.\<close>

datatype date = Date (year: int) (month: nat) (day: nat)

instantiation date :: linorder
begin

definition less_eq_date :: "date \<Rightarrow> date \<Rightarrow> bool" where
  "less_eq_date a b =
     (year a < year b \<or> year a = year b \<and> (month a < month b \<or> month a = month b \<and> day a \<le> day b))"

definition less_date :: "date \<Rightarrow> date \<Rightarrow> bool" where
  "less_date a b = (a \<le> b \<and> \<not> b \<le> (a :: date))"

instance
  by standard (auto simp: less_eq_date_def less_date_def intro: date.expand)

end

record cert_params =
  is_ca :: bool
  subject_alt_names :: "string list"
  distinguished_name :: "(dn_type \<times> string) list"
  key_usages :: "key_usage list"
  server_auth :: bool
  serial_number :: "nat list option"
  not_before :: "date option"
  not_after :: "date option"

record ('k, 'c, 'w) rcgen_ops =
  default_params :: cert_params
  date_time_ymd :: "int \<Rightarrow> nat \<Rightarrow> nat \<Rightarrow> date option"
  params_new :: "string \<Rightarrow> cert_params result"
  dns_name :: "string \<Rightarrow> unit result"
  key_generate :: "('w, 'k) fallible"
  key_from_pem :: "string \<Rightarrow> 'k result"
  key_to_pem :: "'k \<Rightarrow> string"
  key_der :: "'k \<Rightarrow> string"
  private_key_der :: "string \<Rightarrow> string option"
  self_signed :: "cert_params \<Rightarrow> 'k \<Rightarrow> 'w \<Rightarrow> 'c result \<times> 'w"
  signed_by :: "cert_params \<Rightarrow> 'k \<Rightarrow> 'c \<Rightarrow> 'k \<Rightarrow> 'w \<Rightarrow> 'c result \<times> 'w"
  cert_pem :: "'c \<Rightarrow> string"
  cert_der :: "'c \<Rightarrow> string"

definition CERT_CACHE_SIZE :: nat where "CERT_CACHE_SIZE = 1024"

section \<open>The certificate authority\<close>

record 'w ca_files =
  ca_create_dir_all :: "string \<Rightarrow> ('w, unit) fallible"
  ca_exists :: "string \<Rightarrow> 'w \<Rightarrow> bool"
  ca_read :: "string \<Rightarrow> ('w, string) fallible"
  ca_write :: "string \<Rightarrow> string \<Rightarrow> ('w, unit) fallible"
  ca_permissions :: "string \<Rightarrow> ('w, nat) fallible"
  ca_set_permissions :: "string \<Rightarrow> nat \<Rightarrow> ('w, unit) fallible"

definition ca_params :: "('k, 'c, 'w) rcgen_ops \<Rightarrow> cert_params" where
  "ca_params G =
     (default_params G)\<lparr>is_ca := True,
       distinguished_name := [(CountryName, ''US''), (OrganizationName, ''httpjail''), (CommonName, ''httpjail CA'')],
       key_usages := [DigitalSignature, KeyCertSign, CrlSign]\<rparr>"

definition httpjail_config_dir :: "string option \<Rightarrow> string result" where
  "httpjail_config_dir config_dir =
     (case config_dir of
        None \<Rightarrow> Err ''Could not find user config directory''
      | Some d \<Rightarrow>
          (if valid_utf8 (path_join d ''httpjail'') then Ok (path_join d ''httpjail'')
           else Err ''Config directory path is not valid UTF-8''))"

definition load_ca ::
  "('k, 'c, 'w) rcgen_ops \<Rightarrow> 'w ca_files \<Rightarrow> string \<Rightarrow> string \<Rightarrow> ('w, 'c \<times> 'k) fallible" where
  "load_ca G F cert_path key_path =
     and_then (with_ctx ''Failed to read CA certificate'' (ca_read F cert_path)) (\<lambda>_.
     and_then (with_ctx ''Failed to read CA key'' (ca_read F key_path)) (\<lambda>key_pem.
     and_then (\<lambda>w. (err_context ''Failed to parse CA key'' (key_from_pem G key_pem), w)) (\<lambda>key_pair.
     and_then (with_ctx ''Failed to recreate CA certificate'' (self_signed G (ca_params G) key_pair)) (\<lambda>ca_cert.
       return_ok (ca_cert, key_pair)))))"

definition generate_ca ::
  "('k, 'c, 'w) rcgen_ops \<Rightarrow> 'w ca_files \<Rightarrow> string \<Rightarrow> string \<Rightarrow> ('w, 'c \<times> 'k) fallible" where
  "generate_ca G F cert_path key_path =
     and_then (key_generate G) (\<lambda>ca_key_pair.
     and_then (with_ctx ''Failed to generate CA certificate'' (self_signed G (ca_params G) ca_key_pair)) (\<lambda>ca_cert.
     and_then (with_ctx ''Failed to write CA certificate'' (ca_write F cert_path (cert_pem G ca_cert))) (\<lambda>_.
     and_then (with_ctx ''Failed to write CA key'' (ca_write F key_path (key_to_pem G ca_key_pair))) (\<lambda>_.
     and_then (ca_permissions F key_path) (\<lambda>_.
     and_then (ca_set_permissions F key_path 384) (\<lambda>_.
       return_ok (ca_cert, ca_key_pair)))))))"

definition load_or_generate_ca_with_dir ::
  "('k, 'c, 'w) rcgen_ops \<Rightarrow> 'w ca_files \<Rightarrow> string option \<Rightarrow> string option \<Rightarrow> ('w, 'c \<times> 'k) fallible" where
  \<comment> \<open>the user's configuration directory, and the directory given by the caller, which takes precedence\<close>
  "load_or_generate_ca_with_dir G F user_dir config_dir =
     and_then (\<lambda>w. (case config_dir of Some d \<Rightarrow> Ok d | None \<Rightarrow> httpjail_config_dir user_dir, w)) (\<lambda>dir.
     and_then (with_ctx ''Failed to create config directory'' (ca_create_dir_all F dir)) (\<lambda>_ w.
       let cert_path = path_join dir ''ca-cert.pem''; key_path = path_join dir ''ca-key.pem''
       in if ca_exists F cert_path w \<and> ca_exists F key_path w
          then load_ca G F cert_path key_path w
          else generate_ca G F cert_path key_path w))"

section \<open>Certificates for hosts\<close>

record ('l, 'v) lru_ops =
  lru_get :: "string \<Rightarrow> 'l \<Rightarrow> 'v option \<times> 'l"
  lru_put :: "string \<Rightarrow> 'v \<Rightarrow> 'l \<Rightarrow> 'l"

record ('k, 'c, 'l) cert_manager =
  ca_cert :: 'c
  ca_key_pair :: 'k
  server_key_pair :: 'k
  server_key_der :: string
  cert_cache :: 'l
  custom_dir :: "string option"

definition with_config_dir ::
  "('k, 'c, 'w) rcgen_ops \<Rightarrow> 'w ca_files \<Rightarrow> (nat \<Rightarrow> 'l) \<Rightarrow> string option \<Rightarrow> string option \<Rightarrow>
     ('w, ('k, 'c, 'l) cert_manager) fallible" where
  "with_config_dir G F new_cache user_dir config_dir =
     and_then (load_or_generate_ca_with_dir G F user_dir config_dir) (\<lambda>(cert, key).
     and_then (with_ctx ''Failed to generate server key pair'' (key_generate G)) (\<lambda>server_key w.
       case private_key_der G (key_der G server_key) of
         None \<Rightarrow> (Err ''Failed to convert private key to DER'', w)
       | Some der \<Rightarrow>
           (Ok \<lparr>ca_cert = cert, ca_key_pair = key, server_key_pair = server_key, server_key_der = der,
                cert_cache = new_cache CERT_CACHE_SIZE, custom_dir = config_dir\<rparr>, w)))"

definition cert_manager_new ::
  "('k, 'c, 'w) rcgen_ops \<Rightarrow> 'w ca_files \<Rightarrow> (nat \<Rightarrow> 'l) \<Rightarrow> string option \<Rightarrow> ('w, ('k, 'c, 'l) cert_manager) fallible" where
  "cert_manager_new G F new_cache user_dir = with_config_dir G F new_cache user_dir None"

definition get_ca_cert_pem :: "('k, 'c, 'w) rcgen_ops \<Rightarrow> ('k, 'c, 'l) cert_manager \<Rightarrow> string" where
  "get_ca_cert_pem G self = cert_pem G (ca_cert self)"

definition get_ca_cert_der :: "('k, 'c, 'w) rcgen_ops \<Rightarrow> ('k, 'c, 'l) cert_manager \<Rightarrow> string" where
  "get_ca_cert_der G self = cert_der G (ca_cert self)"

definition end_year :: "date \<Rightarrow> int" where
  "end_year now = min (year now + 1) 2049"

definition server_params :: "cert_params \<Rightarrow> string \<Rightarrow> date \<Rightarrow> date \<Rightarrow> cert_params" where
  "server_params p hostname from_date to_date =
     p\<lparr>subject_alt_names := [hostname], distinguished_name := [(CommonName, hostname)],
       key_usages := [DigitalSignature, KeyAgreement], server_auth := True, serial_number := Some [1, 2, 3, 4],
       not_before := Some from_date, not_after := Some to_date\<rparr>"

definition generate_for_host ::
  "('k, 'c, 'w) rcgen_ops \<Rightarrow> date \<Rightarrow> ('k, 'c, 'l) cert_manager \<Rightarrow> string \<Rightarrow> 'w \<Rightarrow> (string list result \<times> 'w) option" where
  "generate_for_host G now self hostname w =
     (case err_context ''Failed to create certificate params'' (params_new G hostname) of
        Inl e \<Rightarrow> Some (Err e, w)
      | Inr p \<Rightarrow>
          (case dns_name G hostname of
             Inl e \<Rightarrow> Some (Err e, w)
           | Inr _ \<Rightarrow>
               (case date_time_ymd G (year now) (month now) (day now) of
                  None \<Rightarrow> None
                | Some from_date \<Rightarrow>
                    (case date_time_ymd G (end_year now) (month now) (day now) of
                       None \<Rightarrow> None
                     | Some to_date \<Rightarrow>
                         (case signed_by G (server_params p hostname from_date to_date) (server_key_pair self)
                                 (ca_cert self) (ca_key_pair self) w of
                            (Inl e, w) \<Rightarrow> Some (Err e, w)
                          | (Inr cert, w) \<Rightarrow> Some (Ok [cert_der G cert, cert_der G (ca_cert self)], w))))))"

definition get_cert_for_host ::
  "('k, 'c, 'w) rcgen_ops \<Rightarrow> ('l, string list) lru_ops \<Rightarrow> date \<Rightarrow> ('k, 'c, 'l) cert_manager \<Rightarrow> string \<Rightarrow> 'w \<Rightarrow>
     ((string list \<times> string) result \<times> ('k, 'c, 'l) cert_manager \<times> 'w) option" where
  "get_cert_for_host G L now self hostname w =
     (case lru_get L hostname (cert_cache self) of
        (Some cert_chain, cache) \<Rightarrow>
          Some (Ok (cert_chain, server_key_der self), self\<lparr>cert_cache := cache\<rparr>, w)
      | (None, cache) \<Rightarrow>
          (let self = self\<lparr>cert_cache := cache\<rparr>
           in case generate_for_host G now self hostname w of
                None \<Rightarrow> None
              | Some (Inl e, w) \<Rightarrow> Some (Err e, self, w)
              | Some (Inr cert_chain, w) \<Rightarrow>
                  Some (Ok (cert_chain, server_key_der self),
                        self\<lparr>cert_cache := lru_put L hostname cert_chain (cert_cache self)\<rparr>, w)))"

section \<open>Variables for tools\<close>

definition get_ca_cert_path :: "string option \<Rightarrow> string result" where
  "get_ca_cert_path user_dir =
     (case httpjail_config_dir user_dir of Inl e \<Rightarrow> Err e | Inr dir \<Rightarrow> Ok (path_join dir ''ca-cert.pem''))"

definition possible_paths :: "string option \<Rightarrow> string option \<Rightarrow> string list" where
  "possible_paths sudo_user home_dir =
     (case (sudo_user, home_dir) of
        (Some user, Some home) \<Rightarrow>
          [path_join (path_join (case path_parent home of Some p \<Rightarrow> p | None \<Rightarrow> home) user) ''.config/httpjail/ca-cert.pem'']
      | _ \<Rightarrow> []) @
     [''/home/runner/.config/httpjail/ca-cert.pem'', ''/root/.config/httpjail/ca-cert.pem'']"

definition find_ca_path :: "(string \<Rightarrow> bool) \<Rightarrow> string list \<Rightarrow> string \<Rightarrow> string result" where
  "find_ca_path exists paths ca_path =
     (if exists ca_path then Ok ca_path
      else case find exists paths of
             Some p \<Rightarrow> (if valid_utf8 p then Ok p else Err ''CA cert path is not valid UTF-8'')
           | None \<Rightarrow>
               Err (''CA certificate not found. Searched: '' @ debug_str ca_path @ '' and common locations''))"

definition ca_env_vars :: "string \<Rightarrow> (string \<times> string) list" where
  "ca_env_vars ca_path =
     (let ca_dir = (case path_parent ca_path of Some p \<Rightarrow> p | None \<Rightarrow> ''.'')
      in [(''SSL_CERT_FILE'', ca_path), (''SSL_CERT_DIR'', ca_dir), (''CURL_CA_BUNDLE'', ca_path),
          (''GIT_SSL_CAINFO'', ca_path), (''REQUESTS_CA_BUNDLE'', ca_path), (''NODE_EXTRA_CA_CERTS'', ca_path),
          (''DENO_CERT'', ca_path)])"

definition get_ca_env_vars ::
  "(string \<Rightarrow> bool) \<Rightarrow> string option \<Rightarrow> string option \<Rightarrow> string option \<Rightarrow> (string \<times> string) list result" where
  "get_ca_env_vars exists user_dir sudo_user home_dir =
     (case get_ca_cert_path user_dir of
        Inl e \<Rightarrow> Err e
      | Inr ca_path \<Rightarrow>
          (case find_ca_path exists (possible_paths sudo_user home_dir) ca_path of
             Inl e \<Rightarrow> Err e
           | Inr p \<Rightarrow> Ok (ca_env_vars p)))"

section \<open>Dates\<close>

definition leap_year :: "int \<Rightarrow> bool" where
  "leap_year y = (4 dvd y \<and> (\<not> 100 dvd y \<or> 400 dvd y))"

definition days_in_month :: "int \<Rightarrow> nat \<Rightarrow> nat" where
  "days_in_month y m =
     (if m = 2 then (if leap_year y then 29 else 28) else if m \<in> {4, 6, 9, 11} then 30 else 31)"

definition valid_date :: "date \<Rightarrow> bool" where
  "valid_date d = (1 \<le> month d \<and> month d \<le> 12 \<and> 1 \<le> day d \<and> day d \<le> days_in_month (year d) (month d))"

text \<open>
  What the code relies on for \<open>rcgen::date_time_ymd\<close>: within the years of the package \<open>time\<close> it gives the
  requested calendar day and panics on a day that the calendar does not have.
\<close>

definition rcgen_calendar :: "('k, 'c, 'w) rcgen_ops \<Rightarrow> bool" where
  "rcgen_calendar G =
     (\<forall>d. \<bar>year d\<bar> \<le> 9999 \<longrightarrow>
        date_time_ymd G (year d) (month d) (day d) = (if valid_date d then Some d else None))"

lemma leap_year_next: "leap_year y \<Longrightarrow> \<not> leap_year (y + 1)"
proof -
  assume "leap_year y"
  then have "4 dvd y" by (simp add: leap_year_def)
  then have "\<not> 4 dvd y + 1" by presburger
  then show ?thesis by (simp add: leap_year_def)
qed

lemma end_year_not_leap: "leap_year (year d) \<Longrightarrow> \<not> leap_year (end_year d)"
  using leap_year_next [of "year d"] by (simp add: end_year_def min_def leap_year_def)

definition leap_day :: "date \<Rightarrow> bool" where
  "leap_day d = (month d = 2 \<and> day d = 29)"

definition anniversary :: "date \<Rightarrow> date" where
  "anniversary d = Date (end_year d) (month d) (day d)"

lemma anniversary_sel [simp]:
  "year (anniversary d) = end_year d" "month (anniversary d) = month d" "day (anniversary d) = day d"
  by (simp_all add: anniversary_def)

lemma anniversary_valid: "valid_date d \<Longrightarrow> valid_date (anniversary d) \<longleftrightarrow> \<not> leap_day d"
  using end_year_not_leap [of d]
  by (auto simp: valid_date_def leap_day_def days_in_month_def split: if_splits)

lemma end_year_range: "\<bar>year d\<bar> \<le> 9999 \<Longrightarrow> \<bar>end_year d\<bar> \<le> 9999"
  by (auto simp: end_year_def)

lemma calendar_today:
  assumes "rcgen_calendar G" and "valid_date d" and "\<bar>year d\<bar> \<le> 9999"
  shows "date_time_ymd G (year d) (month d) (day d) = Some d"
    and "date_time_ymd G (end_year d) (month d) (day d) = (if leap_day d then None else Some (anniversary d))"
proof -
  from assms show "date_time_ymd G (year d) (month d) (day d) = Some d" by (simp add: rcgen_calendar_def)
  have "date_time_ymd G (end_year d) (month d) (day d) =
      (if valid_date (anniversary d) then Some (anniversary d) else None)"
    using assms(1) end_year_range [OF assms(3)] unfolding rcgen_calendar_def
    by (metis anniversary_sel)
  then show "date_time_ymd G (end_year d) (month d) (day d) = (if leap_day d then None else Some (anniversary d))"
    by (simp add: anniversary_valid [OF assms(2)])
qed

lemma generate_for_host_accepted:
  assumes "rcgen_calendar G" and "valid_date today" and "\<bar>year today\<bar> \<le> 9999"
    and "params_new G hostname = Ok p" and "dns_name G hostname = Ok u"
  shows "generate_for_host G today m hostname w =
     (if leap_day today then None
      else case signed_by G (server_params p hostname today (anniversary today)) (server_key_pair m) (ca_cert m)
                  (ca_key_pair m) w of
             (Inl e, w) \<Rightarrow> Some (Err e, w)
           | (Inr cert, w) \<Rightarrow> Some (Ok [cert_der G cert, cert_der G (ca_cert m)], w))"
  using assms(4,5) by (simp add: generate_for_host_def err_context_def calendar_today [OF assms(1-3)])

text \<open>
  (C35) Under the calendar of \<open>rcgen\<close>, for a host name that \<open>rcgen\<close> takes and a day of the calendar, generating
  a certificate panics exactly on the 29th of February. A chain that it returns starts with a certificate that was
  signed for exactly this host, valid from today until a day of the calendar that is never in 2050 or later, lies
  after today as long as the year is before 2049, and is then the same day of the next year.
\<close>

theorem certificate_validity:
  assumes "rcgen_calendar G" and "valid_date today" and "\<bar>year today\<bar> \<le> 9999"
    and "params_new G hostname = Ok p" and "dns_name G hostname = Ok u"
  shows "(generate_for_host G today m hostname w = None \<longleftrightarrow> month today = 2 \<and> day today = 29) \<and>
    (\<forall>chain w'. generate_for_host G today m hostname w = Some (Ok chain, w') \<longrightarrow>
       (\<exists>q cert until. signed_by G q (server_key_pair m) (ca_cert m) (ca_key_pair m) w = (Ok cert, w') \<and>
          hd chain = cert_der G cert \<and> subject_alt_names q = [hostname] \<and>
          not_before q = Some today \<and> not_after q = Some until \<and> valid_date until \<and> year until < 2050 \<and>
          (year today < 2049 \<longrightarrow> today < until \<and> until = Date (year today + 1) (month today) (day today))))"
proof (intro conjI allI impI)
  note g = generate_for_host_accepted [OF assms]
  show "generate_for_host G today m hostname w = None \<longleftrightarrow> month today = 2 \<and> day today = 29"
    unfolding g by (auto simp: leap_day_def split: sum.splits prod.splits)
  fix chain w' assume "generate_for_host G today m hostname w = Some (Ok chain, w')"
  then obtain cert where "\<not> leap_day today"
    "signed_by G (server_params p hostname today (anniversary today)) (server_key_pair m) (ca_cert m) (ca_key_pair m) w =
       (Ok cert, w')" "chain = [cert_der G cert, cert_der G (ca_cert m)]"
    unfolding g by (auto split: if_splits sum.splits prod.splits)
  then show "\<exists>q cert until. signed_by G q (server_key_pair m) (ca_cert m) (ca_key_pair m) w = (Ok cert, w') \<and>
      hd chain = cert_der G cert \<and> subject_alt_names q = [hostname] \<and>
      not_before q = Some today \<and> not_after q = Some until \<and> valid_date until \<and> year until < 2050 \<and>
      (year today < 2049 \<longrightarrow> today < until \<and> until = Date (year today + 1) (month today) (day today))"
    using anniversary_valid [OF assms(2)]
    by (intro exI [of _ "server_params p hostname today (anniversary today)"] exI [of _ cert]
        exI [of _ "anniversary today"])
      (auto simp: server_params_def end_year_def anniversary_def less_date_def less_eq_date_def)
qed

section \<open>The certificate cache\<close>

text \<open>
  What the cache of the package \<open>lru\<close> promises: a lookup returns the entry of the key and keeps every entry, an
  insertion adds the entry, may evict others and changes none, and there are never more entries than the
  capacity.
\<close>

locale lru_cache =
  fixes L :: "('l, string list) lru_ops"
    and new_cache :: "nat \<Rightarrow> 'l"
    and entries :: "'l \<Rightarrow> string \<Rightarrow> string list option"
    and capacity :: "'l \<Rightarrow> nat"
  assumes new_empty: "0 < n \<Longrightarrow> entries (new_cache n) = (\<lambda>_. None) \<and> capacity (new_cache n) = n"
    and get_entry: "lru_get L k l = (r, l') \<Longrightarrow> r = entries l k \<and> entries l' = entries l \<and> capacity l' = capacity l"
    and put_entry: "entries (lru_put L k v l) k = Some v"
    and put_others: "j \<noteq> k \<Longrightarrow> entries (lru_put L k v l) j = None \<or> entries (lru_put L k v l) j = entries l j"
    and put_capacity: "capacity (lru_put L k v l) = capacity l"
    and bounded: "finite (dom (entries l)) \<and> card (dom (entries l)) \<le> capacity l"

text \<open>A chain that this manager issued for a host: a certificate for that name signed by its authority.\<close>

definition issued :: "('k, 'c, 'w) rcgen_ops \<Rightarrow> ('k, 'c, 'l) cert_manager \<Rightarrow> string \<Rightarrow> string list \<Rightarrow> bool" where
  "issued G m hostname chain =
     (\<exists>p today until d1 d2 w w' cert.
        date_time_ymd G (year today) (month today) (day today) = Some d1 \<and>
        date_time_ymd G (year until) (month until) (day until) = Some d2 \<and>
        year until = min (year today + 1) 2049 \<and> month until = month today \<and> day until = day today \<and>
        signed_by G (server_params p hostname d1 d2) (server_key_pair m) (ca_cert m) (ca_key_pair m) w = (Ok cert, w') \<and>
        chain = [cert_der G cert, cert_der G (ca_cert m)])"

lemma issued_cache [simp]: "issued G (m\<lparr>cert_cache := l\<rparr>) = issued G m"
  by (simp add: issued_def fun_eq_iff)

lemma generate_for_host_issued:
  assumes "generate_for_host G today m hostname w = Some (Ok chain, w')"
  shows "issued G m hostname chain"
proof -
  from assms obtain p d1 d2 cert where
    "date_time_ymd G (year today) (month today) (day today) = Some d1"
    "date_time_ymd G (end_year today) (month today) (day today) = Some d2"
    "signed_by G (server_params p hostname d1 d2) (server_key_pair m) (ca_cert m) (ca_key_pair m) w = (Ok cert, w')"
    "chain = [cert_der G cert, cert_der G (ca_cert m)]"
    unfolding generate_for_host_def by (auto split: sum.splits option.splits prod.splits)
  then show ?thesis
    unfolding issued_def
    by (intro exI [of _ p] exI [of _ today] exI [of _ "anniversary today"] exI [of _ d1] exI [of _ d2] exI [of _ w]
        exI [of _ w'] exI [of _ cert]) (simp add: end_year_def)
qed

definition cache_issued ::
  "('k, 'c, 'w) rcgen_ops \<Rightarrow> ('l \<Rightarrow> string \<Rightarrow> string list option) \<Rightarrow> ('k, 'c, 'l) cert_manager \<Rightarrow> bool" where
  "cache_issued G entries m = (\<forall>h chain. entries (cert_cache m) h = Some chain \<longrightarrow> issued G m h chain)"

context lru_cache
begin

lemma put_issued:
  assumes "\<And>h chain. entries l h = Some chain \<Longrightarrow> Q h chain" and "Q k v"
    and "entries (lru_put L k v l) h = Some chain"
  shows "Q h chain"
  using assms put_entry [of k v l] put_others [of h k v l] by (cases "h = k") auto

lemma get_cert_cases:
  assumes "get_cert_for_host G L today m hostname w = Some (r, m', w')"
  obtains (hit) chain l where "entries (cert_cache m) hostname = Some chain" "entries l = entries (cert_cache m)"
      "capacity l = capacity (cert_cache m)"
      "r = Ok (chain, server_key_der m)" "m' = m\<lparr>cert_cache := l\<rparr>" "w' = w"
  | (fail) e l where "r = Err e" "m' = m\<lparr>cert_cache := l\<rparr>" "entries l = entries (cert_cache m)"
      "capacity l = capacity (cert_cache m)"
  | (fresh) chain l where "issued G m hostname chain" "entries l = entries (cert_cache m)"
      "capacity l = capacity (cert_cache m)"
      "r = Ok (chain, server_key_der m)" "m' = m\<lparr>cert_cache := lru_put L hostname chain l\<rparr>"
proof -
  obtain v l where g: "lru_get L hostname (cert_cache m) = (v, l)" by fastforce
  note e = get_entry [OF g]
  show ?thesis
  proof (cases v)
    case (Some chain)
    then show ?thesis using assms g e hit [of chain l] by (auto simp: get_cert_for_host_def)
  next
    case None
    then show ?thesis using assms g e fail fresh generate_for_host_issued [of G today "m\<lparr>cert_cache := l\<rparr>" hostname w]
      by (auto simp: get_cert_for_host_def Let_def split: option.splits prod.splits sum.splits)
  qed
qed

lemma get_cert_for_host_sound:
  assumes "get_cert_for_host G L today m hostname w = Some (r, m', w')" and "cache_issued G entries m"
  shows "cache_issued G entries m' \<and> issued G m' = issued G m \<and> server_key_der m' = server_key_der m \<and>
     capacity (cert_cache m') = capacity (cert_cache m) \<and>
     (\<forall>chain key. r = Ok (chain, key) \<longrightarrow> issued G m hostname chain \<and> key = server_key_der m)"
  using assms(1)
proof (cases rule: get_cert_cases)
  case (fresh c l)
  then show ?thesis
    using assms(2) put_issued [of l "issued G m" hostname c] by (auto simp: cache_issued_def put_capacity)
qed (use assms(2) in \<open>auto simp: cache_issued_def\<close>)

lemma get_cert_for_host_hit:
  assumes "get_cert_for_host G L today m hostname w = Some (Ok (chain, key), m', w')"
  shows "\<exists>m''. get_cert_for_host G L today' m' hostname v = Some (Ok (chain, key), m'', v)"
proof -
  have "entries (cert_cache m') hostname = Some chain \<and> server_key_der m' = key"
    using assms by (cases rule: get_cert_cases) (auto simp: put_entry)
  then show ?thesis
    using get_entry [of hostname "cert_cache m'"]
    by (cases "lru_get L hostname (cert_cache m')") (auto simp: get_cert_for_host_def split: option.split)
qed

end

text \<open>
  A least-recently-used list with these laws: the capacity less one, and the entries, the most recently used
  one first.
\<close>

type_synonym 'v lru_list = "nat \<times> (string \<times> 'v) list"

definition lru_list_new :: "nat \<Rightarrow> 'v lru_list" where
  "lru_list_new n = (n - 1, [])"

definition lru_list_entries :: "'v lru_list \<Rightarrow> string \<Rightarrow> 'v option" where
  "lru_list_entries l = map_of (take (Suc (fst l)) (snd l))"

definition lru_list :: "('v lru_list, 'v) lru_ops" where
  "lru_list =
     \<lparr>lru_get = (\<lambda>k (n, xs).
        (case map_of (take (Suc n) xs) k of
           None \<Rightarrow> (None, (n, xs))
         | Some v \<Rightarrow> (Some v, (n, (k, v) # filter (\<lambda>(j, _). j \<noteq> k) (take (Suc n) xs))))),
      lru_put = (\<lambda>k v (n, xs). (n, (k, v) # take n (filter (\<lambda>(j, _). j \<noteq> k) (take (Suc n) xs))))\<rparr>"

lemma map_of_without: "map_of (filter (\<lambda>(j, _). j \<noteq> k) xs) = (map_of xs)(k := None)"
  by (induction xs) auto

lemma length_without: "map_of xs k \<noteq> None \<Longrightarrow> length (filter (\<lambda>(j, _). j \<noteq> k) xs) < length xs"
  by (rule length_filter_less [of "(k, the (map_of xs k))"]) (auto dest: map_of_SomeD)

lemma map_of_take: "map_of (take n xs) j = None \<or> map_of (take n xs) j = map_of xs j"
  by (induction xs arbitrary: n) (auto simp: take_Cons split: nat.split)

lemma lru_list_get:
  assumes "lru_get lru_list k l = (r, l')"
  shows "r = lru_list_entries l k \<and> lru_list_entries l' = lru_list_entries l \<and> fst l' = fst l"
proof (cases "lru_list_entries l k")
  case None
  then show ?thesis using assms by (cases l) (auto simp: lru_list_def lru_list_entries_def)
next
  case (Some v)
  define ys where "ys = take (Suc (fst l)) (snd l)"
  have m: "map_of ys k = Some v" using Some by (simp add: lru_list_entries_def ys_def)
  have "length (filter (\<lambda>(j, _). j \<noteq> k) ys) \<le> fst l"
    using length_without [of ys k] m by (simp add: ys_def min_def split: if_splits)
  moreover have "r = Some v" "l' = (fst l, (k, v) # filter (\<lambda>(j, _). j \<noteq> k) ys)"
    using assms m by (cases l; simp add: lru_list_def ys_def)+
  ultimately show ?thesis
    using m by (auto simp: lru_list_entries_def map_of_without ys_def [symmetric] fun_eq_iff)
qed

lemma lru_list_put_others:
  "j \<noteq> k \<Longrightarrow> lru_list_entries (lru_put lru_list k v l) j = None \<or>
     lru_list_entries (lru_put lru_list k v l) j = lru_list_entries l j"
proof -
  obtain n xs where l: "l = (n, xs)" by (cases l)
  assume "j \<noteq> k"
  then show ?thesis
    using map_of_take [of n "filter (\<lambda>(i, _). i \<noteq> k) (take (Suc n) xs)" j]
    by (auto simp: l lru_list_def lru_list_entries_def map_of_without)
qed

interpretation lru_list: lru_cache lru_list lru_list_new lru_list_entries "\<lambda>l. Suc (fst l)"
proof
  fix l :: "string list lru_list"
  show "finite (dom (lru_list_entries l)) \<and> card (dom (lru_list_entries l)) \<le> Suc (fst l)"
    using card_length [of "map fst (take (Suc (fst l)) (snd l))"]
    by (simp add: lru_list_entries_def dom_map_of_conv_image_fst del: take_Suc_Cons)
next
  fix k r and l l' :: "string list lru_list"
  assume "lru_get lru_list k l = (r, l')"
  then show "r = lru_list_entries l k \<and> lru_list_entries l' = lru_list_entries l \<and> Suc (fst l') = Suc (fst l)"
    using lru_list_get [of k l r l'] by simp
next
  fix j k :: string and v and l :: "string list lru_list"
  assume "j \<noteq> k"
  then show "lru_list_entries (lru_put lru_list k v l) j = None \<or>
      lru_list_entries (lru_put lru_list k v l) j = lru_list_entries l j"
    by (rule lru_list_put_others)
qed (auto simp: lru_list_new_def lru_list_entries_def lru_list_def)

text \<open>
  The connection tasks share the manager; each call holds the lock of the cache for its lookup and again for its
  insertion, and other tasks may run in between. A panic ends the task and leaves the cache as it is.
\<close>

datatype cert_task =
    Free
  | Waiting string
  | Missed string
  | Generated string "string list"
  | Served string "(string list \<times> string) result"
  | Panicked string

inductive cert_reach ::
  "('k, 'c, 'w) rcgen_ops \<Rightarrow> ('l, string list) lru_ops \<Rightarrow> ('k, 'c, 'l) cert_manager \<Rightarrow>
     ('k, 'c, 'l) cert_manager \<Rightarrow> (nat \<Rightarrow> cert_task) \<Rightarrow> bool"
  for G L m\<^sub>0 where
  start: "cert_reach G L m\<^sub>0 m\<^sub>0 (\<lambda>_. Free)"
| arrive: "cert_reach G L m\<^sub>0 m ts \<Longrightarrow> ts t = Free \<or> ts t = Served h' r \<Longrightarrow> cert_reach G L m\<^sub>0 m (ts(t := Waiting h))"
| hit: "cert_reach G L m\<^sub>0 m ts \<Longrightarrow> ts t = Waiting h \<Longrightarrow> lru_get L h (cert_cache m) = (Some chain, l) \<Longrightarrow>
    cert_reach G L m\<^sub>0 (m\<lparr>cert_cache := l\<rparr>) (ts(t := Served h (Ok (chain, server_key_der m))))"
| miss: "cert_reach G L m\<^sub>0 m ts \<Longrightarrow> ts t = Waiting h \<Longrightarrow> lru_get L h (cert_cache m) = (None, l) \<Longrightarrow>
    cert_reach G L m\<^sub>0 (m\<lparr>cert_cache := l\<rparr>) (ts(t := Missed h))"
| generate: "cert_reach G L m\<^sub>0 m ts \<Longrightarrow> ts t = Missed h \<Longrightarrow> generate_for_host G today m h w = Some (Ok chain, w') \<Longrightarrow>
    cert_reach G L m\<^sub>0 m (ts(t := Generated h chain))"
| fail: "cert_reach G L m\<^sub>0 m ts \<Longrightarrow> ts t = Missed h \<Longrightarrow> generate_for_host G today m h w = Some (Err e, w') \<Longrightarrow>
    cert_reach G L m\<^sub>0 m (ts(t := Served h (Err e)))"
| panic: "cert_reach G L m\<^sub>0 m ts \<Longrightarrow> ts t = Missed h \<Longrightarrow> generate_for_host G today m h w = None \<Longrightarrow>
    cert_reach G L m\<^sub>0 m (ts(t := Panicked h))"
| insert: "cert_reach G L m\<^sub>0 m ts \<Longrightarrow> ts t = Generated h chain \<Longrightarrow>
    cert_reach G L m\<^sub>0 (m\<lparr>cert_cache := lru_put L h chain (cert_cache m)\<rparr>)
      (ts(t := Served h (Ok (chain, server_key_der m))))"

context lru_cache
begin

definition cert_inv where
  "cert_inv G m\<^sub>0 m ts \<longleftrightarrow>
     (\<exists>l. m = m\<^sub>0\<lparr>cert_cache := l\<rparr> \<and> capacity l = capacity (cert_cache m\<^sub>0)) \<and> cache_issued G entries m \<and>
     (\<forall>t h chain. ts t = Generated h chain \<longrightarrow> issued G m\<^sub>0 h chain) \<and>
     (\<forall>t h chain key. ts t = Served h (Ok (chain, key)) \<longrightarrow> issued G m\<^sub>0 h chain \<and> key = server_key_der m\<^sub>0)"

lemma cert_reach_inv:
  assumes "cert_reach G L m\<^sub>0 m ts" and "cache_issued G entries m\<^sub>0"
  shows "cert_inv G m\<^sub>0 m ts"
  using assms(1)
proof induction
  case start
  have "m\<^sub>0 = m\<^sub>0\<lparr>cert_cache := cert_cache m\<^sub>0\<rparr>" by simp
  with assms(2) show ?case unfolding cert_inv_def by force
next
  case (arrive m ts t h' r h)
  then show ?case by (simp add: cert_inv_def)
next
  case (hit m ts t h chain l)
  then show ?case using get_entry [OF hit.hyps(3)] by (auto simp: cert_inv_def cache_issued_def)
next
  case (miss m ts t h l)
  then show ?case using get_entry [OF miss.hyps(3)] by (auto simp: cert_inv_def cache_issued_def)
next
  case (generate m ts t h today w chain w')
  then show ?case using generate_for_host_issued [OF generate.hyps(3)] by (auto simp: cert_inv_def)
next
  case (fail m ts t h today w e w')
  then show ?case by (simp add: cert_inv_def)
next
  case (panic m ts t h today w)
  then show ?case by (simp add: cert_inv_def)
next
  case (insert m ts t h chain)
  then show ?case using put_issued [of "cert_cache m" "issued G m\<^sub>0" h chain]
    by (auto simp: cert_inv_def cache_issued_def put_capacity)
qed

end

section \<open>The stored authority\<close>

text \<open>
  What the code relies on of the file system and of \<open>rcgen\<close>: successful writes are seen by \<open>exists\<close> and by
  successful reads, nothing else changes the files, and a key survives being written as PEM.
\<close>

locale ca_store =
  fixes G :: "('k, 'c, 'w) rcgen_ops" and F :: "'w ca_files" and files :: "'w \<Rightarrow> string \<Rightarrow> string option"
  assumes exists_file: "ca_exists F path w \<longleftrightarrow> files w path \<noteq> None"
    and read_file: "ca_read F path w = (Ok text, w') \<Longrightarrow> files w path = Some text \<and> files w' = files w"
    and write_file: "ca_write F path text w = (Ok u, w') \<Longrightarrow> files w' = (files w)(path \<mapsto> text)"
    and mkdir_files: "ca_create_dir_all F path w = (Ok u, w') \<Longrightarrow> files w' = files w"
    and stat_files: "ca_permissions F path w = (Ok mode, w') \<Longrightarrow> files w' = files w"
    and chmod_files: "ca_set_permissions F path mode w = (Ok u, w') \<Longrightarrow> files w' = files w"
    and generate_files: "key_generate G w = (Ok key, w') \<Longrightarrow> files w' = files w"
    and sign_files: "self_signed G params key w = (Ok cert, w') \<Longrightarrow> files w' = files w"
    and pem_key: "key_from_pem G (key_to_pem G key) = Ok key"

lemma with_ctx_ok: "with_ctx c m w = (Ok x, w') \<longleftrightarrow> m w = (Ok x, w')"
  by (cases "m w") (auto simp: with_ctx_def err_context_def split: sum.splits)

lemma err_context_ok: "err_context c r = Ok x \<longleftrightarrow> r = Ok x"
  by (auto simp: err_context_def split: sum.splits)

lemma path_join_inj: "\<not> starts_with a ''/'' \<Longrightarrow> \<not> starts_with b ''/'' \<Longrightarrow> path_join d a = path_join d b \<longleftrightarrow> a = b"
  by (auto simp: path_join_def)

definition ca_cert_file :: "string \<Rightarrow> string" where "ca_cert_file dir = path_join dir ''ca-cert.pem''"
definition ca_key_file :: "string \<Rightarrow> string" where "ca_key_file dir = path_join dir ''ca-key.pem''"

lemma ca_files_distinct: "ca_cert_file dir \<noteq> ca_key_file dir"
  by (simp add: ca_cert_file_def ca_key_file_def path_join_inj starts_with_def)

definition ca_dir :: "string option \<Rightarrow> string option \<Rightarrow> string result" where
  "ca_dir user_dir config_dir = (case config_dir of Some d \<Rightarrow> Ok d | None \<Rightarrow> httpjail_config_dir user_dir)"

context ca_store
begin

lemma load_ca_ok:
  assumes "load_ca G F cert_path key_path w = (Ok (cert, key), w')"
  shows "files w' = files w \<and> (\<exists>pem. files w key_path = Some pem \<and> key_from_pem G pem = Ok key)"
  using assms
  by (auto simp: load_ca_def and_then_ok with_ctx_ok err_context_ok return_ok_def dest!: read_file sign_files)

lemma generate_ca_ok:
  assumes "generate_ca G F cert_path key_path w = (Ok (cert, key), w')"
  shows "files w' = (files w)(cert_path \<mapsto> cert_pem G cert, key_path \<mapsto> key_to_pem G key)"
  using assms
  by (auto simp: generate_ca_def and_then_ok with_ctx_ok return_ok_def
      dest!: write_file stat_files chmod_files generate_files sign_files)

lemma load_or_generate_stores:
  assumes "load_or_generate_ca_with_dir G F user_dir config_dir w = (Ok (cert, key), w')"
  obtains dir cert_text key_pem where "ca_dir user_dir config_dir = Ok dir"
    and "files w' (ca_cert_file dir) = Some cert_text" and "files w' (ca_key_file dir) = Some key_pem"
    and "key_from_pem G key_pem = Ok key"
    and "files w (ca_cert_file dir) \<noteq> None \<and> files w (ca_key_file dir) \<noteq> None \<Longrightarrow> files w' = files w"
proof -
  obtain dir w1 where d: "ca_dir user_dir config_dir = Ok dir" and m: "ca_create_dir_all F dir w = (Ok (), w1)"
    and r: "(if ca_exists F (ca_cert_file dir) w1 \<and> ca_exists F (ca_key_file dir) w1
             then load_ca G F (ca_cert_file dir) (ca_key_file dir) w1
             else generate_ca G F (ca_cert_file dir) (ca_key_file dir) w1) = (Ok (cert, key), w')"
    using assms
    unfolding load_or_generate_ca_with_dir_def and_then_ok with_ctx_ok Let_def
      ca_dir_def [symmetric] ca_cert_file_def [symmetric] ca_key_file_def [symmetric]
    by auto
  note f = mkdir_files [OF m]
  show ?thesis
  proof (cases "ca_exists F (ca_cert_file dir) w1 \<and> ca_exists F (ca_key_file dir) w1")
    case True
    then show ?thesis using r f load_ca_ok [of _ _ w1 cert key w'] that [OF d] by (auto simp: exists_file)
  next
    case False
    then show ?thesis
      using r f generate_ca_ok [of _ _ w1 cert key w'] that [OF d] ca_files_distinct [of dir] pem_key
      by (auto simp: exists_file)
  qed
qed

lemma authority_persists:
  assumes "load_or_generate_ca_with_dir G F user_dir config_dir w0 = (Ok (cert, key), w1)"
    and "files w2 = files w1"
    and "load_or_generate_ca_with_dir G F user_dir config_dir w2 = (Ok (cert', key'), w3)"
  shows "key' = key \<and> files w3 = files w2"
proof -
  obtain dir cert_text pem where 1: "ca_dir user_dir config_dir = Ok dir" "files w1 (ca_cert_file dir) = Some cert_text"
      "files w1 (ca_key_file dir) = Some pem" "key_from_pem G pem = Ok key"
    using load_or_generate_stores [OF assms(1)] by metis
  obtain dir' pem' where 2: "ca_dir user_dir config_dir = Ok dir'"
      "files w3 (ca_key_file dir') = Some pem'" "key_from_pem G pem' = Ok key'"
      "files w2 (ca_cert_file dir') \<noteq> None \<and> files w2 (ca_key_file dir') \<noteq> None \<Longrightarrow> files w3 = files w2"
    using load_or_generate_stores [OF assms(3)] by metis
  then have "files w3 = files w2" using 1 assms(2) by simp
  then show ?thesis using 1 2 assms(2) by simp
qed

end

section \<open>A small instance\<close>

text \<open>Files as a map, keys and certificates as texts: it shows that the assumptions above can hold together.\<close>

definition map_files :: "(string \<rightharpoonup> string) ca_files" where
  "map_files =
     \<lparr>ca_create_dir_all = (\<lambda>_ w. (Ok (), w)), ca_exists = (\<lambda>p w. w p \<noteq> None),
      ca_read = (\<lambda>p w. (case w p of None \<Rightarrow> Err ''No such file or directory'' | Some t \<Rightarrow> Ok t, w)),
      ca_write = (\<lambda>p t w. (Ok (), w(p \<mapsto> t))), ca_permissions = (\<lambda>_ w. (Ok 420, w)),
      ca_set_permissions = (\<lambda>_ _ w. (Ok (), w))\<rparr>"

definition text_rcgen :: "(string, string, string \<rightharpoonup> string) rcgen_ops" where
  "text_rcgen =
     (let p = \<lparr>is_ca = False, subject_alt_names = [], distinguished_name = [], key_usages = [], server_auth = False,
                serial_number = None, not_before = None, not_after = None\<rparr>
      in \<lparr>default_params = p,
          date_time_ymd = (\<lambda>y mo d. if valid_date (Date y mo d) then Some (Date y mo d) else None),
          params_new = (\<lambda>h. Ok (p\<lparr>subject_alt_names := [h]\<rparr>)), dns_name = (\<lambda>_. Ok ()),
          key_generate = (\<lambda>w. (Ok ''key'', w)), key_from_pem = (\<lambda>s. Ok (tl s)), key_to_pem = (\<lambda>k. CHR ''P'' # k),
          key_der = (\<lambda>k. k), private_key_der = Some,
          self_signed = (\<lambda>p k w. (Ok (''ca '' @ k), w)),
          signed_by = (\<lambda>p k c ck w. (Ok (concat (subject_alt_names p) @ '' by '' @ ck), w)),
          cert_pem = (\<lambda>c. c), cert_der = (\<lambda>c. c)\<rparr>)"

lemmas text_rcgen_defs = map_files_def text_rcgen_def Let_def

interpretation text_store: ca_store text_rcgen map_files "\<lambda>w. w"
  by unfold_locales (auto simp: text_rcgen_defs split: option.splits)

definition sample_manager :: "(string, string, string list lru_list) cert_manager" where
  "sample_manager =
     \<lparr>ca_cert = ''ca key'', ca_key_pair = ''key'', server_key_pair = ''key'', server_key_der = ''key'',
      cert_cache = lru_list_new CERT_CACHE_SIZE, custom_dir = Some ''/d''\<rparr>"

lemma sample_manager_created:
  "with_config_dir text_rcgen map_files lru_list_new None (Some ''/d'') (\<lambda>_. None) =
     (Ok sample_manager, (\<lambda>_. None)(''/d/ca-cert.pem'' \<mapsto> ''ca key'', ''/d/ca-key.pem'' \<mapsto> ''Pkey''))"
  by (simp add: with_config_dir_def load_or_generate_ca_with_dir_def generate_ca_def text_rcgen_defs and_then_def with_ctx_def
      err_context_def path_join_def return_ok_def sample_manager_def starts_with_def)

lemma with_config_dir_ok:
  assumes "with_config_dir G F new_cache user_dir config_dir w0 = (Ok m, w1)"
  shows "cert_cache m = new_cache CERT_CACHE_SIZE \<and>
    (\<exists>w. load_or_generate_ca_with_dir G F user_dir config_dir w0 = (Ok (ca_cert m, ca_key_pair m), w) \<and>
         key_generate G w = (Ok (server_key_pair m), w1) \<and>
         private_key_der G (key_der G (server_key_pair m)) = Some (server_key_der m))"
  using assms unfolding with_config_dir_def
  by (auto simp: and_then_ok with_ctx_ok split: prod.splits option.splits)

text \<open>
  (C22) Whatever the connection tasks do to a manager that was created, and however their lookups, certificate
  generations and insertions interleave, a task that is served a chain for a host gets a certificate for exactly
  that host, signed by the authority of this manager and asked for until 2049 at the latest, followed by the authority's
  certificate, together with the shared server key; and the cache never holds more than \<^const>\<open>CERT_CACHE_SIZE\<close>
  chains, all of them issued that way.
\<close>

theorem concurrent_certificates:
  assumes "lru_cache L new_cache entries capacity"
    and "with_config_dir G F new_cache user_dir config_dir w0 = (Ok m0, w1)"
    and "cert_reach G L m0 m ts" and "ts t = Served h (Ok (chain, key))"
  shows "issued G m0 h chain \<and> key = server_key_der m0 \<and>
    card (dom (entries (cert_cache m))) \<le> CERT_CACHE_SIZE \<and> cache_issued G entries m"
proof -
  have new: "entries (cert_cache m0) = (\<lambda>_. None) \<and> capacity (cert_cache m0) = CERT_CACHE_SIZE"
    using with_config_dir_ok [OF assms(2)] lru_cache.new_empty [OF assms(1), of CERT_CACHE_SIZE]
    by (simp add: CERT_CACHE_SIZE_def)
  then have "cache_issued G entries m0" by (simp add: cache_issued_def)
  with lru_cache.cert_reach_inv [OF assms(1,3)] have "lru_cache.cert_inv entries capacity G m0 m ts" .
  then show ?thesis
    using new assms(4) lru_cache.bounded [OF assms(1), of "cert_cache m"]
    by (auto simp: lru_cache.cert_inv_def [OF assms(1)])
qed

text \<open>
  (C34) The authority survives restarts: once the manager loaded or generated an authority, every later start on the
  same files that succeeds uses the same key and leaves the files as they are.
\<close>

theorem ca_key_persists:
  assumes "ca_store G F files"
    and "load_or_generate_ca_with_dir G F user_dir config_dir w0 = (Ok (cert, key), w1)"
    and "files w2 = files w1"
    and "load_or_generate_ca_with_dir G F user_dir config_dir w2 = (Ok (cert', key'), w3)"
  shows "key' = key \<and> files w3 = files w2"
  using ca_store.authority_persists [OF assms] .

definition sample_date :: date where
  "sample_date = Date 2025 6 1"

lemmas sample_date_defs = sample_date_def valid_date_def days_in_month_def end_year_def

lemma sample_generated:
  "generate_for_host text_rcgen sample_date sample_manager ''a.b'' w = Some (Ok [''a.b by key'', ''ca key''], w)"
  by (simp add: generate_for_host_def text_rcgen_defs err_context_def sample_date_defs server_params_def sample_manager_def)

definition sample_cache :: "string list lru_list" where
  "sample_cache = (1023, [(''a.b'', [''a.b by key'', ''ca key''])])"

lemma sample_cache_steps:
  "lru_get lru_list ''a.b'' (cert_cache sample_manager) = (None, cert_cache sample_manager)"
  "lru_put lru_list ''a.b'' [''a.b by key'', ''ca key''] (cert_cache sample_manager) = sample_cache"
  by (simp_all add: sample_manager_def lru_list_new_def CERT_CACHE_SIZE_def lru_list_def sample_cache_def)

lemma sample_reach:
  "cert_reach text_rcgen lru_list sample_manager (sample_manager\<lparr>cert_cache := sample_cache\<rparr>)
     ((\<lambda>_. Free)(7 := Served ''a.b'' (Ok ([''a.b by key'', ''ca key''], ''key''))))"
proof -
  let ?R = "cert_reach text_rcgen lru_list sample_manager"
  have 1: "?R sample_manager ((\<lambda>_. Free)(7 := Waiting ''a.b''))"
    by (rule cert_reach.arrive [OF cert_reach.start]) simp
  have 2: "?R sample_manager ((\<lambda>_. Free)(7 := Missed ''a.b''))"
    using cert_reach.miss [OF 1 _ sample_cache_steps(1), of 7] by simp
  have 3: "?R sample_manager ((\<lambda>_. Free)(7 := Generated ''a.b'' [''a.b by key'', ''ca key'']))"
    using cert_reach.generate [OF 2 _ sample_generated, of 7] by simp
  have k: "server_key_der sample_manager = ''key''" by (simp add: sample_manager_def)
  show ?thesis
    using cert_reach.insert [OF 3, of 7 "''a.b''" "[''a.b by key'', ''ca key'']"]
    unfolding sample_cache_steps k by simp
qed

theorem concurrent_certificates_witness:
  "issued text_rcgen sample_manager ''a.b'' [''a.b by key'', ''ca key''] \<and>
     card (dom (lru_list_entries sample_cache)) \<le> 1024"
proof -
  note c = concurrent_certificates [OF lru_list.lru_cache_axioms sample_manager_created sample_reach fun_upd_same]
  have "card (dom (lru_list_entries sample_cache)) \<le> 1024"
    using c [THEN conjunct2, THEN conjunct2, THEN conjunct1] by (simp add: CERT_CACHE_SIZE_def)
  with c show ?thesis by blast
qed

theorem ca_key_persists_witness:
  "load_or_generate_ca_with_dir text_rcgen map_files None (Some ''/d'') (\<lambda>_. None) =
     (Ok (''ca key'', ''key''), (\<lambda>_. None)(''/d/ca-cert.pem'' \<mapsto> ''ca key'', ''/d/ca-key.pem'' \<mapsto> ''Pkey'')) \<and>
   snd (load_or_generate_ca_with_dir text_rcgen map_files None (Some ''/d'')
     ((\<lambda>_. None)(''/d/ca-cert.pem'' \<mapsto> ''ca key'', ''/d/ca-key.pem'' \<mapsto> ''Pkey''))) =
     (\<lambda>_. None)(''/d/ca-cert.pem'' \<mapsto> ''ca key'', ''/d/ca-key.pem'' \<mapsto> ''Pkey'')"
proof -
  let ?w = "(\<lambda>_. None)(''/d/ca-cert.pem'' \<mapsto> ''ca key'', ''/d/ca-key.pem'' \<mapsto> ''Pkey'')"
  obtain w where 1: "load_or_generate_ca_with_dir text_rcgen map_files None (Some ''/d'') (\<lambda>_. None) =
      (Ok (''ca key'', ''key''), w)" and w: "w = ?w"
    using with_config_dir_ok [OF sample_manager_created]
    by (auto simp: sample_manager_def text_rcgen_def Let_def)
  have 2: "load_or_generate_ca_with_dir text_rcgen map_files None (Some ''/d'') w = (Ok (''ca key'', ''key''), w)"
    by (simp add: w load_or_generate_ca_with_dir_def load_ca_def text_rcgen_defs and_then_def with_ctx_def
        err_context_def path_join_def return_ok_def starts_with_def)
  show ?thesis
    using ca_key_persists [OF text_store.ca_store_axioms 1 refl 2] 1 2 unfolding w by simp
qed

text \<open>
  After a call that returned a chain for a host, the next call for that host returns the same chain and key on
  any day, without touching the world: no second certificate is signed.
\<close>

theorem cached_certificate_reused:
  assumes "lru_cache L new_cache entries capacity"
    and "get_cert_for_host G L today m hostname w = Some (Ok (chain, key), m', w')"
  shows "\<exists>m''. get_cert_for_host G L today' m' hostname v = Some (Ok (chain, key), m'', v)"
  using lru_cache.get_cert_for_host_hit [OF assms] .

theorem cached_certificate_reused_witness:
  "\<exists>m' m''. get_cert_for_host text_rcgen lru_list sample_date sample_manager ''a.b'' (\<lambda>_. None) =
       Some (Ok ([''a.b by key'', ''ca key''], ''key''), m', \<lambda>_. None) \<and>
     get_cert_for_host text_rcgen lru_list sample_date m' ''a.b'' (\<lambda>_. None) =
       Some (Ok ([''a.b by key'', ''ca key''], ''key''), m'', \<lambda>_. None)"
proof -
  have k: "sample_manager\<lparr>cert_cache := cert_cache sample_manager\<rparr> = sample_manager"
    "server_key_der sample_manager = ''key''" by (simp_all add: sample_manager_def)
  have "get_cert_for_host text_rcgen lru_list sample_date sample_manager ''a.b'' (\<lambda>_. None) =
      Some (Ok ([''a.b by key'', ''ca key''], ''key''), sample_manager\<lparr>cert_cache := sample_cache\<rparr>, \<lambda>_. None)"
    unfolding get_cert_for_host_def sample_cache_steps Let_def k using sample_generated [of "\<lambda>_. None"]
    by (simp add: sample_cache_steps k del: list.inject)
  from cached_certificate_reused [OF lru_list.lru_cache_axioms this] this show ?thesis by blast
qed

theorem certificate_validity_witness:
  "generate_for_host text_rcgen (Date 2028 2 29) sample_manager ''a.b'' (\<lambda>_. None) = None"
  using certificate_validity [of text_rcgen "Date 2028 2 29" "''a.b''" _ "()" sample_manager "\<lambda>_. None"]
  by (simp add: rcgen_calendar_def valid_date_def days_in_month_def leap_year_def text_rcgen_defs)

text \<open>
  The variables for tools all name one existing file, the authority's certificate in the user's configuration
  directory or the first alternative that exists; if none exists, there is an error and no variable.
\<close>

theorem ca_env_vars_exist:
  "case get_ca_env_vars ex user_dir sudo_user home of
     Inl _ \<Rightarrow> (\<forall>p. get_ca_cert_path user_dir = Ok p \<longrightarrow>
        \<not> ex p \<and> (\<forall>q \<in> set (possible_paths sudo_user home). ex q \<longrightarrow> (\<exists>q' \<in> set (possible_paths sudo_user home). \<not> valid_utf8 q')))
   | Inr vars \<Rightarrow> (\<exists>p. ex p \<and> map fst vars = [''SSL_CERT_FILE'', ''SSL_CERT_DIR'', ''CURL_CA_BUNDLE'', ''GIT_SSL_CAINFO'',
          ''REQUESTS_CA_BUNDLE'', ''NODE_EXTRA_CA_CERTS'', ''DENO_CERT''] \<and>
        (\<forall>(k, v) \<in> set vars. v = p \<or> k = ''SSL_CERT_DIR''))"
  by (auto simp: get_ca_env_vars_def find_ca_path_def ca_env_vars_def Let_def find_None_iff find_Some_iff
      split: sum.splits option.splits if_splits)

end
