(* ===== verification/Interception.thy ===== *)
theory Interception
  imports Proxy_TLS Cert_Manager
begin

text \<open>
  The HTTPS side of the proxy (\<^verbatim>\<open>src/src/proxy_tls.rs\<close>) with the certificate manager of \<^verbatim>\<open>src/src/tls.rs\<close> in the
  place of its parameter \<open>get_cert_for_host\<close>: what an intercepted client is shown and what is then evaluated.
\<close>

section \<open>The connection with its certificate manager\<close>

text \<open>
  The world is the manager beside the rest, and a list that records the handshakes: the chain and key that each is
  made with, and how many evaluations and requests upstream were recorded before it. A panic of the manager ends the task of the connection; here it is an error of the connection, which
  ends it in the same way.
\<close>

type_synonym shown = "((string list \<times> string) \<times> nat) list"

definition manager_conn ::
  "('k, 'c, 'v) rcgen_ops \<Rightarrow> ('l, string list) lru_ops \<Rightarrow> ('v \<Rightarrow> date) \<Rightarrow>
     ('h, 'b, 'r, string list \<times> string, 'v) conn_ops \<Rightarrow>
     ('h, 'b, 'r, string list \<times> string, (shown \<times> ('k, 'c, 'l) cert_manager) \<times> 'v) conn_ops" where
  "manager_conn G L today N =
     (beside N)
       \<lparr>get_cert_for_host := (\<lambda>hostname ((ks, m), v).
          case Cert_Manager.get_cert_for_host G L (today v) m hostname v of
            None \<Rightarrow> (Err ''panic'', ((ks, m), v))
          | Some (r, m', v') \<Rightarrow> (r, ((ks, m'), v')))\<rparr>"

definition watch_handshakes ::
  "('h, 'b, 'r, string list \<times> string, (shown \<times> 'm) \<times> 'v) conn_ops \<Rightarrow>
     ('h, 'b, 'r, string list \<times> string, ((shown \<times> 'm) \<times> 'v) \<times> 'e list) conn_ops" where
  "watch_handshakes N =
     (watch_conn N)
       \<lparr>tls_accept := (\<lambda>k (w, es). case tls_accept N k w of
          (r, ((ks, m), v)) \<Rightarrow> (r, (((ks @ [(k, length es)], m), v), es)))\<rparr>"

definition beside_ctx :: "('h, 'b, 'r, 'v) proxy_ctx \<Rightarrow> ('h, 'b, 'r, 's \<times> 'v) proxy_ctx" where
  "beside_ctx C =
     \<lparr>hdr = hdr C, uri_to_string = uri_to_string C, uri_parse = uri_parse C,
      ctx_engine = \<lparr>evaluate = (\<lambda>m u ip w. apsnd (Pair (fst w)) (evaluate (ctx_engine C) m u ip (snd w))),
                    engine_name = engine_name (ctx_engine C)\<rparr>,
      client_request = (\<lambda>q w. apsnd (Pair (fst w)) (client_request C q (snd w))), loop_nonce = loop_nonce C\<rparr>"

section \<open>Serving decrypted requests\<close>

text \<open>
  Judging and forwarding requests does not touch the manager, and the evaluations of a trace are those of the requests
  that were served, each for its own method and for the URL of the host with its own path.
\<close>

fun evaluated :: "('h, 'b) event list \<Rightarrow> (string \<times> string) list" where
  "evaluated [] = []"
| "evaluated (Evaluated m u ip r # es) = (m, u) # evaluated es"
| "evaluated (SentUp q # es) = evaluated es"

lemma evaluated_append [simp]: "evaluated (xs @ ys) = evaluated xs @ evaluated ys"
  by (induction xs rule: evaluated.induct) simp_all

definition asks_of :: "string \<Rightarrow> ('h, 'b) request list \<Rightarrow> (string \<times> string) list" where
  "asks_of host reqs = map (\<lambda>req. (req_method req, ''https://'' @ host @ path_or_slash (req_uri req))) reqs"

lemma decrypted_beside:
  "fst (snd (handle_decrypted_https_request (beside_ctx C) req host ip w)) = fst w"
  by (auto simp: decrypted_split beside_ctx_def proxy_request_def forward_world Let_def
      split: sum.splits byte_limit_result.splits)

lemma evaluated_allowed: "evaluated (allowed_trace C req url r) = []"
  using allowed_trace_cases [of C req url r] by auto

lemma decrypted_served:
  "fst (fst (snd (handle_decrypted_https_request (watch (beside_ctx C)) req host ip st))) = fst (fst st)"
  "evaluated (snd (snd (handle_decrypted_https_request (watch (beside_ctx C)) req host ip st))) =
     evaluated (snd st) @ asks_of host [req]"
proof -
  show "fst (fst (snd (handle_decrypted_https_request (watch (beside_ctx C)) req host ip st))) = fst (fst st)"
    by (simp add: decrypted_watch decrypted_beside)
  show "evaluated (snd (snd (handle_decrypted_https_request (watch (beside_ctx C)) req host ip st))) =
     evaluated (snd st) @ asks_of host [req]"
    using decrypted_trace [of "beside_ctx C" req host ip "fst st" "snd st"]
    by (simp add: Let_def evaluated_allowed asks_of_def https_url_def)
qed

lemma connection_served:
  assumes "\<And>req st. fst (fst (snd (h req st))) = fst (fst st) \<and> evaluated (snd (snd (h req st))) = evaluated (snd st) @ asks_of host [req]"
  shows "fst (fst (snd (serve_connection h reqs st))) = fst (fst st) \<and>
    evaluated (snd (snd (serve_connection h reqs st))) = evaluated (snd st) @ asks_of host reqs"
proof (induction reqs arbitrary: st)
  case (Cons req reqs)
  then show ?case using assms [of req st] by (simp add: case_prod_beta asks_of_def)
qed (simp add: asks_of_def)

lemma tunnel_served:
  "\<exists>w es. snd (serve_http1 (watch_handshakes (manager_conn G L today N))
      (\<lambda>req. handle_decrypted_https_request (watch (beside_ctx C)) req host ip) ((s, v), [])) = ((s, w), es) \<and>
    evaluated es = asks_of host (fst (fst (incoming N v)))"
proof -
  let ?N = "watch_handshakes (manager_conn G L today N)"
  let ?h = "\<lambda>req st. case handle_decrypted_https_request (watch (beside_ctx C)) req host ip st of (resp, st) \<Rightarrow> (resp, respond ?N resp st)"
  have h: "fst (fst (snd (?h req st))) = fst (fst st) \<and> evaluated (snd (snd (?h req st))) = evaluated (snd st) @ asks_of host [req]"
    for req st
    using decrypted_served [of C req host ip st]
    by (simp add: watch_handshakes_def watch_conn_def manager_conn_def beside_def case_prod_beta)
  obtain reqs res u where i: "incoming N v = ((reqs, res), u)" by (metis prod.collapse)
  define st where "st = snd (serve_connection ?h reqs ((s, u), []))"
  have "snd (serve_http1 ?N (\<lambda>req. handle_decrypted_https_request (watch (beside_ctx C)) req host ip) ((s, v), [])) = st"
    by (simp add: st_def serve_http1_def watch_handshakes_def watch_conn_def lift_world_def manager_conn_def beside_def i)
  moreover obtain s' w es where r: "st = ((s', w), es)" by (metis surj_pair)
  moreover have "s' = s \<and> evaluated es = asks_of host reqs"
    using connection_served [of ?h host reqs "((s, u), [])", OF h] unfolding st_def [symmetric] r by simp
  ultimately show ?thesis using i by simp
qed

section \<open>Property\<close>


definition tls_client :: "(header_list, unit, unit, string list \<times> string, string \<rightharpoonup> string) conn_ops" where
  "tls_client =
     \<lparr>peek = (\<lambda>n w. (PeekError, w)), read_first_line = (\<lambda>w. (ConnEof, w)), header_lines = (\<lambda>w. ([], w)),
      write_flush = (\<lambda>s w. (Done, w)), get_cert_for_host = (\<lambda>h w. (Err ''unused'', w)), with_single_cert = (\<lambda>_. Ok ()),
      tls_accept = (\<lambda>_ w. (Done, w)), incoming = (\<lambda>w. (([sample_request ''x'' [] ()], Ok ()), w)), respond = (\<lambda>_ w. w)\<rparr>"

definition refusing_ctx :: "(header_list, unit, unit, string \<rightharpoonup> string) proxy_ctx" where
  "refusing_ctx =
     \<lparr>hdr = list_headers, uri_to_string = (\<lambda>_. []), uri_parse = (\<lambda>_. Err ''bad''),
      ctx_engine = \<lparr>evaluate = (\<lambda>_ _ _ w. (deny, w)), engine_name = ''no''\<rparr>, client_request = (\<lambda>_ w. (Err ''down'', w)),
      loop_nonce = ''7''\<rparr>"


end
