(* ===== verification/Proxy_Tasks.thy ===== *)
theory Proxy_Tasks
  imports Proxy_TLS
begin

text \<open>
  The request handlers of \<^verbatim>\<open>src/src/proxy.rs\<close> and \<^verbatim>\<open>src/src/proxy_tls.rs\<close> as tasks of the asynchronous runtime. A handler
  runs from one \<open>await\<close> to the next without interruption and gives up control at the two places where it waits,
  for the rule engine and for the upstream client; in between, other tasks run and the outside world changes.
  A step relation has all interleavings. The handlers of \<open>Proxy\<close> and \<open>Proxy_TLS\<close> are shown to be the runs of one task alone.
\<close>

section \<open>Tasks\<close>

text \<open>
  A request is plain HTTP, or it was decrypted on a connection for a host. A task has received its request, or
  has been given an allowing verdict on a URL, or has answered.
\<close>

datatype origin = Plain | Tunnel string

datatype ('h, 'b, 'r) task =
    Arrived origin "('h, 'b) request" string
  | Judged origin "('h, 'b) request" string string evaluation_result
  | Answered "('h, 'r resp_body) response"

definition task_url :: "('h, 'b, 'r, 'w) proxy_ctx \<Rightarrow> origin \<Rightarrow> ('h, 'b) request \<Rightarrow> string" where
  "task_url C origin req = (case origin of Plain \<Rightarrow> http_full_url C req | Tunnel host \<Rightarrow> https_url host req)"

text \<open>From one \<open>await\<close> to the next; a task that has answered makes no step.\<close>

fun task_next :: "('h, 'b, 'r, 'w) proxy_ctx \<Rightarrow> ('h, 'b, 'r) task \<Rightarrow> 'w \<Rightarrow> (('h, 'b, 'r) task \<times> 'w) option" where
  "task_next C (Arrived origin req ip) w =
     (if origin = Plain \<and> is_loop (hdr C) (loop_nonce C) (req_headers req) then
        Some (Answered (create_forbidden_response (hdr C) (Some loop_text)), w)
      else let url = task_url C origin req
           in case evaluate_with_context_and_ip (ctx_engine C) (req_method req) url ip w of
                (evaluation, w) \<Rightarrow>
                  (case action evaluation of
                     Allow \<Rightarrow> Some (Judged origin req ip url evaluation, w)
                   | Deny \<Rightarrow> Some (Answered (create_forbidden_response (hdr C) (eval_context evaluation)), w)))"
| "task_next C (Judged origin req ip url evaluation) w =
     (case (case origin of
              Plain \<Rightarrow> proxy_request C req url (max_tx_bytes evaluation) w
            | Tunnel host \<Rightarrow> proxy_https_request C req host (max_tx_bytes evaluation) w) of
        (Inr resp, w) \<Rightarrow> Some (Answered resp, w)
      | (Inl _, w) \<Rightarrow> Some (Answered (create_error_response (hdr C) 502 ''Proxy error''), w))"
| "task_next C (Answered resp) w = None"

section \<open>One task alone\<close>

definition task_step :: "('h, 'b, 'r, 'w) proxy_ctx \<Rightarrow> ('h, 'b, 'r) task \<times> 'w \<Rightarrow> ('h, 'b, 'r) task \<times> 'w \<Rightarrow> bool" where
  "task_step C s s' = (task_next C (fst s) (snd s) = Some s')"

definition handler ::
  "('h, 'b, 'r, 'w) proxy_ctx \<Rightarrow> origin \<Rightarrow> ('h, 'b) request \<Rightarrow> string \<Rightarrow> 'w \<Rightarrow> ('h, 'r resp_body) response \<times> 'w" where
  "handler C origin req ip =
     (case origin of Plain \<Rightarrow> handle_http_request C req ip | Tunnel host \<Rightarrow> handle_decrypted_https_request C req host ip)"

lemma task_step_det: "task_step C s s1 \<Longrightarrow> task_step C s s2 \<Longrightarrow> s1 = s2"
  by (simp add: task_step_def)

lemma answered_end: "(task_step C)\<^sup>*\<^sup>* (Answered resp, w) s \<longleftrightarrow> s = (Answered resp, w)"
  by (auto simp: task_step_def elim: converse_rtranclpE)

text \<open>A judged task answers in one step, an arrived one in one or two.\<close>

lemma judged_answers:
  "\<exists>resp w'. task_next C (Judged origin req ip url r) w = Some (Answered resp, w')"
  by (auto split: prod.splits sum.splits)

lemma handler_runs:
  assumes "handler C origin req ip w = (resp, w')"
  shows "(task_step C)\<^sup>*\<^sup>* (Arrived origin req ip, w) (Answered resp, w')"
proof -
  define url where "url = task_url C origin req"
  obtain r w1 where e: "evaluate_with_context_and_ip (ctx_engine C) (req_method req) url ip w = (r, w1)" by fastforce
  consider (loop) "origin = Plain \<and> is_loop (hdr C) (loop_nonce C) (req_headers req)"
    | (deny) "\<not> (origin = Plain \<and> is_loop (hdr C) (loop_nonce C) (req_headers req))" "action r = Deny"
    | (allow) "\<not> (origin = Plain \<and> is_loop (hdr C) (loop_nonce C) (req_headers req))" "action r = Allow"
    using action.exhaust by blast
  then show ?thesis
  proof cases
    case loop
    then have "task_step C (Arrived origin req ip, w) (Answered resp, w')"
      using assms by (simp add: task_step_def handler_def handle_http_request_def)
    then show ?thesis by blast
  next
    case deny
    then have "task_step C (Arrived origin req ip, w) (Answered resp, w')"
      using assms e
      by (cases origin) (auto simp: task_step_def handler_def handle_http_request_def handle_decrypted_https_request_def
          url_def task_url_def Let_def)
    then show ?thesis by blast
  next
    case allow
    then have 1: "task_step C (Arrived origin req ip, w) (Judged origin req ip url r, w1)"
      using e by (auto simp: task_step_def url_def Let_def)
    have 2: "task_step C (Judged origin req ip url r, w1) (Answered resp, w')"
      using assms e allow
      by (cases origin) (auto simp: task_step_def handler_def handle_http_request_def handle_decrypted_https_request_def
          url_def task_url_def Let_def split: prod.splits sum.splits)
    from 1 2 show ?thesis by (meson rtranclp.rtrancl_into_rtrancl rtranclp.rtrancl_refl)
  qed
qed

lemma runs_unique:
  assumes "(task_step C)\<^sup>*\<^sup>* s (Answered resp1, w1)" and "(task_step C)\<^sup>*\<^sup>* s (Answered resp2, w2)"
  shows "resp1 = resp2 \<and> w1 = w2"
  using assms
proof (induction rule: converse_rtranclp_induct)
  case base
  then show ?case by (simp add: answered_end)
next
  case (step y z)
  have "y \<noteq> (Answered resp2, w2)" using step.hyps(1) by (auto simp: task_step_def)
  with step.prems obtain z' where "task_step C y z'" "(task_step C)\<^sup>*\<^sup>* z' (Answered resp2, w2)"
    by (auto elim: converse_rtranclpE)
  with step.hyps(1) step.IH show ?case using task_step_det by metis
qed

section \<open>All tasks\<close>

text \<open>
  The server: its tasks, the outside world, and what tasks have done so far. A request arrives at a free number; a
  task makes a step, which records its evaluations and its requests upstream; or the world changes by itself
  (an edit of the rule file, a child process that dies).
\<close>

record ('h, 'b, 'r, 'w) server =
  srv_tasks :: "nat \<Rightarrow> ('h, 'b, 'r) task option"
  srv_world :: 'w
  srv_log :: "(nat \<times> ('h, 'b) event) list"

definition server_init :: "'w \<Rightarrow> ('h, 'b, 'r, 'w) server" where
  "server_init w = \<lparr>srv_tasks = (\<lambda>_. None), srv_world = w, srv_log = []\<rparr>"

inductive server_step :: "('h, 'b, 'r, 'w) proxy_ctx \<Rightarrow> ('h, 'b, 'r, 'w) server \<Rightarrow> ('h, 'b, 'r, 'w) server \<Rightarrow> bool"
  for C where
  arrive: "srv_tasks s i = None \<Longrightarrow>
    server_step C s (s\<lparr>srv_tasks := (srv_tasks s)(i \<mapsto> Arrived origin req ip)\<rparr>)"
| run: "srv_tasks s i = Some t \<Longrightarrow> task_next (watch C) t (srv_world s, []) = Some (t', (w', es)) \<Longrightarrow>
    server_step C s \<lparr>srv_tasks = (srv_tasks s)(i \<mapsto> t'), srv_world = w', srv_log = srv_log s @ map (Pair i) es\<rparr>"
| change: "server_step C s (s\<lparr>srv_world := w'\<rparr>)"

inductive_cases server_stepE: "server_step C s s'"

abbreviation server_reach :: "('h, 'b, 'r, 'w) proxy_ctx \<Rightarrow> ('h, 'b, 'r, 'w) server \<Rightarrow> ('h, 'b, 'r, 'w) server \<Rightarrow> bool" where
  "server_reach C \<equiv> (server_step C)\<^sup>*\<^sup>*"

definition of_task :: "nat \<Rightarrow> (nat \<times> ('h, 'b) event) list \<Rightarrow> ('h, 'b) event list" where
  "of_task i es = map snd (filter (\<lambda>e. fst e = i) es)"

lemma of_task_append [simp]: "of_task i (es @ map (Pair j) fs) = of_task i es @ (if i = j then fs else [])"
  by (induction fs) (auto simp: of_task_def)

lemma of_task_Nil [simp]: "of_task i [] = []"
  by (simp add: of_task_def)

text \<open>
  What a task has done, by its phase. A task whose verdict is an allowance has been evaluated once, on the URL that
  it carries, and has sent nothing yet. A task that has answered did nothing, or was evaluated once, or was
  evaluated once and sent the request that the verdict allowed.
\<close>

definition settled :: "('h, 'b, 'r, 'w) proxy_ctx \<Rightarrow> ('h, 'b) event list \<Rightarrow> bool" where
  "settled C es \<longleftrightarrow> es = [] \<or>
     (\<exists>m u ip r. es = [Evaluated m u ip r] \<or>
        (\<exists>q. es = [Evaluated m u ip r, SentUp q] \<and> action r = Allow \<and> req_method q = m \<and> uri_parse C u = Ok (req_uri q)))"

fun phase_ok :: "('h, 'b, 'r, 'w) proxy_ctx \<Rightarrow> ('h, 'b, 'r) task option \<Rightarrow> ('h, 'b) event list \<Rightarrow> bool" where
  "phase_ok C None es = (es = [])"
| "phase_ok C (Some (Arrived origin req ip)) es = (es = [])"
| "phase_ok C (Some (Judged origin req ip url r)) es =
     (es = [Evaluated (req_method req) url ip r] \<and> action r = Allow \<and> url = task_url C origin req)"
| "phase_ok C (Some (Answered resp)) es = settled C es"

lemma task_url_watch [simp]: "task_url (watch C) o' req = task_url C o' req"
  by (simp add: task_url_def split: origin.splits)

lemma arrived_phase:
  assumes "task_next (watch C) (Arrived origin req ip) (w, []) = Some (t', (w', es))"
  shows "phase_ok C (Some t') es"
  using assms
  by (auto simp: Let_def watch_evaluate settled_def split: if_splits action.splits)

lemma judged_phase:
  assumes "task_next (watch C) (Judged origin req ip url r) (w, []) = Some (t', (w', es))"
    and "action r = Allow" and "url = task_url C origin req"
  shows "phase_ok C (Some t') (Evaluated (req_method req) url ip r # es)"
proof -
  have "es = allowed_trace C req url r"
    using assms(1,3) proxy_request_trace [OF assms(2), of C req url w "[]"]
    by (auto simp: proxy_https_request_eq task_url_def split: origin.splits prod.splits sum.splits)
  moreover obtain resp where "t' = Answered resp" using assms(1) by (auto split: prod.splits sum.splits)
  ultimately show ?thesis
    using allowed_trace_cases [of C req url r] by (auto simp: settled_def upstream_request_parts)
qed

lemma phase_step:
  assumes "server_step C s s'" and "\<And>i. phase_ok C (srv_tasks s i) (of_task i (srv_log s))"
  shows "phase_ok C (srv_tasks s' i) (of_task i (srv_log s'))"
  using assms(1)
proof cases
  case (arrive j origin req ip)
  then show ?thesis using assms(2) [of i] by (cases "i = j") simp_all
next
  case (run j t t' w' es)
  note o = assms(2) [of j]
  show ?thesis
  proof (cases "i = j")
    case True
    with run o show ?thesis
      by (cases t) (auto dest: arrived_phase judged_phase simp del: task_next.simps(1,2))
  qed (use run assms(2) [of i] in simp)
next
  case (change w')
  then show ?thesis using assms(2) [of i] by simp
qed

lemma phase_reach:
  assumes "server_reach C (server_init w) s"
  shows "phase_ok C (srv_tasks s i) (of_task i (srv_log s))"
  using assms
proof (induction arbitrary: i rule: rtranclp_induct)
  case base
  show ?case by (simp add: server_init_def)
next
  case (step s s')
  then show ?case using phase_step by blast
qed

lemma phase_sent:
  assumes "phase_ok C t es" and "es = xs @ SentUp q # ys"
  shows "\<exists>u ip r. xs = [Evaluated (req_method q) u ip r] \<and> ys = [] \<and> action r = Allow \<and> uri_parse C u = Ok (req_uri q)"
  using assms by (cases "(C, t, es)" rule: phase_ok.cases) (auto simp: settled_def Cons_eq_append_conv append_eq_Cons_conv)

lemma of_task_split: "of_task i (xs @ (i, e) # ys) = of_task i xs @ e # of_task i ys"
  by (simp add: of_task_def)

lemma in_of_task: "e \<in> set (of_task i es) \<longleftrightarrow> (i, e) \<in> set es"
  by (force simp: of_task_def)

section \<open>Properties\<close>

text \<open>
  (C3) Complete mediation under concurrency: however the tasks of all connections are interleaved, and however the world
  changes in between, every request that goes upstream was preceded by an evaluation made by the same task
  that allowed it, for the request's own method and for the URL that its target is the parse of; and that
  task sends nothing else. A verdict for one client is never used for the request of another.
\<close>

theorem concurrent_mediation:
  assumes "server_reach C (server_init w) s" and "srv_log s = xs @ (i, SentUp q) # ys"
  shows "\<exists>u ip r. (i, Evaluated (req_method q) u ip r) \<in> set xs \<and> action r = Allow \<and> uri_parse C u = Ok (req_uri q) \<and>
    (\<forall>q'. (i, SentUp q') \<notin> set xs \<union> set ys)"
proof -
  from phase_reach [OF assms(1), of i] obtain u ip r where
    o: "of_task i xs = [Evaluated (req_method q) u ip r]" "of_task i ys = []" and "action r = Allow" "uri_parse C u = Ok (req_uri q)"
    using phase_sent [of C "srv_tasks s i" "of_task i (srv_log s)" "of_task i xs" q "of_task i ys"]
    by (auto simp: assms(2) of_task_split)
  then show ?thesis
    using in_of_task [of _ i xs] in_of_task [of _ i ys] by (metis Un_iff empty_iff event.distinct(1) list.set(1) list.set(2) singletonD singletonI insertCI)
qed

text \<open>
  The tasks implement the handlers: a task that runs alone from the arrival of its request ends with the response and
  the world of the handler, and in no other way; in particular every request is answered.
\<close>

lemma tasks_run_handlers:
  "(task_step C)\<^sup>*\<^sup>* (Arrived origin req ip, w) (Answered resp, w') \<longleftrightarrow>
     (case origin of Plain \<Rightarrow> handle_http_request C req ip w
                   | Tunnel host \<Rightarrow> handle_decrypted_https_request C req host ip w) = (resp, w')"
proof -
  obtain resp1 w1 where h: "handler C origin req ip w = (resp1, w1)" by fastforce
  note r = handler_runs [OF h]
  have "(case origin of Plain \<Rightarrow> handle_http_request C req ip w
      | Tunnel host \<Rightarrow> handle_decrypted_https_request C req host ip w) = handler C origin req ip w"
    by (simp add: handler_def split: origin.splits)
  moreover have "(task_step C)\<^sup>*\<^sup>* (Arrived origin req ip, w) (Answered resp, w') \<longleftrightarrow> (resp1, w1) = (resp, w')"
    using r runs_unique [OF r, of resp w'] by auto
  ultimately show ?thesis using h by simp
qed

text \<open>Two requests are judged before the first of them, the allowed one, is sent.\<close>

definition two_ctx :: "(header_list, unit, unit, nat) proxy_ctx" where
  "two_ctx = sample_proxy [''http://a''] None ''7''"

definition two_verdict :: "bool \<Rightarrow> evaluation_result" where
  "two_verdict ok =
     (if ok then \<lparr>action = Allow, eval_context = None, max_tx_bytes = None\<rparr>
      else \<lparr>action = Deny, eval_context = Some ''no'', max_tx_bytes = None\<rparr>)"

definition two_sent :: "(header_list, unit out_body) request" where
  "two_sent = prepare_upstream_request list_headers (sample_request ''a'' [] ()) (sample_uri ''http://a'') ''7''"

lemma two_next:
  "task_next (watch two_ctx) (Arrived Plain (sample_request ''a'' [] ()) ''::1'') (n, []) =
     Some (Judged Plain (sample_request ''a'' [] ()) ''::1'' ''http://a'' (two_verdict True),
       (n + 1, [Evaluated ''GET'' ''http://a'' ''::1'' (two_verdict True)]))"
  "task_next (watch two_ctx) (Arrived Plain (sample_request ''b'' [] ()) ''::1'') (n, []) =
     Some (Answered (create_forbidden_response list_headers (Some ''no'')),
       (n + 1, [Evaluated ''GET'' ''http://b'' ''::1'' (two_verdict False)]))"
  "\<exists>t. task_next (watch two_ctx) (Judged Plain (sample_request ''a'' [] ()) ''::1'' ''http://a'' (two_verdict True)) (n, []) =
     Some (t, (n + 1, [SentUp two_sent]))"
  by (simp_all add: two_ctx_def two_verdict_def two_sent_def task_url_def watch_evaluate watch_client sample_defs
      proxy_request_def forward_def Let_def)

theorem concurrent_mediation_witness:
  "\<exists>s xs. server_reach two_ctx (server_init 0) s \<and> srv_log s = xs @ [(0, SentUp two_sent)] \<and> length xs = 2 \<and>
     (\<exists>u ip r. (0, Evaluated ''GET'' u ip r) \<in> set xs \<and> action r = Allow)"
proof -
  let ?A = "Arrived Plain (sample_request ''a'' [] ()) ''::1'' :: (header_list, unit, unit) task"
  let ?B = "Arrived Plain (sample_request ''b'' [] ()) ''::1'' :: (header_list, unit, unit) task"
  let ?J = "Judged Plain (sample_request ''a'' [] ()) ''::1'' ''http://a'' (two_verdict True) :: (header_list, unit, unit) task"
  let ?F = "Answered (create_forbidden_response list_headers (Some ''no'')) :: (header_list, unit, unit) task"
  let ?a = "Evaluated ''GET'' ''http://a'' ''::1'' (two_verdict True)"
  let ?b = "Evaluated ''GET'' ''http://b'' ''::1'' (two_verdict False)"
  let ?s = "\<lambda>ts w es. \<lparr>srv_tasks = ts, srv_world = w, srv_log = es\<rparr> :: (header_list, unit, unit, nat) server"
  have 1: "server_step two_ctx (server_init 0) (?s [0 \<mapsto> ?A] 0 [])"
    using server_step.arrive [of "server_init 0" 0 two_ctx Plain "sample_request ''a'' [] ()" "''::1''"] by (simp add: server_init_def)
  have 2: "server_step two_ctx (?s [0 \<mapsto> ?A] 0 []) (?s [0 \<mapsto> ?A, 1 \<mapsto> ?B] 0 [])"
    using server_step.arrive [of "?s [0 \<mapsto> ?A] 0 []" 1 two_ctx Plain "sample_request ''b'' [] ()" "''::1''"] by simp
  have 3: "server_step two_ctx (?s [0 \<mapsto> ?A, 1 \<mapsto> ?B] 0 []) (?s [0 \<mapsto> ?J, 1 \<mapsto> ?B] 1 [(0, ?a)])"
    using server_step.run [of "?s [0 \<mapsto> ?A, 1 \<mapsto> ?B] 0 []" 0 ?A two_ctx] two_next(1) [of 0]
    by (simp add: fun_upd_twist del: task_next.simps)
  have 4: "server_step two_ctx (?s [0 \<mapsto> ?J, 1 \<mapsto> ?B] 1 [(0, ?a)]) (?s [0 \<mapsto> ?J, 1 \<mapsto> ?F] 2 [(0, ?a), (1, ?b)])"
    using server_step.run [of "?s [0 \<mapsto> ?J, 1 \<mapsto> ?B] 1 [(0, ?a)]" 1 ?B two_ctx] two_next(2) [of 1]
    by (simp add: numeral_2_eq_2 del: task_next.simps)
  obtain t where "task_next (watch two_ctx) ?J (2, []) = Some (t, (3, [SentUp two_sent]))" using two_next(3) [of 2] by auto
  then have 5: "server_step two_ctx (?s [0 \<mapsto> ?J, 1 \<mapsto> ?F] 2 [(0, ?a), (1, ?b)])
      (?s [0 \<mapsto> t, 1 \<mapsto> ?F] 3 [(0, ?a), (1, ?b), (0, SentUp two_sent)])"
    using server_step.run [of "?s [0 \<mapsto> ?J, 1 \<mapsto> ?F] 2 [(0, ?a), (1, ?b)]" 0 ?J two_ctx t 3 "[SentUp two_sent]"]
    by (simp add: fun_upd_twist del: task_next.simps)
  from 1 2 3 4 5 have r: "server_reach two_ctx (server_init 0) (?s [0 \<mapsto> t, 1 \<mapsto> ?F] 3 [(0, ?a), (1, ?b), (0, SentUp two_sent)])"
    by (meson converse_rtranclp_into_rtranclp rtranclp.rtrancl_refl)
  have l: "srv_log (?s [0 \<mapsto> t, 1 \<mapsto> ?F] 3 [(0, ?a), (1, ?b), (0, SentUp two_sent)]) = [(0, ?a), (1, ?b)] @ (0, SentUp two_sent) # []"
    by simp
  have "req_method two_sent = ''GET''" by (simp add: two_sent_def sample_request_def)
  with concurrent_mediation [OF r l] r show ?thesis by fastforce
qed

end
