(* ===== verification/Rule_Common.thy ===== *)
theory Rule_Common
  imports Rules
begin

text \<open>
  \<^verbatim>\<open>src/src/rules/common.rs\<close>: the request description that the engines hand to a rule, and the
  response format that the line processor and the JavaScript engine share.

  Parameters: \<open>url_parse\<close> is \<open>Url::parse\<close> of the \<open>url\<close> package, with the accessors of its
  result in a record; \<open>json_of\<close> is the JSON text parser of \<open>serde_json\<close>, with a document as its
  result. The deserialiser of \<open>AllowPolicy\<close> is hand-written in the source; that of \<open>RuleResponse\<close>
  is the derived one (fields of type \<open>Option\<close>, unknown fields ignored, a repeated field an error,
  an array of the two fields accepted).
\<close>

section \<open>Request description\<close>

record parsed_url =
  pu_scheme :: string
  pu_host :: "string option"
  pu_path :: string

type_synonym url_parser = "string \<Rightarrow> parsed_url result"

record request_info =
  ri_url :: string
  ri_method :: string
  ri_scheme :: string
  ri_host :: string
  ri_path :: string
  ri_requester_ip :: string

definition from_request :: "url_parser \<Rightarrow> string \<Rightarrow> string \<Rightarrow> string \<Rightarrow> request_info result" where
  "from_request url_parse meth url requester_ip =
     (case url_parse url of
        Inl e \<Rightarrow> Err (''Failed to parse URL: '' @ e)
      | Inr p \<Rightarrow> Ok \<lparr>ri_url = url, ri_method = meth, ri_scheme = pu_scheme p,
                      ri_host = (case pu_host p of Some h \<Rightarrow> h | None \<Rightarrow> []),
                      ri_path = pu_path p, ri_requester_ip = requester_ip\<rparr>)"

lemma from_request_ok_iff: "is_ok (from_request up m u ip) \<longleftrightarrow> is_ok (up u)"
  by (simp add: from_request_def is_ok_def split: sum.splits)

section \<open>JSON documents\<close>

datatype json_number = PosInt u64 | NegInt int | Float string

datatype json =
    JNull
  | JBool bool
  | JNumber json_number
  | JString string
  | JArray "json list"
  | JObject "(string \<times> json) list"

type_synonym json_parser = "string \<Rightarrow> json option"

fun as_u64 :: "json \<Rightarrow> u64 option" where
  "as_u64 (JNumber (PosInt n)) = Some n"
| "as_u64 _ = None"

section \<open>Responses\<close>

datatype allow_policy = PBool bool | Limited u64

record rule_response =
  rr_allow :: "allow_policy option"
  rr_deny_message :: "string option"

text \<open>
  A JSON object becomes a map, so that the last of several equal keys counts; removing
  \<open>max_tx_bytes\<close> from it is looking it up.
\<close>

fun deserialize_allow_policy :: "json \<Rightarrow> allow_policy result" where
  "deserialize_allow_policy (JBool b) = Ok (PBool b)"
| "deserialize_allow_policy (JObject obj) =
     (case map_of (rev obj) ''max_tx_bytes'' of
        Some v \<Rightarrow> (case as_u64 v of
                     Some bytes \<Rightarrow> Ok (Limited bytes)
                   | None \<Rightarrow> Err ''max_tx_bytes must be a number'')
      | None \<Rightarrow> Err ''allow object must contain max_tx_bytes field'')"
| "deserialize_allow_policy _ = Err ''allow must be a boolean or object''"

fun deserialize_allow :: "json \<Rightarrow> allow_policy option option" where
  \<comment> \<open>a field of type \<open>Option<AllowPolicy>\<close>\<close>
  "deserialize_allow JNull = Some None"
| "deserialize_allow v =
     (case deserialize_allow_policy v of Inr p \<Rightarrow> Some (Some p) | Inl _ \<Rightarrow> None)"

fun deserialize_message :: "json \<Rightarrow> string option option" where
  \<comment> \<open>a field of type \<open>Option<String>\<close>\<close>
  "deserialize_message JNull = Some None"
| "deserialize_message (JString s) = Some (Some s)"
| "deserialize_message _ = None"

fun visit_map ::
  "(string \<times> json) list \<Rightarrow> allow_policy option option \<Rightarrow> string option option \<Rightarrow>
     rule_response option" where
  "visit_map [] a d =
     Some \<lparr>rr_allow = (case a of Some p \<Rightarrow> p | None \<Rightarrow> None),
           rr_deny_message = (case d of Some m \<Rightarrow> m | None \<Rightarrow> None)\<rparr>"
| "visit_map ((k, v) # es) a d =
     (if k = ''allow'' then
        (if a \<noteq> None then None
         else (case deserialize_allow v of None \<Rightarrow> None | Some p \<Rightarrow> visit_map es (Some p) d))
      else if k = ''deny_message'' then
        (if d \<noteq> None then None
         else (case deserialize_message v of None \<Rightarrow> None | Some m \<Rightarrow> visit_map es a (Some m)))
      else visit_map es a d)"

fun deserialize_rule_response :: "json \<Rightarrow> rule_response option" where
  "deserialize_rule_response (JObject es) = visit_map es None None"
| "deserialize_rule_response (JArray [a, d]) =
     (case deserialize_allow a of
        None \<Rightarrow> None
      | Some p \<Rightarrow> (case deserialize_message d of
                     None \<Rightarrow> None
                   | Some m \<Rightarrow> Some \<lparr>rr_allow = p, rr_deny_message = m\<rparr>))"
| "deserialize_rule_response _ = None"

fun serialize_allow_policy :: "allow_policy \<Rightarrow> json" where
  "serialize_allow_policy (PBool b) = JBool b"
| "serialize_allow_policy (Limited n) = JObject [(''max_tx_bytes'', JNumber (PosInt n))]"

definition serialize_rule_response :: "rule_response \<Rightarrow> json" where
  "serialize_rule_response r =
     JObject ((case rr_allow r of Some p \<Rightarrow> [(''allow'', serialize_allow_policy p)] | None \<Rightarrow> []) @
              (case rr_deny_message r of Some m \<Rightarrow> [(''deny_message'', JString m)] | None \<Rightarrow> []))"

definition from_string :: "json_parser \<Rightarrow> string \<Rightarrow> rule_response" where
  "from_string json_of s =
     (let trimmed = trim s
      in if trimmed = ''true'' then \<lparr>rr_allow = Some (PBool True), rr_deny_message = None\<rparr>
         else if trimmed = ''false'' then \<lparr>rr_allow = Some (PBool False), rr_deny_message = None\<rparr>
         else (case Option.bind (json_of trimmed) deserialize_rule_response of
                 Some response \<Rightarrow> response
               | None \<Rightarrow> \<lparr>rr_allow = Some (PBool False), rr_deny_message = Some trimmed\<rparr>))"

type_synonym verdict = "bool \<times> string option \<times> u64 option"

definition to_evaluation_result :: "rule_response \<Rightarrow> verdict" where
  "to_evaluation_result self =
     (case rr_allow self of
        Some (PBool True) \<Rightarrow> (True, None, None)
      | Some (PBool False) \<Rightarrow> (False, rr_deny_message self, None)
      | Some (Limited n) \<Rightarrow> (True, None, Some n)
      | None \<Rightarrow>
          let allowed = rr_deny_message self = None
          in if allowed then (True, None, None) else (False, rr_deny_message self, None))"

section \<open>Lemmas\<close>

lemmas verdict_simps [engine_simps] = to_evaluation_result_def

text \<open>A message comes only with a denial, a byte limit only with an allowance.\<close>

lemma to_evaluation_result_shape:
  "to_evaluation_result r = (allowed, message, bytes) \<Longrightarrow>
     (allowed \<longrightarrow> message = None) \<and> (\<not> allowed \<longrightarrow> bytes = None)"
  by (auto simp: to_evaluation_result_def Let_def
      split: option.splits allow_policy.splits bool.splits if_splits)

lemma visit_map_unknown:
  "k \<noteq> ''allow'' \<Longrightarrow> k \<noteq> ''deny_message'' \<Longrightarrow> visit_map ((k, v) # es) a d = visit_map es a d"
  by simp

text \<open>With distinct keys, the derived deserialiser is field lookup.\<close>

definition field :: "('v \<Rightarrow> 'a option option) \<Rightarrow> 'v option \<Rightarrow> 'a option option" where
  "field f v = (case v of None \<Rightarrow> Some None | Some x \<Rightarrow> f x)"

lemma visit_map_lookup:
  assumes "distinct (map fst es)"
    and "a \<noteq> None \<Longrightarrow> ''allow'' \<notin> fst ` set es" and "d \<noteq> None \<Longrightarrow> ''deny_message'' \<notin> fst ` set es"
  shows "visit_map es a d =
    (case (case a of Some p \<Rightarrow> Some p | None \<Rightarrow> field deserialize_allow (map_of es ''allow'')) of
       None \<Rightarrow> None
     | Some p \<Rightarrow>
         (case (case d of Some m \<Rightarrow> Some m
                | None \<Rightarrow> field deserialize_message (map_of es ''deny_message'')) of
            None \<Rightarrow> None | Some m \<Rightarrow> Some \<lparr>rr_allow = p, rr_deny_message = m\<rparr>))"
  using assms
proof (induction es arbitrary: a d)
  case Nil
  then show ?case by (auto simp: field_def split: option.splits)
next
  case (Cons x es)
  obtain k v where x: "x = (k, v)" by fastforce
  consider "k = ''allow''" | "k = ''deny_message''" | "k \<noteq> ''allow''" "k \<noteq> ''deny_message''" by blast
  then show ?case
  proof cases
    case 1
    with Cons.prems x have "a = None" and na: "''allow'' \<notin> fst ` set es" by auto
    with 1 x Cons.prems Cons.IH [of "Some p" d for p] show ?thesis
      by (auto simp: field_def split: option.splits)
  next
    case 2
    with Cons.prems x have "d = None" and "''deny_message'' \<notin> fst ` set es" by auto
    with 2 x Cons.prems Cons.IH [of a "Some m" for m] show ?thesis
      by (auto simp: field_def split: option.splits)
  next
    case 3
    then have eqs: "visit_map (x # es) a d = visit_map es a d"
      "map_of (x # es) ''allow'' = map_of es ''allow''"
      "map_of (x # es) ''deny_message'' = map_of es ''deny_message''"
      by (simp_all add: x)
    show ?thesis unfolding eqs by (rule Cons.IH) (use Cons.prems in auto)
  qed
qed

definition allows :: "rule_response \<Rightarrow> bool" where
  "allows r = fst (to_evaluation_result r)"

lemma allows_iff:
  "allows r \<longleftrightarrow> rr_allow r = Some (PBool True) \<or> (\<exists>n. rr_allow r = Some (Limited n)) \<or>
     (rr_allow r = None \<and> rr_deny_message r = None)"
  by (auto simp: allows_def to_evaluation_result_def Let_def
      split: option.splits allow_policy.splits bool.splits)

text \<open>
  A specification of the documents that allow, on the JSON text alone: the two fields are those of an object, where each
  may occur once and a missing one counts as null, or the two elements of an array. The message is a string or null. The
  document allows if its first field is true, is an object that ends with a 64-bit \<open>max_tx_bytes\<close>, or is null like the
  second.
\<close>

fun is_string :: "json \<Rightarrow> bool" where
  "is_string (JString _) = True"
| "is_string _ = False"

fun gives_limit :: "json \<Rightarrow> bool" where
  "gives_limit (JObject obj) =
     (case map_of (rev obj) ''max_tx_bytes'' of Some (JNumber (PosInt _)) \<Rightarrow> True | _ \<Rightarrow> False)"
| "gives_limit _ = False"

definition grants_pair :: "json \<Rightarrow> json \<Rightarrow> bool" where
  "grants_pair a d =
     ((is_string d \<or> d = JNull) \<and> (a = JBool True \<or> gives_limit a \<or> (a = JNull \<and> d = JNull)))"

definition field_values :: "string \<Rightarrow> (string \<times> json) list \<Rightarrow> json list" where
  "field_values k es = map snd (filter (\<lambda>e. fst e = k) es)"

definition the_field :: "string \<Rightarrow> (string \<times> json) list \<Rightarrow> json option" where
  "the_field k es = (case field_values k es of [] \<Rightarrow> Some JNull | [v] \<Rightarrow> Some v | _ \<Rightarrow> None)"

fun grants :: "json \<Rightarrow> bool" where
  "grants (JObject es) =
     (case (the_field ''allow'' es, the_field ''deny_message'' es) of
        (Some a, Some d) \<Rightarrow> grants_pair a d | _ \<Rightarrow> False)"
| "grants (JArray [a, d]) = grants_pair a d"
| "grants _ = False"

definition slot :: "string \<Rightarrow> (json \<Rightarrow> 'a option option) \<Rightarrow> (string \<times> json) list \<Rightarrow> 'a option option \<Rightarrow> 'a option option" where
  \<comment> \<open>what \<open>visit_map\<close> makes of the field_values of one key, after what it has already read\<close>
  "slot k f es acc =
     (case acc of
        Some p \<Rightarrow> (if field_values k es = [] then Some p else None)
      | None \<Rightarrow> (case field_values k es of [] \<Rightarrow> Some None | [v] \<Rightarrow> f v | _ \<Rightarrow> None))"

lemma slot_simps:
  "slot k f [] acc = (case acc of Some p \<Rightarrow> Some p | None \<Rightarrow> Some None)"
  "slot k f ((k, v) # es) acc =
     (if acc \<noteq> None then None else case f v of None \<Rightarrow> None | Some p \<Rightarrow> slot k f es (Some p))"
  "j \<noteq> k \<Longrightarrow> slot k f ((j, v) # es) acc = slot k f es acc"
  by (auto simp: slot_def field_values_def split: option.splits list.splits)

lemma visit_map_slots:
  "visit_map es a d =
    (case (slot ''allow'' deserialize_allow es a, slot ''deny_message'' deserialize_message es d) of
       (Some p, Some m) \<Rightarrow> Some \<lparr>rr_allow = p, rr_deny_message = m\<rparr> | _ \<Rightarrow> None)"
proof (induction es arbitrary: a d)
  case Nil
  then show ?case by (simp add: slot_simps split: option.splits)
next
  case (Cons x es)
  obtain k v where x: "x = (k, v)" by fastforce
  consider "k = ''allow''" | "k = ''deny_message''" | "k \<noteq> ''allow''" "k \<noteq> ''deny_message''" by blast
  then show ?case
  proof cases
    case 1
    then show ?thesis by (cases "deserialize_allow v") (simp_all add: x slot_simps Cons.IH)
  next
    case 2
    then show ?thesis by (cases "deserialize_message v") (simp_all add: x slot_simps Cons.IH split: option.splits)
  next
    case 3
    then show ?thesis by (simp add: x slot_simps Cons.IH)
  qed
qed

lemma deserialize_pair:
  "(\<exists>p m. deserialize_allow a = Some p \<and> deserialize_message d = Some m \<and>
      allows \<lparr>rr_allow = p, rr_deny_message = m\<rparr>) \<longleftrightarrow> grants_pair a d"
proof -
  have m: "deserialize_message d = Some m \<longleftrightarrow> (d = JNull \<and> m = None) \<or> (\<exists>s. d = JString s \<and> m = Some s)" for m
    by (cases d) auto
  have b: "deserialize_allow a = Some (Some (PBool True)) \<longleftrightarrow> a = JBool True"
    by (cases a) (auto split: option.splits sum.splits)
  have l: "(\<exists>n. deserialize_allow a = Some (Some (Limited n))) \<longleftrightarrow> gives_limit a"
    by (cases a) (auto split: option.splits sum.splits json.splits json_number.splits elim!: as_u64.elims)
  have n: "deserialize_allow a = Some None \<longleftrightarrow> a = JNull"
    by (cases a) (auto split: option.splits sum.splits)
  have s: "is_string d \<longleftrightarrow> (\<exists>s. d = JString s)" by (cases d) auto
  show ?thesis unfolding grants_pair_def allows_iff s using m b l n by auto
qed

lemma deserialize_grants:
  "(\<exists>r. deserialize_rule_response doc = Some r \<and> allows r) \<longleftrightarrow> grants doc"
proof (cases doc rule: grants.cases)
  case (1 es)
  have a: "slot ''allow'' deserialize_allow es None = Option.bind (the_field ''allow'' es) deserialize_allow"
    and d: "slot ''deny_message'' deserialize_message es None = Option.bind (the_field ''deny_message'' es) deserialize_message"
    by (simp_all add: slot_def the_field_def split: list.splits)
  have "visit_map es None None =
      (case (the_field ''allow'' es, the_field ''deny_message'' es) of
         (Some a, Some d) \<Rightarrow>
           (case (deserialize_allow a, deserialize_message d) of
              (Some p, Some m) \<Rightarrow> Some \<lparr>rr_allow = p, rr_deny_message = m\<rparr> | _ \<Rightarrow> None)
       | _ \<Rightarrow> None)"
    unfolding visit_map_slots a d by (simp split: option.splits)
  with 1 show ?thesis
    by (auto simp: deserialize_pair [symmetric] split: option.splits)
next
  case (2 a d)
  then show ?thesis by (auto simp: deserialize_pair [symmetric] split: option.splits)
qed simp_all

lemma deserialize_serialize_policy: "deserialize_allow (serialize_allow_policy p) = Some (Some p)"
  by (cases p) simp_all

section \<open>Properties\<close>

text \<open>
  (C37) The response format round-trips: what the engines would serialise for a response is read
  back as the same response, for every policy, limit and message.
\<close>

theorem rule_response_roundtrip:
  "deserialize_rule_response (serialize_rule_response r) = Some r"
  by (cases r) (simp add: serialize_rule_response_def deserialize_serialize_policy split: option.splits)

text \<open>
  (C11) Rule responses fail closed. An output allows a request exactly if, after trimming, it is the
  word \<open>true\<close>, or it is not the word \<open>false\<close> and is a JSON document that grants in the sense of the
  specification \<open>grants\<close>: its \<open>allow\<close> is true or has a byte limit, or it has neither an \<open>allow\<close> nor a
  \<open>deny_message\<close>, as the empty object; repeated fields, fields of a wrong type and every other document
  deny. An output that is neither of the two words nor a response document denies with the trimmed
  output itself as its message.
\<close>

theorem from_string_fails_closed:
  "(allows (from_string json_of s) \<longleftrightarrow>
      trim s = ''true'' \<or>
      (trim s \<noteq> ''false'' \<and> (\<exists>doc. json_of (trim s) = Some doc \<and> grants doc))) \<and>
   (trim s \<notin> {''true'', ''false''} \<and> Option.bind (json_of (trim s)) deserialize_rule_response = None
      \<longrightarrow> to_evaluation_result (from_string json_of s) = (False, Some (trim s), None))"
proof (intro conjI impI)
  have "allows (from_string json_of s) \<longleftrightarrow>
     trim s = ''true'' \<or>
     (trim s \<noteq> ''false'' \<and>
      (\<exists>doc. json_of (trim s) = Some doc \<and> (\<exists>r. deserialize_rule_response doc = Some r \<and> allows r)))"
    by (cases "json_of (trim s)") (auto simp: from_string_def Let_def allows_iff split: option.splits)
  then show "allows (from_string json_of s) \<longleftrightarrow>
     trim s = ''true'' \<or>
     (trim s \<noteq> ''false'' \<and> (\<exists>doc. json_of (trim s) = Some doc \<and> grants doc))"
    by (simp only: deserialize_grants)
next
  assume "trim s \<notin> {''true'', ''false''} \<and> Option.bind (json_of (trim s)) deserialize_rule_response = None"
  then show "to_evaluation_result (from_string json_of s) = (False, Some (trim s), None)"
    by (simp add: from_string_def to_evaluation_result_def)
qed

theorem from_string_fails_closed_witness:
  "to_evaluation_result (from_string (\<lambda>_. None) '' go away'') = (False, Some ''go away'', None)"
proof -
  have t: "trim '' go away'' = ''go away''" by (simp add: trim_ascii ascii_ws_def)
  from from_string_fails_closed [of "\<lambda>_. None" "'' go away''"] show ?thesis by (simp add: t)
qed

text \<open>
  Reading a JSON object with distinct keys is field lookup: the order of the fields and every
  unknown field are irrelevant, a missing or null field is absent, and one field of a wrong type
  rejects the whole document.
\<close>

theorem deserialize_object_lookup:
  assumes "distinct (map fst es)"
  shows "deserialize_rule_response (JObject es) =
    (case (field deserialize_allow (map_of es ''allow''),
           field deserialize_message (map_of es ''deny_message'')) of
       (Some p, Some m) \<Rightarrow> Some \<lparr>rr_allow = p, rr_deny_message = m\<rparr>
     | _ \<Rightarrow> None)"
  using visit_map_lookup [OF assms, of None None] by (simp split: option.splits)

theorem deserialize_object_lookup_witness:
  "deserialize_rule_response
     (JObject [(''x'', JNull), (''allow'', JObject [(''max_tx_bytes'', JNumber (PosInt 512))])]) =
   Some \<lparr>rr_allow = Some (Limited 512), rr_deny_message = None\<rparr>"
proof -
  let ?es = "[(''x'', JNull), (''allow'', JObject [(''max_tx_bytes'', JNumber (PosInt 512))])]"
  have "distinct (map fst ?es)" by simp
  from deserialize_object_lookup [OF this] show ?thesis by (simp add: field_def)
qed

end
