(* ===== verification/Shell_Engine.thy ===== *)
theory Shell_Engine
  imports Rule_Common
begin

text \<open>
  \<^verbatim>\<open>src/src/rules/shell.rs\<close>: the engine that runs a script per request. Running a command is the
  operating system's part: a parameter \<open>run\<close> that takes the command line and the environment
  variables and gives the outcome, over a state \<open>'w\<close> of the outside world.
\<close>

record shell_command =
  sc_program :: string
  sc_args :: "string list"
  sc_env :: "(string \<times> string) list"

text \<open>
  \<open>spawn\<close> may fail; \<open>wait_with_output\<close> under the 30 second timeout ends with the exit status and
  the output, an error, or the timeout, at which the child is killed.
\<close>

datatype script_outcome =
    SpawnFailed string
  | Completed bool string string
  | WaitFailed string
  | TimedOut

type_synonym 'w runner = "shell_command \<Rightarrow> 'w \<Rightarrow> script_outcome \<times> 'w"

definition script_command ::
  "string \<Rightarrow> string \<Rightarrow> string \<Rightarrow> string \<Rightarrow> string \<Rightarrow> string \<Rightarrow> string \<Rightarrow> shell_command" where
  "script_command script url meth scheme host path requester_ip =
     (let env = [(''HTTPJAIL_URL'', url), (''HTTPJAIL_METHOD'', meth), (''HTTPJAIL_SCHEME'', scheme),
                 (''HTTPJAIL_HOST'', host), (''HTTPJAIL_PATH'', path),
                 (''HTTPJAIL_REQUESTER_IP'', requester_ip)]
      in if str_contains '' '' script
         then \<lparr>sc_program = ''sh'', sc_args = [''-c'', script], sc_env = env\<rparr>
         else \<lparr>sc_program = script, sc_args = [], sc_env = env\<rparr>)"

definition execute_script ::
  "url_parser \<Rightarrow> 'w runner \<Rightarrow> string \<Rightarrow> string \<Rightarrow> string \<Rightarrow> string \<Rightarrow> 'w \<Rightarrow> (bool \<times> string) \<times> 'w" where
  "execute_script url_parse run script meth url requester_ip w =
     (case url_parse url of
        Inl e \<Rightarrow> ((False, ''Failed to parse URL: '' @ e), w)
      | Inr p \<Rightarrow>
          let host = (case pu_host p of Some h \<Rightarrow> h | None \<Rightarrow> [])
          in (case run (script_command script url meth (pu_scheme p) host (pu_path p) requester_ip) w of
                (outcome, w') \<Rightarrow>
                  (case outcome of
                     SpawnFailed e \<Rightarrow> (False, ''Script execution failed: '' @ e)
                   | Completed success stdout stderr \<Rightarrow> (success, trim (from_utf8_lossy stdout))
                   | WaitFailed e \<Rightarrow> (False, ''Script execution error: '' @ e)
                   | TimedOut \<Rightarrow> (False, ''Script execution timed out''),
                   w')))"

definition shell_evaluate :: "url_parser \<Rightarrow> 'w runner \<Rightarrow> string \<Rightarrow> 'w evaluator" where
  "shell_evaluate url_parse run script meth url requester_ip w =
     (case execute_script url_parse run script meth url requester_ip w of
        ((allowed, ctx), w') \<Rightarrow>
          (if allowed then (if ctx \<noteq> [] then with_context allow ctx else allow)
           else (if ctx \<noteq> [] then with_context deny ctx else deny), w'))"

definition shell_rule_engine :: "url_parser \<Rightarrow> 'w runner \<Rightarrow> string \<Rightarrow> 'w rule_engine_trait" where
  "shell_rule_engine url_parse run script =
     \<lparr>evaluate = shell_evaluate url_parse run script, engine_name = ''shell''\<rparr>"

lemmas shell_defs [engine_simps] = shell_rule_engine_def shell_evaluate_def execute_script_def

interpretation shell: rule_engine "shell_rule_engine url_parse run script" "\<lambda>u. is_ok (url_parse u)"
  for url_parse run script
  by unfold_locales
    (auto simp: engine_simps limit_only_on_allow_def is_ok_def split: prod.splits sum.splits)

section \<open>Properties\<close>

text \<open>The environment variables that the script sees for a parsed URL.\<close>

definition script_sees :: "shell_command \<Rightarrow> string \<Rightarrow> string \<Rightarrow> parsed_url \<Rightarrow> string \<Rightarrow> bool" where
  "script_sees c url meth p ip =
     (map_of (sc_env c) ''HTTPJAIL_URL'' = Some url \<and> map_of (sc_env c) ''HTTPJAIL_METHOD'' = Some meth \<and>
      map_of (sc_env c) ''HTTPJAIL_SCHEME'' = Some (pu_scheme p) \<and>
      map_of (sc_env c) ''HTTPJAIL_HOST'' = Some (case pu_host p of Some h \<Rightarrow> h | None \<Rightarrow> []) \<and>
      map_of (sc_env c) ''HTTPJAIL_PATH'' = Some (pu_path p) \<and>
      map_of (sc_env c) ''HTTPJAIL_REQUESTER_IP'' = Some ip)"

lemma script_command_sees:
  "script_sees (script_command script url meth (pu_scheme p)
     (case pu_host p of Some h \<Rightarrow> h | None \<Rightarrow> []) (pu_path p) ip) url meth p ip"
  by (simp add: script_sees_def script_command_def Let_def)

text \<open>
  The shell engine allows a request exactly if the URL parses and the script, run with the six
  variables that describe this request, was started, ended in time and exited successfully; a spawn
  error, a wait error, a timeout and any other exit status deny.
\<close>

theorem shell_allow_iff:
  "action (fst (shell_evaluate url_parse run script meth url ip w)) = Allow \<longleftrightarrow>
     (\<exists>p c out err. url_parse url = Ok p \<and>
        c = script_command script url meth (pu_scheme p)
              (case pu_host p of Some h \<Rightarrow> h | None \<Rightarrow> []) (pu_path p) ip \<and>
        script_sees c url meth p ip \<and> fst (run c w) = Completed True out err)"
  using script_command_sees
  by (auto simp: engine_simps Let_def split: prod.splits sum.splits script_outcome.splits if_splits)

text \<open>
  A denial of the shell engine carries the operating system's own error text when the script
  cannot be started, so the text reaches the jailed client in the body of the 403 response; the
  trait's documentation forbids such detail in denial messages.
\<close>

theorem shell_spawn_error_in_context:
  assumes "url_parse url = Ok p"
    and "\<forall>c. run c w = (SpawnFailed e, w')"
  shows "shell_evaluate url_parse run script meth url ip w =
           (with_context deny (''Script execution failed: '' @ e), w')"
  using assms by (simp add: engine_simps)

theorem shell_spawn_error_in_context_witness:
  "fst (shell_evaluate (\<lambda>_. Ok \<lparr>pu_scheme = ''http'', pu_host = None, pu_path = ''/''\<rparr>)
          (\<lambda>_ w. (SpawnFailed ''No such file or directory (os error 2)'', w)) ''/etc/rule.sh''
          ''GET'' ''http://a/'' ''10.0.0.1'' ()) =
   with_context deny ''Script execution failed: No such file or directory (os error 2)''"
  by (subst shell_spawn_error_in_context) simp_all

end
