(* ===== verification/Proc_Engine.thy ===== *)
theory Proc_Engine
  imports Rule_Common "HOL-Library.Multiset"
begin

text \<open>
  \<^verbatim>\<open>src/src/rules/proc.rs\<close>: the line processor, an engine that keeps one child process alive,
  writes a JSON request per line and reads a response per line, and restarts the child when
  anything goes wrong.

  The child process is the operating system's: the operations on it are the fields of \<open>proc_ops\<close>,
  over a handle type \<open>'c\<close> and a state \<open>'w\<close> of the outside world. A handle is killed when it is
  dropped (\<open>kill_on_drop\<close>). The engine's mutex is held for the whole of \<open>execute_program\<close>, so that
  evaluations follow one another.
\<close>

section \<open>The child process\<close>

datatype wait_status = Exited | Running | WaitError

datatype 'c spawn_status = SpawnError string | NoStdin 'c | NoStdout 'c | Spawned 'c

datatype line_read = Eof | Line string | ReadError string | ReadTimeout

record ('c, 'w) proc_ops =
  try_wait :: "'c \<Rightarrow> 'w \<Rightarrow> wait_status \<times> 'w"
  spawn :: "string \<Rightarrow> 'w \<Rightarrow> 'c spawn_status \<times> 'w"
  write_all :: "'c \<Rightarrow> string \<Rightarrow> 'w \<Rightarrow> bool \<times> 'w"
  flush :: "'c \<Rightarrow> 'w \<Rightarrow> bool \<times> 'w"
  read_line :: "'c \<Rightarrow> 'w \<Rightarrow> line_read \<times> 'w"
  kill :: "'c \<Rightarrow> 'w \<Rightarrow> 'w"

text \<open>The engine's guarded cell \<open>process\<close> and the outside world.\<close>

record ('c, 'w) proc_state =
  process :: "'c option"
  world :: 'w

section \<open>Operations\<close>

definition proc_new :: "'w \<Rightarrow> ('c, 'w) proc_state" where
  "proc_new w = \<lparr>process = None, world = w\<rparr>"

definition take_and_kill :: "('c, 'w) proc_ops \<Rightarrow> ('c, 'w) proc_state \<Rightarrow> ('c, 'w) proc_state" where
  \<comment> \<open>\<open>if let Some(state) = process_guard.take() { kill_process(state) }\<close>\<close>
  "take_and_kill ops st =
     (case process st of
        Some c \<Rightarrow> st\<lparr>process := None, world := kill ops c (world st)\<rparr>
      | None \<Rightarrow> st)"

definition reap :: "('c, 'w) proc_ops \<Rightarrow> ('c, 'w) proc_state \<Rightarrow> ('c, 'w) proc_state" where
  \<comment> \<open>the first half of \<open>ensure_process_running\<close>: keep the process only if it still runs\<close>
  "reap ops st =
     (case process st of
        Some c \<Rightarrow>
          (case try_wait ops c (world st) of
             (Exited, w) \<Rightarrow> st\<lparr>process := None, world := kill ops c w\<rparr>
           | (Running, w) \<Rightarrow> st\<lparr>process := Some c, world := w\<rparr>
           | (WaitError, w) \<Rightarrow> st\<lparr>process := None, world := kill ops c w\<rparr>)
      | None \<Rightarrow> st)"

definition ensure_process_running ::
  "('c, 'w) proc_ops \<Rightarrow> string \<Rightarrow> ('c, 'w) proc_state \<Rightarrow> unit result \<times> ('c, 'w) proc_state" where
  "ensure_process_running ops program st =
     (let st = reap ops st
      in if process st = None then
           (case spawn ops program (world st) of
              (SpawnError e, w) \<Rightarrow> (Err (''Failed to spawn program: '' @ e), st\<lparr>world := w\<rparr>)
            | (NoStdin c, w) \<Rightarrow> (Err ''Failed to get stdin handle'', st\<lparr>world := kill ops c w\<rparr>)
            | (NoStdout c, w) \<Rightarrow> (Err ''Failed to get stdout handle'', st\<lparr>world := kill ops c w\<rparr>)
            | (Spawned c, w) \<Rightarrow> (Ok (), st\<lparr>process := Some c, world := w\<rparr>))
         else (Ok (), st))"

definition read_response ::
  "('c, 'w) proc_ops \<Rightarrow> json_parser \<Rightarrow> 'c \<Rightarrow> ('c, 'w) proc_state \<Rightarrow>
     verdict result \<times> ('c, 'w) proc_state" where
  \<comment> \<open>the second half of \<open>send_request_to_process\<close>\<close>
  "read_response ops json_of c st =
     (case read_line ops c (world st) of (res, w) \<Rightarrow>
        let st = st\<lparr>world := w\<rparr>
        in (case res of
              Eof \<Rightarrow> (Err ''Program closed unexpectedly'', take_and_kill ops st)
            | Line response_line \<Rightarrow>
                let response = trim response_line
                in if response = [] then (Err ''Program returned empty response'', take_and_kill ops st)
                   else (Ok (to_evaluation_result (from_string json_of response)), st)
            | ReadError e \<Rightarrow> (Err (''Error reading from program: '' @ e), take_and_kill ops st)
            | ReadTimeout \<Rightarrow> (Err ''Program response timeout'', take_and_kill ops st)))"

definition send_request_to_process ::
  "('c, 'w) proc_ops \<Rightarrow> json_parser \<Rightarrow> string \<Rightarrow> string \<Rightarrow> ('c, 'w) proc_state \<Rightarrow>
     verdict result \<times> ('c, 'w) proc_state" where
  "send_request_to_process ops json_of program json_request st =
     (case ensure_process_running ops program st of
        (Inl e, st) \<Rightarrow> (Err e, st)
      | (Inr _, st) \<Rightarrow>
          (case process st of
             None \<Rightarrow> (Err ''Process not available after ensure_process_running'', st)
           | Some c \<Rightarrow>
               (case write_all ops c (json_request @ newline) (world st) of
                  (False, w) \<Rightarrow> (Err ''Failed to write to program'', take_and_kill ops (st\<lparr>world := w\<rparr>))
                | (True, w) \<Rightarrow>
                    (case flush ops c w of
                       (False, w) \<Rightarrow> (Err ''Failed to flush stdin'', take_and_kill ops (st\<lparr>world := w\<rparr>))
                     | (True, w) \<Rightarrow> read_response ops json_of c (st\<lparr>world := w\<rparr>)))))"

definition verdict_result :: "verdict \<Rightarrow> evaluation_result" where
  "verdict_result v =
     (case v of (allowed, message, bytes) \<Rightarrow>
        if allowed then
          (let result = allow;
               result = (case message of Some msg \<Rightarrow> with_context result msg | None \<Rightarrow> result)
           in (case bytes of Some n \<Rightarrow> with_max_tx_bytes result n | None \<Rightarrow> result))
        else (case message of Some msg \<Rightarrow> with_context deny msg | None \<Rightarrow> deny))"

fun attempts ::
  "nat \<Rightarrow> ('c, 'w) proc_ops \<Rightarrow> json_parser \<Rightarrow> string \<Rightarrow> string \<Rightarrow> ('c, 'w) proc_state \<Rightarrow>
     evaluation_result \<times> ('c, 'w) proc_state" where
  \<comment> \<open>the loop of \<open>execute_program\<close>, with the number of attempts that are left\<close>
  "attempts 0 ops json_of program req st = (with_context deny ''Program evaluation failed'', st)"
| "attempts (Suc n) ops json_of program req st =
     (case send_request_to_process ops json_of program req st of
        (Inr v, st') \<Rightarrow> (verdict_result v, st')
      | (Inl _, st') \<Rightarrow> attempts n ops json_of program req st')"

definition execute_program ::
  "url_parser \<Rightarrow> (request_info \<Rightarrow> string result) \<Rightarrow> json_parser \<Rightarrow> ('c, 'w) proc_ops \<Rightarrow> string \<Rightarrow>
     ('c, 'w) proc_state evaluator" where
  "execute_program url_parse to_json json_of ops program meth url requester_ip st =
     (case from_request url_parse meth url requester_ip of
        Inl e \<Rightarrow> (with_context deny e, st)
      | Inr info \<Rightarrow>
          (case to_json info of
             Inl _ \<Rightarrow> (with_context deny ''Program evaluation failed'', st)
           | Inr req \<Rightarrow> attempts 2 ops json_of program req st))"

definition proc_rule_engine ::
  "url_parser \<Rightarrow> (request_info \<Rightarrow> string result) \<Rightarrow> json_parser \<Rightarrow> ('c, 'w) proc_ops \<Rightarrow> string \<Rightarrow>
     ('c, 'w) proc_state rule_engine_trait" where
  "proc_rule_engine url_parse to_json json_of ops program =
     \<lparr>evaluate = execute_program url_parse to_json json_of ops program, engine_name = ''proc''\<rparr>"

definition proc_drop :: "('c, 'w) proc_ops \<Rightarrow> bool \<Rightarrow> ('c, 'w) proc_state \<Rightarrow> ('c, 'w) proc_state" where
  \<comment> \<open>\<open>Drop\<close>: kills the process if the lock is free\<close>
  "proc_drop ops lock_free st = (if lock_free then take_and_kill ops st else st)"

section \<open>The engine contract\<close>

lemma verdict_result_action: "action (verdict_result v) = (if fst v then Allow else Deny)"
  by (cases v) (auto simp: verdict_result_def engine_simps Let_def split: option.splits)

lemma verdict_result_limit: "limit_only_on_allow (verdict_result v)"
  by (cases v) (auto simp: verdict_result_def engine_simps Let_def limit_only_on_allow_def
      split: option.splits)

lemma attempts_limit: "limit_only_on_allow (fst (attempts n ops json_of program req st))"
  by (induction n arbitrary: st)
    (auto simp: engine_simps limit_only_on_allow_def verdict_result_limit [unfolded limit_only_on_allow_def]
      split: prod.splits sum.splits)

interpretation line_proc:
  rule_engine "proc_rule_engine url_parse to_json json_of ops program" "\<lambda>u. is_ok (url_parse u)"
  for url_parse to_json json_of ops program
proof unfold_locales
  fix m u ip s
  show "limit_only_on_allow (fst (evaluate (proc_rule_engine url_parse to_json json_of ops program) m u ip s))"
    by (simp add: proc_rule_engine_def execute_program_def attempts_limit split: sum.splits)
      (simp add: engine_simps limit_only_on_allow_def)
  assume "\<not> is_ok (url_parse u)"
  then have "\<not> is_ok (from_request url_parse m u ip)" by (simp add: from_request_ok_iff)
  then show "action (fst (evaluate (proc_rule_engine url_parse to_json json_of ops program) m u ip s)) = Deny"
    by (auto simp: proc_rule_engine_def execute_program_def engine_simps is_ok_def split: sum.splits)
qed

section \<open>Process accounting\<close>

text \<open>
  The operations are polymorphic in the outside world. Running them over a world that also records
  which children were started, killed, written to and flushed, with the outcome, and what they answered gives the trace
  of an evaluation without changing the definitions.
\<close>

datatype 'c proc_event = Started 'c | Killed 'c | Sent 'c string bool | Flushed 'c bool | Answered 'c line_read

fun spawn_events :: "'c spawn_status \<Rightarrow> 'c proc_event list" where
  "spawn_events (SpawnError _) = []"
| "spawn_events (NoStdin c) = [Started c]"
| "spawn_events (NoStdout c) = [Started c]"
| "spawn_events (Spawned c) = [Started c]"

definition traced :: "('c, 'w) proc_ops \<Rightarrow> ('c, 'w \<times> 'c proc_event list) proc_ops" where
  "traced ops =
     \<lparr>try_wait = (\<lambda>c (w, es). case try_wait ops c w of (r, w') \<Rightarrow> (r, (w', es))),
      spawn = (\<lambda>p (w, es). case spawn ops p w of (r, w') \<Rightarrow> (r, (w', es @ spawn_events r))),
      write_all = (\<lambda>c l (w, es). case write_all ops c l w of (r, w') \<Rightarrow> (r, (w', es @ [Sent c l r]))),
      flush = (\<lambda>c (w, es). case flush ops c w of (r, w') \<Rightarrow> (r, (w', es @ [Flushed c r]))),
      read_line = (\<lambda>c (w, es). case read_line ops c w of (r, w') \<Rightarrow> (r, (w', es @ [Answered c r]))),
      kill = (\<lambda>c (w, es). (kill ops c w, es @ [Killed c]))\<rparr>"

fun started :: "'c proc_event list \<Rightarrow> 'c multiset" where
  "started [] = {#}"
| "started (Started c # es) = add_mset c (started es)"
| "started (_ # es) = started es"

fun killed :: "'c proc_event list \<Rightarrow> 'c multiset" where
  "killed [] = {#}"
| "killed (Killed c # es) = add_mset c (killed es)"
| "killed (_ # es) = killed es"

lemma started_append [simp]: "started (xs @ ys) = started xs + started ys"
  by (induction xs rule: started.induct) auto

lemma killed_append [simp]: "killed (xs @ ys) = killed xs + killed ys"
  by (induction xs rule: killed.induct) auto

lemma killed_spawn_events [simp]: "killed (spawn_events r) = {#}"
  by (cases r) auto

definition guard_mset :: "'c option \<Rightarrow> 'c multiset" where
  "guard_mset g = (case g of Some c \<Rightarrow> {#c#} | None \<Rightarrow> {#})"

lemma guard_mset_simps [simp]: "guard_mset None = {#}" "guard_mset (Some c) = {#c#}"
  by (simp_all add: guard_mset_def)

abbreviation events :: "('c, 'w \<times> 'c proc_event list) proc_state \<Rightarrow> 'c proc_event list" where
  "events st \<equiv> snd (world st)"

text \<open>Every child that was started has been killed or is the one in the engine's cell.\<close>

definition accounted :: "('c, 'w \<times> 'c proc_event list) proc_state \<Rightarrow> bool" where
  "accounted st = (started (events st) = killed (events st) + guard_mset (process st))"

lemma take_and_kill_simps:
  "process (take_and_kill (traced ops) st) = None"
  "accounted st \<Longrightarrow> accounted (take_and_kill (traced ops) st)"
  "size (started (events (take_and_kill (traced ops) st))) = size (started (events st))"
  by (auto simp: take_and_kill_def accounted_def traced_def split: option.splits prod.splits)

lemma reap_simps:
  "accounted st \<Longrightarrow> accounted (reap (traced ops) st)"
  "started (events (reap (traced ops) st)) = started (events st)"
  by (auto simp: reap_def accounted_def traced_def split: option.splits prod.splits wait_status.splits)

lemma ensure_accounted:
  assumes "ensure_process_running (traced ops) program st = (r, st')"
  shows "accounted st \<Longrightarrow> accounted st'"
    and "size (started (events st')) \<le> Suc (size (started (events st)))"
    and "is_ok r \<longleftrightarrow> process st' \<noteq> None"
proof -
  let ?s = "reap (traced ops) st"
  obtain w es where w: "world ?s = (w, es)" by fastforce
  obtain sp w' where sp: "spawn ops program w = (sp, w')" by fastforce
  have e: "started es = started (events st)" using reap_simps(2) [of ops st] w by simp
  have a: "accounted st \<Longrightarrow> accounted ?s" by (rule reap_simps)
  have "(accounted st \<longrightarrow> accounted st') \<and>
        size (started (events st')) \<le> Suc (size (started (events st))) \<and>
        (is_ok r \<longleftrightarrow> process st' \<noteq> None)"
    using assms a w e sp
    by (cases sp; cases "process ?s")
      (auto simp: ensure_process_running_def traced_def accounted_def Let_def)
  then show "accounted st \<Longrightarrow> accounted st'"
    and "size (started (events st')) \<le> Suc (size (started (events st)))"
    and "is_ok r \<longleftrightarrow> process st' \<noteq> None"
    by auto
qed

lemma read_response_accounted:
  assumes "read_response (traced ops) json_of c st = (r, st')"
  shows "accounted st \<Longrightarrow> accounted st'"
    and "size (started (events st')) = size (started (events st))"
    and "\<not> is_ok r \<Longrightarrow> process st' = None"
proof -
  obtain w es where w: "world st = (w, es)" by fastforce
  obtain res w' where r: "read_line ops c w = (res, w')" by fastforce
  let ?s = "st\<lparr>world := (w', es @ [Answered c res])\<rparr>"
  have s: "accounted ?s = accounted st" "started (events ?s) = started (events st)" using w by (simp_all add: accounted_def)
  have rd: "read_line (traced ops) c (world st) = (res, (w', es @ [Answered c res]))"
    using w r by (simp add: traced_def)
  have "(st' = take_and_kill (traced ops) ?s) \<or> (st' = ?s \<and> is_ok r)"
    using assms rd by (cases res) (auto simp: read_response_def Let_def split: if_splits)
  then show "accounted st \<Longrightarrow> accounted st'"
    and "size (started (events st')) = size (started (events st))"
    and "\<not> is_ok r \<Longrightarrow> process st' = None"
    using s take_and_kill_simps(1) take_and_kill_simps(2) [of ?s ops]
      take_and_kill_simps(3) [of ops ?s] by auto
qed

text \<open>One attempt: it starts at most one child, keeps the accounts, and leaves no child on failure.\<close>

lemma send_accounted:
  assumes "send_request_to_process (traced ops) json_of program req st = (r, st')"
  shows "accounted st \<Longrightarrow> accounted st'"
    and "size (started (events st')) \<le> Suc (size (started (events st)))"
    and "\<not> is_ok r \<Longrightarrow> process st' = None"
proof -
  obtain r1 st1 where e: "ensure_process_running (traced ops) program st = (r1, st1)" by fastforce
  note ens = ensure_accounted [OF e]
  have "(accounted st \<longrightarrow> accounted st') \<and>
        size (started (events st')) \<le> Suc (size (started (events st))) \<and>
        (\<not> is_ok r \<longrightarrow> process st' = None)"
  proof (cases "process st1")
    case None
    with e ens(3) assms have "st' = st1" and "process st' = None"
      by (cases r1; auto simp: send_request_to_process_def)+
    with ens show ?thesis by simp
  next
    case (Some c)
    with ens(3) obtain u where r1: "r1 = Inr u" by (cases r1) auto
    obtain w es where w: "world st1 = (w, es)" by fastforce
    obtain b w1 where wr: "write_all ops c (req @ newline) w = (b, w1)" by fastforce
    obtain b2 w2 where fl: "flush ops c w1 = (b2, w2)" by fastforce
    let ?es = "es @ [Sent c (req @ newline) b]"
    let ?fs = "?es @ [Flushed c b2]"
    have wr': "write_all (traced ops) c (req @ newline) (world st1) = (b, (w1, ?es))"
      using w wr by (simp add: traced_def)
    have fl': "flush (traced ops) c (w1, ?es) = (b2, (w2, ?fs))"
      using fl by (simp add: traced_def)
    have acc: "accounted st1 \<Longrightarrow> accounted (st1\<lparr>world := (x, ?es)\<rparr>)"
      "accounted st1 \<Longrightarrow> accounted (st1\<lparr>world := (x, ?fs)\<rparr>)" for x
      using w by (simp_all add: accounted_def)
    have sz: "started (events (st1\<lparr>world := (x, ?es)\<rparr>)) = started (events st1)"
      "started (events (st1\<lparr>world := (x, ?fs)\<rparr>)) = started (events st1)" for x
      using w by simp_all
    have "(\<exists>x. st' = take_and_kill (traced ops) (st1\<lparr>world := (x, ?es)\<rparr>) \<or>
               st' = take_and_kill (traced ops) (st1\<lparr>world := (x, ?fs)\<rparr>)) \<or>
          read_response (traced ops) json_of c (st1\<lparr>world := (w2, ?fs)\<rparr>) = (r, st')"
      using assms e r1 Some wr' fl'
      by (cases b; cases b2) (auto simp: send_request_to_process_def)
    then show ?thesis
    proof
      assume "\<exists>x. st' = take_and_kill (traced ops) (st1\<lparr>world := (x, ?es)\<rparr>) \<or>
               st' = take_and_kill (traced ops) (st1\<lparr>world := (x, ?fs)\<rparr>)"
      with ens acc sz take_and_kill_simps show ?thesis by metis
    next
      assume "read_response (traced ops) json_of c (st1\<lparr>world := (w2, ?fs)\<rparr>) = (r, st')"
      from read_response_accounted [OF this] ens acc sz show ?thesis by metis
    qed
  qed
  then show "accounted st \<Longrightarrow> accounted st'"
    and "size (started (events st')) \<le> Suc (size (started (events st)))"
    and "\<not> is_ok r \<Longrightarrow> process st' = None"
    by auto
qed

lemma attempts_accounted:
  assumes "attempts n (traced ops) json_of program req st = (r, st')"
  shows "(accounted st \<longrightarrow> accounted st') \<and>
         size (started (events st')) \<le> n + size (started (events st))"
  using assms
proof (induction n arbitrary: st)
  case 0
  then show ?case by simp
next
  case (Suc n)
  obtain r1 st1 where s: "send_request_to_process (traced ops) json_of program req st = (r1, st1)"
    by fastforce
  note one = send_accounted [OF s]
  show ?case
  proof (cases r1)
    case (Inl e)
    with Suc.prems s have "attempts n (traced ops) json_of program req st1 = (r, st')" by simp
    from Suc.IH [OF this] one show ?thesis by auto
  next
    case (Inr v)
    with Suc.prems s have "st' = st1" by simp
    with one show ?thesis by auto
  qed
qed

section \<open>Properties\<close>

text \<open>
  (C27) No child process leaks: whatever the program and the operating system do during an
  evaluation, every child that was ever started has been killed or is the one in the engine's cell,
  and an evaluation starts at most two children.
\<close>

theorem proc_children_accounted:
  assumes "accounted st"
    and "execute_program url_parse to_json json_of (traced ops) program meth url ip st = (r, st')"
  shows "accounted st' \<and> size (started (events st')) \<le> 2 + size (started (events st))"
  using assms attempts_accounted [of 2 ops json_of program _ st r st']
  by (auto simp: execute_program_def split: sum.splits)

theorem proc_children_accounted_witness:
  "accounted (snd (execute_program
      (\<lambda>_. Ok \<lparr>pu_scheme = ''http'', pu_host = None, pu_path = ''/''\<rparr>) (\<lambda>_. Ok ''{}'') (\<lambda>_. None)
      (traced \<lparr>try_wait = (\<lambda>c w. (Running, w)), spawn = (\<lambda>p w. (Spawned (7 :: nat), w)),
               write_all = (\<lambda>c l w. (False, w)), flush = (\<lambda>c w. (True, w)),
               read_line = (\<lambda>c w. (Eof, w)), kill = (\<lambda>c w. w)\<rparr>)
      ''rule'' ''GET'' ''http://a/'' ''10.0.0.1'' (proc_new ((), []))))" (is "accounted (snd ?run)")
proof -
  have "accounted (proc_new ((), []) :: (nat, unit \<times> nat proc_event list) proc_state)"
    by (simp add: accounted_def proc_new_def)
  moreover have "?run = (fst ?run, snd ?run)" by simp
  ultimately show ?thesis by (rule proc_children_accounted [THEN conjunct1])
qed

lemma traced_read:
  "read_line (traced ops) c (w, es) =
     (fst (read_line ops c w), (snd (read_line ops c w), es @ [Answered c (fst (read_line ops c w))]))"
  by (simp add: traced_def split: prod.splits)

lemma send_answered:
  assumes "send_request_to_process (traced ops) json_of program req st = (Ok v, st')"
  shows "\<exists>es c l. events st' = es @ [Sent c (req @ newline) True, Flushed c True, Answered c (Line l)] \<and> trim l \<noteq> [] \<and>
           v = to_evaluation_result (from_string json_of (trim l))"
proof -
  obtain st1 c w1 w2 where p: "process st1 = Some c"
    and w: "write_all (traced ops) c (req @ newline) (world st1) = (True, w1)"
    and f: "flush (traced ops) c w1 = (True, w2)"
    and r: "read_response (traced ops) json_of c (st1\<lparr>world := w2\<rparr>) = (Ok v, st')"
    using assms
    by (auto simp: send_request_to_process_def split: prod.splits sum.splits option.splits bool.splits)
  obtain wa es where st1: "world st1 = (wa, es)" by fastforce
  let ?es = "es @ [Sent c (req @ newline) True, Flushed c True]"
  from w have "snd w1 = es @ [Sent c (req @ newline) True]"
    by (auto simp: st1 traced_def split: prod.splits)
  with f have "snd w2 = ?es"
    by (auto simp: traced_def split: prod.splits)
  then obtain wb where w2: "w2 = (wb, ?es)" by (metis prod.collapse)
  from r obtain l where "fst (read_line ops c wb) = Line l" and "trim l \<noteq> []"
    and "v = to_evaluation_result (from_string json_of (trim l))"
    and "events st' = ?es @ [Answered c (fst (read_line ops c wb))]"
    by (auto simp: read_response_def w2 traced_read Let_def split: line_read.splits if_splits)
  then show ?thesis by auto
qed

lemma attempts_answered:
  "attempts n (traced ops) json_of program req st = (r, st') \<Longrightarrow>
   r = with_context deny ''Program evaluation failed'' \<or>
   (\<exists>es c l. events st' = es @ [Sent c (req @ newline) True, Flushed c True, Answered c (Line l)] \<and> trim l \<noteq> [] \<and>
      r = verdict_result (to_evaluation_result (from_string json_of (trim l))))"
proof (induction n arbitrary: st)
  case 0
  then show ?case by simp
next
  case (Suc n)
  then show ?case
    by (auto split: prod.splits sum.splits dest: send_answered)
qed

text \<open>
  (C5) The line processor fails closed: if a request is allowed, then the last three things that
  happened are that exactly this request was written to a child as one line with success, that the
  pipe was flushed with success, and that a nonempty line was read from the same child which the
  response format reads as an allowance; the result is the one of that line. Spawn failures, failed
  writes and flushes, end of file, read errors, timeouts and empty lines deny.
\<close>

theorem proc_fails_closed:
  assumes "execute_program url_parse to_json json_of (traced ops) program meth url ip st = (r, st')"
    and "action r = Allow"
  shows "\<exists>info req es c l. from_request url_parse meth url ip = Ok info \<and> to_json info = Ok req \<and>
     events st' = es @ [Sent c (req @ newline) True, Flushed c True, Answered c (Line l)] \<and> trim l \<noteq> [] \<and>
     allows (from_string json_of (trim l)) \<and>
     r = verdict_result (to_evaluation_result (from_string json_of (trim l)))"
proof -
  from assms obtain info req where i: "from_request url_parse meth url ip = Ok info"
    and j: "to_json info = Ok req"
    and a: "attempts 2 (traced ops) json_of program req st = (r, st')"
    by (auto simp: execute_program_def engine_simps split: sum.splits)
  from attempts_answered [OF a] assms(2) obtain es c l where
    "events st' = es @ [Sent c (req @ newline) True, Flushed c True, Answered c (Line l)]" "trim l \<noteq> []"
    and r: "r = verdict_result (to_evaluation_result (from_string json_of (trim l)))"
    by (auto simp: engine_simps)
  moreover from r assms(2) have "allows (from_string json_of (trim l))"
    by (auto simp: verdict_result_action allows_def split: if_splits)
  ultimately show ?thesis using i j by blast
qed

definition echo_ops :: "string \<Rightarrow> (unit, unit) proc_ops" where
  \<comment> \<open>a child that answers every request with the same line\<close>
  "echo_ops l = \<lparr>try_wait = (\<lambda>c w. (Running, w)), spawn = (\<lambda>p w. (Spawned (), w)),
     write_all = (\<lambda>c l w. (True, w)), flush = (\<lambda>c w. (True, w)),
     read_line = (\<lambda>c w. (Line l, w)), kill = (\<lambda>c w. w)\<rparr>"

theorem proc_fails_closed_witness:
  "\<exists>es. events (snd (execute_program (\<lambda>_. Ok \<lparr>pu_scheme = ''http'', pu_host = None, pu_path = ''/''\<rparr>)
       (\<lambda>_. Ok ''{}'') (\<lambda>_. None) (traced (echo_ops ''true'')) ''rule'' ''GET'' ''http://a/'' ''10.0.0.1''
       (proc_new ((), [])))) = es @ [Sent () (''{}'' @ newline) True, Flushed () True, Answered () (Line ''true'')]"
proof -
  let ?x = "execute_program (\<lambda>_. Ok \<lparr>pu_scheme = ''http'', pu_host = None, pu_path = ''/''\<rparr>)
       (\<lambda>_. Ok ''{}'') (\<lambda>_. None) (traced (echo_ops ''true'')) ''rule'' ''GET'' ''http://a/'' ''10.0.0.1''
       (proc_new ((), []))"
  have t: "trim ''true'' = ''true''" by (simp add: trim_ascii ascii_ws_def)
  have x: "action (fst ?x) = Allow" and e: "last (events (snd ?x)) = Answered () (Line ''true'')"
    by (simp_all add: execute_program_def from_request_def numeral_2_eq_2 send_request_to_process_def
        ensure_process_running_def reap_def proc_new_def echo_ops_def traced_def read_response_def t
        from_string_def to_evaluation_result_def verdict_result_def allow_def)
  have "?x = (fst ?x, snd ?x)" by simp
  from proc_fails_closed [OF this x] e show ?thesis by auto
qed

end
