(* ===== verification/Linux_Net.thy ===== *)
theory Linux_Net
  imports Jail
begin

text \<open>
  The names and addresses of a Linux jail, \<^verbatim>\<open>src/src/jail/linux/mod.rs\<close> up to
  \<open>compute_host_ip_for_jail_id\<close>: every jail gets a /30 network inside 10.99.0.0/16, chosen by a hash
  of its identifier. The hash (\<open>DefaultHasher\<close>, whose algorithm the standard library leaves open)
  is an argument.
\<close>

unbundle bit_operations_syntax

section \<open>Addresses\<close>

type_synonym ip4 = "u8 \<times> u8 \<times> u8 \<times> u8"

definition format_ip :: "ip4 \<Rightarrow> string" where
  "format_ip ip =
     (case ip of (a, b, c, d) \<Rightarrow>
        dec (unat a) @ ''.'' @ dec (unat b) @ ''.'' @ dec (unat c) @ ''.'' @ dec (unat d))"

definition compute_subnet_for_jail :: "(string \<Rightarrow> u64) \<Rightarrow> string \<Rightarrow> ip4 \<times> string \<times> string \<times> string" where
  "compute_subnet_for_jail hash jid =
     (let h = hash jid;
          idx = ucast (h mod 16384) :: u32;
          base = idx * 4;
          third = ucast (drop_bit 8 base AND 0xFF) :: u8;
          fourth = ucast (base AND 0xFF) :: u8;
          network = (10, 99, third, fourth);
          host_ip = (10, 99, third, saturating_add fourth 1);
          guest_ip = (10, 99, third, saturating_add fourth 2)
      in (host_ip, format_ip host_ip @ ''/30'', format_ip guest_ip @ ''/30'', format_ip network @ ''/30''))"

definition compute_host_ip_for_jail_id :: "(string \<Rightarrow> u64) \<Rightarrow> string \<Rightarrow> ip4" where
  "compute_host_ip_for_jail_id hash jid = fst (compute_subnet_for_jail hash jid)"

section \<open>Names\<close>

definition namespace_name :: "string \<Rightarrow> string" where
  "namespace_name jid = ''httpjail_'' @ jid"

definition veth_host :: "string \<Rightarrow> string" where
  "veth_host jid = ''vh_'' @ jid"

definition veth_ns :: "string \<Rightarrow> string" where
  "veth_ns jid = ''vn_'' @ jid"

section \<open>Properties\<close>

definition addr :: "ip4 \<Rightarrow> nat" where
  \<comment> \<open>the address as a number\<close>
  "addr ip = (case ip of (a, b, c, d) \<Rightarrow> ((unat a * 256 + unat b) * 256 + unat c) * 256 + unat d)"

definition subnet_index :: "(string \<Rightarrow> u64) \<Rightarrow> string \<Rightarrow> nat" where
  "subnet_index hash jid = unat (hash jid) mod 16384"

lemma unat_low_byte: "unat (ucast (w AND 0xFF) :: u8) = unat (w :: u32) mod 256"
proof -
  have "w AND 0xFF = take_bit 8 w" by (simp add: take_bit_eq_mask mask_eq_exp_minus_1)
  then show ?thesis by (simp add: unsigned_ucast_eq take_bit_eq_mod unat_mod_distrib)
qed

lemma subnet_octets:
  fixes h :: u64
  defines "base \<equiv> (ucast (h mod 16384) :: u32) * 4"
  shows "unat base = 4 * (unat h mod 16384)"
    and "unat (ucast (drop_bit 8 base AND 0xFF) :: u8) = (unat h mod 16384) div 64"
    and "unat (ucast (base AND 0xFF) :: u8) = 4 * ((unat h mod 16384) mod 64)"
proof -
  have "unat (h mod 16384) = unat h mod 16384" by (simp add: unat_mod_distrib)
  then have i: "unat (ucast (h mod 16384) :: u32) = unat h mod 16384"
    by (simp add: unsigned_ucast_eq take_bit_eq_mod)
  show b: "unat base = 4 * (unat h mod 16384)"
    unfolding base_def by (simp add: unat_word_ariths i)
  show "unat (ucast (base AND 0xFF) :: u8) = 4 * ((unat h mod 16384) mod 64)"
    by (simp add: unat_low_byte b mult_mod_right)
  have "unat (drop_bit 8 base) = unat base div 256"
    by (simp add: drop_bit_eq_div unat_div_distrib)
  then show "unat (ucast (drop_bit 8 base AND 0xFF) :: u8) = (unat h mod 16384) div 64"
    unfolding unat_low_byte b by simp
qed

lemma saturating_add_octet:
  fixes d :: u8 assumes "unat d = 4 * k" and "k < 64" and "n < 4"
  shows "unat (saturating_add d (of_nat n)) = 4 * k + n"
proof -
  have n: "unat (of_nat n :: u8) = n" using assms(3) by (intro unat_of_nat_small) simp
  have "4 * k + n < 256" using assms(2,3) by linarith
  with unat_saturating_add_small [of d "of_nat n"] assms(1) n show ?thesis by simp
qed

lemma subnet_addresses:
  "\<exists>network guest_ip.
     compute_subnet_for_jail hash jid =
       (compute_host_ip_for_jail_id hash jid, format_ip (compute_host_ip_for_jail_id hash jid) @ ''/30'',
        format_ip guest_ip @ ''/30'', format_ip network @ ''/30'') \<and>
     addr network = addr (10, 99, 0, 0) + 4 * subnet_index hash jid \<and>
     addr (compute_host_ip_for_jail_id hash jid) = addr network + 1 \<and>
     addr guest_ip = addr network + 2 \<and>
     addr network + 3 \<le> addr (10, 99, 255, 255)"
proof -
  let ?h = "hash jid" and ?i = "subnet_index hash jid"
  let ?base = "(ucast (?h mod 16384) :: u32) * 4"
  define third :: u8 where "third = ucast (drop_bit 8 ?base AND 0xFF)"
  define fourth :: u8 where "fourth = ucast (?base AND 0xFF)"
  have i: "?i < 16384" by (simp add: subnet_index_def)
  have t: "unat third = ?i div 64" and f: "unat fourth = 4 * (?i mod 64)"
    using subnet_octets [of ?h] by (simp_all add: third_def fourth_def subnet_index_def)
  have s: "unat (saturating_add fourth 1) = 4 * (?i mod 64) + 1"
    "unat (saturating_add fourth 2) = 4 * (?i mod 64) + 2"
    using saturating_add_octet [OF f, of 1] saturating_add_octet [OF f, of 2] by simp_all
  have c: "compute_subnet_for_jail hash jid =
      ((10, 99, third, saturating_add fourth 1), format_ip (10, 99, third, saturating_add fourth 1) @ ''/30'',
       format_ip (10, 99, third, saturating_add fourth 2) @ ''/30'', format_ip (10, 99, third, fourth) @ ''/30'')"
    by (simp add: compute_subnet_for_jail_def third_def fourth_def Let_def)
  have "64 * (?i div 64) + ?i mod 64 = ?i" by simp
  then have d: "256 * (?i div 64) + 4 * (?i mod 64) = 4 * ?i" by linarith
  have host: "compute_host_ip_for_jail_id hash jid = (10, 99, third, saturating_add fourth 1)"
    by (simp add: compute_host_ip_for_jail_id_def c)
  have a: "addr (10, 99, 0, 0) = 10 * 16777216 + 99 * 65536"
    "addr (10, 99, 255, 255) = 10 * 16777216 + 99 * 65536 + 65535"
    "addr (10, 99, third, x) = 10 * 16777216 + 99 * 65536 + 256 * (?i div 64) + unat x" for x
    by (simp_all add: addr_def t)
  have "addr (10, 99, third, fourth) = addr (10, 99, 0, 0) + 4 * ?i" unfolding a f using d by linarith
  moreover have "addr (10, 99, third, saturating_add fourth 1) = addr (10, 99, third, fourth) + 1"
    "addr (10, 99, third, saturating_add fourth 2) = addr (10, 99, third, fourth) + 2"
    unfolding a f s by simp_all
  moreover have "addr (10, 99, third, fourth) + 3 \<le> addr (10, 99, 255, 255)"
    unfolding a f using d i by linarith
  ultimately show ?thesis unfolding c host by blast
qed

text \<open>
  The network of a jail: with \<open>i\<close> the hash of the identifier modulo 16384, the network is the
  \<open>i\<close>-th /30 of 10.99.0.0/16, the host has its first and the guest its second usable address, and
  no octet saturates. The three texts are these addresses in dotted form with the prefix length.
\<close>

theorem subnet_layout:
  "\<exists>network guest_ip.
     compute_subnet_for_jail hash jid =
       (compute_host_ip_for_jail_id hash jid, format_ip (compute_host_ip_for_jail_id hash jid) @ ''/30'',
        format_ip guest_ip @ ''/30'', format_ip network @ ''/30'') \<and>
     addr network = addr (10, 99, 0, 0) + 4 * subnet_index hash jid \<and>
     addr (compute_host_ip_for_jail_id hash jid) = addr network + 1 \<and>
     addr guest_ip = addr network + 2 \<and>
     addr network + 3 \<le> addr (10, 99, 255, 255)"
  by (rule subnet_addresses)

text \<open>
  Two jails whose hashes agree modulo 16384 are given the very same subnet and addresses; any
  two others have disjoint /30 networks. The subnets are therefore not unique per jail.
\<close>

theorem subnets_disjoint_or_equal:
  "if hash i mod 16384 = hash j mod 16384
   then compute_subnet_for_jail hash i = compute_subnet_for_jail hash j
   else {addr (compute_host_ip_for_jail_id hash i) - 1 ..< addr (compute_host_ip_for_jail_id hash i) + 3} \<inter>
        {addr (compute_host_ip_for_jail_id hash j) - 1 ..< addr (compute_host_ip_for_jail_id hash j) + 3} = {}"
proof (cases "hash i mod 16384 = hash j mod 16384")
  case True
  then show ?thesis by (simp add: compute_subnet_for_jail_def)
next
  case False
  then have "unat (hash i mod 16384) \<noteq> unat (hash j mod 16384)" by (simp only: word_unat_eq_iff not_False_eq_True)
  then have "subnet_index hash i \<noteq> subnet_index hash j" by (simp add: subnet_index_def unat_mod_distrib)
  moreover have "addr (compute_host_ip_for_jail_id hash k) = addr (10, 99, 0, 0) + 4 * subnet_index hash k + 1" for k
    using subnet_addresses [of hash k] by auto
  ultimately show ?thesis using False by auto
qed

text \<open>
  Interface names fit: for an identifier of eight characters both ends of the veth pair have
  names of eleven characters, below the kernel's limit of fifteen, and the names of different jails
  and of the two ends differ.
\<close>

theorem veth_names:
  assumes "length jid = 8"
  shows "length (veth_host jid) \<le> 15 \<and> length (veth_ns jid) \<le> 15 \<and> veth_host jid \<noteq> veth_ns jid' \<and>
    (veth_host jid = veth_host jid' \<longleftrightarrow> jid = jid') \<and> (namespace_name jid = namespace_name jid' \<longleftrightarrow> jid = jid')"
  using assms by (simp add: veth_host_def veth_ns_def namespace_name_def)

theorem veth_names_witness: "length (veth_host ''a1b2c3d4'') \<le> 15"
  using veth_names [of "''a1b2c3d4''" "''a1b2c3d5''"] by simp

end
