(* ===== verification/Linux_Resources.thy ===== *)
theory Linux_Resources
  imports Sys_Resource Linux_Net
begin

text \<open>
  \<^verbatim>\<open>src/src/jail/linux/resources.rs\<close> and the life cycle of the tables of
  \<^verbatim>\<open>src/src/jail/linux/nftables.rs\<close>: network namespace, veth pair, nftables table and the
  resolver directory of a jail, each as a system resource.
\<close>

section \<open>Network namespace\<close>

record network_namespace =
  ns_name :: string
  ns_created :: bool

definition ip_cmd :: "string list \<Rightarrow> sys_command" where
  "ip_cmd args = command ''ip'' args"

definition netns_create :: "'w sys_ops \<Rightarrow> string \<Rightarrow> ('w, network_namespace) fallible" where
  "netns_create S jid =
     (let name = ''httpjail_'' @ jid
      in and_then (with_ctx ''Failed to execute ip netns add'' (run S (ip_cmd [''netns'', ''add'', name])))
           (\<lambda>out w. if out_success out then (Ok \<lparr>ns_name = name, ns_created = True\<rparr>, w)
                    else (Err (''Failed to create namespace '' @ name @ '': '' @
                               from_utf8_lossy (out_stderr out)), w)))"

definition netns_cleanup ::
  "'w sys_ops \<Rightarrow> network_namespace \<Rightarrow> 'w \<Rightarrow> unit result \<times> network_namespace \<times> 'w" where
  "netns_cleanup S self w =
     (if \<not> ns_created self then (Ok (), self, w)
      else case run S (ip_cmd [''netns'', ''del'', ns_name self]) w of
             (Inl e, w) \<Rightarrow> (Err (''Failed to execute ip netns del: '' @ e), self, w)
           | (Inr out, w) \<Rightarrow>
               (if out_success out then (Ok (), self\<lparr>ns_created := False\<rparr>, w)
                else let stderr = from_utf8_lossy (out_stderr out)
                     in if str_contains ''No such file'' stderr \<or> str_contains ''Cannot find'' stderr
                        then (Ok (), self\<lparr>ns_created := False\<rparr>, w)
                        else (Err (''Failed to delete namespace: '' @ stderr), self, w)))"

definition netns_for_existing :: "string \<Rightarrow> network_namespace" where
  "netns_for_existing jid = \<lparr>ns_name = ''httpjail_'' @ jid, ns_created = True\<rparr>"

definition netns_resource :: "'w sys_ops \<Rightarrow> (network_namespace, 'w) resource_ops" where
  "netns_resource S =
     \<lparr>res_create = netns_create S, res_cleanup = netns_cleanup S, res_for_existing = netns_for_existing\<rparr>"

section \<open>Virtual ethernet pair\<close>

record veth_pair =
  veth_host_name :: string
  veth_ns_name :: string
  veth_created :: bool

definition veth_create :: "'w sys_ops \<Rightarrow> string \<Rightarrow> ('w, veth_pair) fallible" where
  "veth_create S jid =
     (let host_name = ''vh_'' @ jid; ns_name = ''vn_'' @ jid
      in and_then (with_ctx ''Failed to create veth pair''
             (run S (ip_cmd [''link'', ''add'', host_name, ''type'', ''veth'', ''peer'', ''name'', ns_name])))
           (\<lambda>out w. if out_success out
                    then (Ok \<lparr>veth_host_name = host_name, veth_ns_name = ns_name, veth_created = True\<rparr>, w)
                    else (Err (''Failed to create veth pair: '' @ from_utf8_lossy (out_stderr out)), w)))"

definition veth_cleanup :: "'w sys_ops \<Rightarrow> veth_pair \<Rightarrow> 'w \<Rightarrow> unit result \<times> veth_pair \<times> 'w" where
  "veth_cleanup S self w =
     (if \<not> veth_created self then (Ok (), self, w)
      else case run S (ip_cmd [''link'', ''del'', veth_host_name self]) w of
             (_, w) \<Rightarrow> (Ok (), self\<lparr>veth_created := False\<rparr>, w))"

definition veth_for_existing :: "string \<Rightarrow> veth_pair" where
  "veth_for_existing jid =
     \<lparr>veth_host_name = ''vh_'' @ jid, veth_ns_name = ''vn_'' @ jid, veth_created = True\<rparr>"

definition veth_resource :: "'w sys_ops \<Rightarrow> (veth_pair, 'w) resource_ops" where
  "veth_resource S =
     \<lparr>res_create = veth_create S, res_cleanup = veth_cleanup S, res_for_existing = veth_for_existing\<rparr>"

section \<open>nftables tables\<close>

text \<open>\<open>nftables::NFTable\<close>, a table on the host or inside a namespace.\<close>

record nft_table =
  table_name :: string
  table_namespace :: "string option"
  table_created :: bool

definition nft_remove :: "'w sys_ops \<Rightarrow> nft_table \<Rightarrow> 'w \<Rightarrow> unit result \<times> nft_table \<times> 'w" where
  "nft_remove S self w =
     (if \<not> table_created self then (Ok (), self, w)
      else case (case table_namespace self of
                   Some ns \<Rightarrow>
                     with_ctx ''Failed to execute nft delete in namespace''
                       (run S (ip_cmd [''netns'', ''exec'', ns, ''nft'', ''delete'', ''table'', ''ip'', table_name self])) w
                 | None \<Rightarrow>
                     with_ctx ''Failed to execute nft delete''
                       (run S (command ''nft'' [''delete'', ''table'', ''ip'', table_name self])) w) of
             (Inl e, w) \<Rightarrow> (Err e, self, w)
           | (Inr _, w) \<Rightarrow> (Ok (), self\<lparr>table_created := False\<rparr>, w))"

definition nft_drop :: "'w sys_ops \<Rightarrow> nft_table \<Rightarrow> 'w \<Rightarrow> 'w" where
  "nft_drop S self w = (if table_created self then snd (snd (nft_remove S self w)) else w)"

definition nft_for_existing :: "string \<Rightarrow> bool \<Rightarrow> nft_table" where
  "nft_for_existing jid is_namespace =
     \<lparr>table_name = (if is_namespace then ''httpjail'' else ''httpjail_'' @ jid),
      table_namespace = (if is_namespace then Some (''httpjail_'' @ jid) else None),
      table_created = True\<rparr>"

text \<open>\<open>resources::NFTable\<close>, the wrapper; setting or clearing its table drops the previous one.\<close>

record nft_wrapper =
  wrapper_jail :: string
  wrapper_table :: "nft_table option"

definition nft_wrapper_create :: "'w sys_ops \<Rightarrow> string \<Rightarrow> ('w, nft_wrapper) fallible" where
  "nft_wrapper_create S jid w = (Ok \<lparr>wrapper_jail = jid, wrapper_table = None\<rparr>, w)"

definition nft_wrapper_cleanup ::
  "'w sys_ops \<Rightarrow> nft_wrapper \<Rightarrow> 'w \<Rightarrow> unit result \<times> nft_wrapper \<times> 'w" where
  "nft_wrapper_cleanup S self w =
     (Ok (), self\<lparr>wrapper_table := None\<rparr>,
      (case wrapper_table self of Some t \<Rightarrow> nft_drop S t w | None \<Rightarrow> w))"

definition nft_wrapper_for_existing :: "string \<Rightarrow> nft_wrapper" where
  "nft_wrapper_for_existing jid =
     \<lparr>wrapper_jail = jid, wrapper_table = Some (nft_for_existing jid False)\<rparr>"

definition nft_resource :: "'w sys_ops \<Rightarrow> (nft_wrapper, 'w) resource_ops" where
  "nft_resource S =
     \<lparr>res_create = nft_wrapper_create S, res_cleanup = nft_wrapper_cleanup S,
      res_for_existing = nft_wrapper_for_existing\<rparr>"

section \<open>Resolver directory\<close>

record netns_resolv =
  netns_dir :: string
  resolv_created :: bool

definition resolve_resolv_conf_target :: "'w sys_ops \<Rightarrow> 'w \<Rightarrow> string option \<times> 'w" where
  "resolve_resolv_conf_target S w =
     (case read_link S ''/etc/resolv.conf'' w of
        (Inl _, w) \<Rightarrow> (None, w)
      | (Inr target, w) \<Rightarrow>
          (case canonicalize S (path_join ''/etc'' target) w of
             (Inl _, w) \<Rightarrow> (None, w)
           | (Inr p, w) \<Rightarrow> (Some p, w)))"

definition resolv_text :: "string \<Rightarrow> string" where
  "resolv_text nameserver_ip =
     ''# httpjail managed'' @ newline @ ''nameserver '' @ nameserver_ip @ newline"

definition create_with_nameserver ::
  "'w sys_ops \<Rightarrow> string \<Rightarrow> string \<Rightarrow> ('w, netns_resolv) fallible" where
  "create_with_nameserver S jid nameserver_ip =
     (let dir = ''/etc/netns/httpjail_'' @ jid; resolv_path = path_join dir ''resolv.conf''
      in and_then (with_ctx (''Failed to create '' @ dir) (create_dir_all S dir)) (\<lambda>_.
         and_then (with_ctx (''Failed to write '' @ resolv_path)
                     (write_new S resolv_path (resolv_text nameserver_ip))) (\<lambda>_ w.
           case create_dir_all S ''/run/systemd/resolve'' w of (_, w) \<Rightarrow>
           case create_new S ''/run/systemd/resolve/stub-resolv.conf'' w of (_, w) \<Rightarrow>
             (Ok \<lparr>netns_dir = dir, resolv_created = True\<rparr>, w))))"

definition resolv_create :: "string \<Rightarrow> ('w, netns_resolv) fallible" where
  "resolv_create jid w = (Err ''Use create_with_nameserver instead of create'', w)"

definition resolv_cleanup :: "'w sys_ops \<Rightarrow> netns_resolv \<Rightarrow> 'w \<Rightarrow> unit result \<times> netns_resolv \<times> 'w" where
  "resolv_cleanup S self w =
     (if \<not> resolv_created self then (Ok (), self, w)
      else case resolve_resolv_conf_target S w of (target, w) \<Rightarrow>
           let w = (case target of
                      Some p \<Rightarrow> snd (run S (command ''umount'' [p]) w)
                    | None \<Rightarrow> w)
           in case remove_dir_all S (netns_dir self) w of
                (_, w) \<Rightarrow> (Ok (), self\<lparr>resolv_created := False\<rparr>, w))"

definition resolv_for_existing :: "string \<Rightarrow> netns_resolv" where
  "resolv_for_existing jid = \<lparr>netns_dir = ''/etc/netns/httpjail_'' @ jid, resolv_created = True\<rparr>"

definition resolv_resource :: "'w sys_ops \<Rightarrow> (netns_resolv, 'w) resource_ops" where
  "resolv_resource S =
     \<lparr>res_create = resolv_create, res_cleanup = resolv_cleanup S, res_for_existing = resolv_for_existing\<rparr>"

section \<open>The resource contract\<close>

interpretation netns: system_resource "netns_resource S" for S
  by unfold_locales
    (auto simp: netns_resource_def netns_cleanup_def Let_def split: if_splits prod.splits sum.splits)

interpretation veth: system_resource "veth_resource S" for S
  by unfold_locales (auto simp: veth_resource_def veth_cleanup_def split: if_splits prod.splits)

interpretation nft: system_resource "nft_resource S" for S
  by unfold_locales (auto simp: nft_resource_def nft_wrapper_cleanup_def)

interpretation resolv: system_resource "resolv_resource S" for S
  by unfold_locales
    (auto simp: resolv_resource_def resolv_cleanup_def Let_def split: if_splits prod.splits)

end
