(* ===== verification/Nftables.thy ===== *)
theory Nftables
  imports Linux_Resources
begin

text \<open>
  The rule sets of \<^verbatim>\<open>src/src/jail/linux/nftables.rs\<close>. The functions build a text for
  \<open>nft -f -\<close>; the texts are defined as in the source, and beside each stands the list of chains and
  rules it denotes, with a printer that gives back exactly the text.

  nftables itself is a parameter: the locale \<open>nft_semantics\<close> states the documented evaluation order
  (rules in sequence, first verdict, then the chain's policy; chains of a hook by priority; a drop is
  final, an accept continues with the next chain; a table of family \<open>ip\<close> sees IPv4 packets only).
\<close>

section \<open>Rules and their text\<close>

datatype nft_match =
    Iifname string
  | Oifname string
  | Saddr string
  | Daddr string
  | TcpDport "nat list"
  | UdpDport nat
  | IpProtocol string
  | CtEstablishedRelated

datatype nft_verdict = Accept | Drop | Masquerade | DnatTo string nat

datatype nft_line =
    Rule "nft_match list" nft_verdict "string option"
  | Comment string
  | Blank string

datatype nft_policy = PolicyAccept | PolicyDrop

record nft_chain =
  chain_name :: string
  chain_type :: string
  chain_hook :: string
  chain_priority :: int
  chain_policy :: nft_policy
  chain_lines :: "nft_line list"

definition quoted :: "string \<Rightarrow> string" where
  "quoted s = [CHR 0x22] @ s @ [CHR 0x22]"

definition show_int :: "int \<Rightarrow> string" where
  "show_int i = (if i < 0 then ''-'' @ dec (nat (- i)) else dec (nat i))"

fun show_match :: "nft_match \<Rightarrow> string" where
  "show_match (Iifname n) = ''iifname '' @ quoted n"
| "show_match (Oifname n) = ''oifname '' @ quoted n"
| "show_match (Saddr a) = ''ip saddr '' @ a"
| "show_match (Daddr a) = ''ip daddr '' @ a"
| "show_match (TcpDport ps) =
     ''tcp dport '' @
     (case ps of [p] \<Rightarrow> dec p
               | _ \<Rightarrow> ''{ '' @ concat (map dec (take 1 ps)) @ concat (map (\<lambda>p. '', '' @ dec p) (drop 1 ps)) @ '' }'')"
| "show_match (UdpDport p) = ''udp dport '' @ dec p"
| "show_match (IpProtocol s) = ''ip protocol '' @ s"
| "show_match CtEstablishedRelated = ''ct state established,related''"

fun show_verdict :: "nft_verdict \<Rightarrow> string" where
  "show_verdict Accept = ''accept''"
| "show_verdict Drop = ''drop''"
| "show_verdict Masquerade = ''masquerade''"
| "show_verdict (DnatTo a p) = ''dnat to '' @ a @ '':'' @ dec p"

fun show_line :: "nft_line \<Rightarrow> string" where
  "show_line (Rule ms v c) =
     ''        '' @ concat (map (\<lambda>m. show_match m @ '' '') ms) @ show_verdict v @
     (case c of Some t \<Rightarrow> '' comment '' @ quoted t | None \<Rightarrow> [])"
| "show_line (Comment s) = ''        # '' @ s"
| "show_line (Blank s) = s"

definition show_chain :: "nft_chain \<Rightarrow> string list" where
  "show_chain c =
     [''    chain '' @ chain_name c @ '' {'',
      ''        type '' @ chain_type c @ '' hook '' @ chain_hook c @ '' priority '' @
        show_int (chain_priority c) @ ''; policy '' @
        (case chain_policy c of PolicyAccept \<Rightarrow> ''accept'' | PolicyDrop \<Rightarrow> ''drop'') @ '';''] @
     map show_line (chain_lines c) @ [''    }'']"

text \<open>A text given by its lines; it starts and ends with a line break, as the raw strings do.\<close>

definition lines_text :: "string list \<Rightarrow> string" where
  "lines_text ls = newline @ concat (map (\<lambda>l. l @ newline) ls)"

section \<open>The table on the host\<close>

definition host_ruleset :: "string \<Rightarrow> string \<Rightarrow> u16 \<Rightarrow> u16 \<Rightarrow> string" where
  "host_ruleset jid subnet_cidr http_port https_port =
     (let table_name = ''httpjail_'' @ jid; veth = ''vh_'' @ jid; q = [CHR 0x22]
      in lines_text
       [''table ip '' @ table_name @ '' {'',
        ''    chain prerouting {'',
        ''        type filter hook prerouting priority -150; policy accept;'',
        ''        iifname '' @ q @ veth @ q @ '' accept comment '' @ q @ ''httpjail_'' @ jid @ '' prerouting'' @ q,
        ''    }'',
        ''    '',
        ''    chain postrouting {'',
        ''        type nat hook postrouting priority 100; policy accept;'',
        ''        ip saddr '' @ subnet_cidr @ '' masquerade comment '' @ q @ ''httpjail_'' @ jid @ q,
        ''    }'',
        ''    '',
        ''    chain forward {'',
        ''        type filter hook forward priority -100; policy accept;'',
        ''        ip saddr '' @ subnet_cidr @ '' accept comment '' @ q @ ''httpjail_'' @ jid @ '' out'' @ q,
        ''        ip daddr '' @ subnet_cidr @ '' accept comment '' @ q @ ''httpjail_'' @ jid @ '' in'' @ q,
        ''    }'',
        ''    '',
        ''    chain input {'',
        ''        type filter hook input priority -100; policy accept;'',
        ''        iifname '' @ q @ veth @ q @ '' tcp dport { '' @ dec (unat http_port) @ '', '' @
          dec (unat https_port) @ '' } accept comment '' @ q @ ''httpjail_'' @ jid @ '' proxy'' @ q,
        ''        iifname '' @ q @ veth @ q @ '' udp dport 53 accept comment '' @ q @ ''httpjail_'' @ jid @ '' dns'' @ q,
        ''        iifname '' @ q @ veth @ q @ '' accept comment '' @ q @ ''httpjail_'' @ jid @ '' all'' @ q,
        ''    }'',
        ''    '',
        ''    chain output {'',
        ''        type filter hook output priority -100; policy accept;'',
        ''        oifname '' @ q @ veth @ q @ '' accept comment '' @ q @ ''httpjail_'' @ jid @ '' out'' @ q,
        ''    }'',
        ''}''])"

definition nft_apply ::
  "'w sys_ops \<Rightarrow> sys_command \<Rightarrow> string \<Rightarrow> string \<Rightarrow> string \<Rightarrow> ('w, unit) fallible" where
  \<comment> \<open>spawn, write the rule set, wait; the texts are the contexts of the three failures\<close>
  "nft_apply S cmd spawn_text wait_text fail_text w =
     (case pipe S cmd w of
        (SpawnFailed e, w) \<Rightarrow> (Err (spawn_text @ '': '' @ e), w)
      | (WriteFailed e, w) \<Rightarrow> (Err (''Failed to write ruleset to nft: '' @ e), w)
      | (WaitFailed e, w) \<Rightarrow> (Err (wait_text @ '': '' @ e), w)
      | (Finished out, w) \<Rightarrow>
          (if out_success out then (Ok (), w)
           else (Err (fail_text @ '': '' @ from_utf8_lossy (out_stderr out)), w)))"

definition new_host_table ::
  "'w sys_ops \<Rightarrow> string \<Rightarrow> string \<Rightarrow> u16 \<Rightarrow> u16 \<Rightarrow> ('w, nft_table) fallible" where
  "new_host_table S jid subnet_cidr http_port https_port =
     and_then
       (nft_apply S ((command ''nft'' [''-f'', ''-''])\<lparr>cmd_stdin := Some (host_ruleset jid subnet_cidr http_port https_port)\<rparr>)
          ''Failed to spawn nft command'' ''Failed to execute nft command'' ''Failed to create nftables table'')
       (\<lambda>_. return_ok \<lparr>table_name = ''httpjail_'' @ jid, table_namespace = None, table_created = True\<rparr>)"

section \<open>The table inside the namespace\<close>

definition namespace_ruleset :: "string \<Rightarrow> u16 \<Rightarrow> u16 \<Rightarrow> string" where
  "namespace_ruleset host_ip http_port https_port =
     lines_text
       [''table ip httpjail {'',
        ''    # NAT output chain: redirect HTTP/HTTPS to host proxy'',
        ''    chain output {'',
        ''        type nat hook output priority -100; policy accept;'',
        '''',
        ''        # Redirect HTTP to proxy running on host'',
        ''        tcp dport 80 dnat to '' @ host_ip @ '':'' @ dec (unat http_port),
        '''',
        ''        # Redirect HTTPS to proxy running on host'',
        ''        tcp dport 443 dnat to '' @ host_ip @ '':'' @ dec (unat https_port),
        '''',
        ''        # Note: DNS does not need DNAT - /etc/resolv.conf is mounted with nameserver='' @ host_ip,
        ''        # so all DNS queries naturally go directly to the host DNS server'',
        ''    }'',
        '''',
        ''    # FILTER output chain: block non-HTTP/HTTPS egress'',
        ''    chain outfilter {'',
        ''        type filter hook output priority 0; policy drop;'',
        '''',
        ''        # Always allow established/related traffic'',
        ''        ct state established,related accept'',
        '''',
        ''        # Allow DNS traffic to host IP (resolv.conf points directly to host_ip)'',
        ''        ip daddr '' @ host_ip @ '' udp dport 53 accept'',
        '''',
        ''        # Allow traffic to the host proxy ports (after DNAT)'',
        ''        ip daddr '' @ host_ip @ '' tcp dport { '' @ dec (unat http_port) @ '', '' @
          dec (unat https_port) @ '' } accept'',
        '''',
        ''        # Explicitly block all other UDP (e.g., QUIC on 443)'',
        ''        # This must come AFTER allowing DNS traffic'',
        ''        ip protocol udp drop'',
        '''',
        ''        # Explicitly block all other TCP traffic'',
        ''        # This must come AFTER allowing HTTP/HTTPS traffic'',
        ''        ip protocol tcp drop'',
        ''    }'',
        ''}'']"

definition new_namespace_table_with_dns ::
  "'w sys_ops \<Rightarrow> string \<Rightarrow> string \<Rightarrow> u16 \<Rightarrow> u16 \<Rightarrow> u16 \<Rightarrow> ('w, nft_table) fallible" where
  "new_namespace_table_with_dns S namespace host_ip http_port https_port dns_port =
     and_then
       (nft_apply S ((ip_cmd [''netns'', ''exec'', namespace, ''nft'', ''-f'', ''-''])
                      \<lparr>cmd_stdin := Some (namespace_ruleset host_ip http_port https_port)\<rparr>)
          ''Failed to spawn nft command in namespace'' ''Failed to execute nft command in namespace''
          ''Failed to create namespace nftables table'')
       (\<lambda>_. return_ok \<lparr>table_name = ''httpjail'', table_namespace = Some namespace, table_created = True\<rparr>)"

text \<open>The chains that the text denotes.\<close>

definition nat_output :: "string \<Rightarrow> u16 \<Rightarrow> u16 \<Rightarrow> nft_chain" where
  "nat_output host_ip http_port https_port =
     \<lparr>chain_name = ''output'', chain_type = ''nat'', chain_hook = ''output'', chain_priority = -100,
      chain_policy = PolicyAccept,
      chain_lines =
        [Blank [], Comment ''Redirect HTTP to proxy running on host'',
         Rule [TcpDport [80]] (DnatTo host_ip (unat http_port)) None,
         Blank [], Comment ''Redirect HTTPS to proxy running on host'',
         Rule [TcpDport [443]] (DnatTo host_ip (unat https_port)) None,
         Blank [],
         Comment (''Note: DNS does not need DNAT - /etc/resolv.conf is mounted with nameserver='' @ host_ip),
         Comment ''so all DNS queries naturally go directly to the host DNS server'']\<rparr>"

definition filter_output :: "string \<Rightarrow> u16 \<Rightarrow> u16 \<Rightarrow> nft_chain" where
  "filter_output host_ip http_port https_port =
     \<lparr>chain_name = ''outfilter'', chain_type = ''filter'', chain_hook = ''output'', chain_priority = 0,
      chain_policy = PolicyDrop,
      chain_lines =
        [Blank [], Comment ''Always allow established/related traffic'',
         Rule [CtEstablishedRelated] Accept None,
         Blank [], Comment ''Allow DNS traffic to host IP (resolv.conf points directly to host_ip)'',
         Rule [Daddr host_ip, UdpDport 53] Accept None,
         Blank [], Comment ''Allow traffic to the host proxy ports (after DNAT)'',
         Rule [Daddr host_ip, TcpDport [unat http_port, unat https_port]] Accept None,
         Blank [], Comment ''Explicitly block all other UDP (e.g., QUIC on 443)'',
         Comment ''This must come AFTER allowing DNS traffic'',
         Rule [IpProtocol ''udp''] Drop None,
         Blank [], Comment ''Explicitly block all other TCP traffic'',
         Comment ''This must come AFTER allowing HTTP/HTTPS traffic'',
         Rule [IpProtocol ''tcp''] Drop None]\<rparr>"

lemma dec_const: "dec 80 = ''80''" "dec 443 = ''443''" "dec 53 = ''53''" "dec 100 = ''100''" "dec 150 = ''150''" "dec 0 = ''0''"
  by (simp_all add: dec.simps digit_char_def)

lemma namespace_ruleset_chains:
  "namespace_ruleset host_ip http_port https_port =
     lines_text ([''table ip httpjail {'', ''    # NAT output chain: redirect HTTP/HTTPS to host proxy''] @
       show_chain (nat_output host_ip http_port https_port) @
       ['''', ''    # FILTER output chain: block non-HTTP/HTTPS egress''] @
       show_chain (filter_output host_ip http_port https_port) @ [''}''])"
  by (simp add: namespace_ruleset_def show_chain_def nat_output_def filter_output_def show_int_def
      dec_const)

section \<open>Packets and evaluation\<close>

datatype family = IPv4 | IPv6

record packet =
  pkt_family :: family
  pkt_proto :: string
  pkt_daddr :: string
  pkt_dport :: nat
  pkt_established :: bool

text \<open>The matches of the namespace's rules on a packet that leaves the namespace.\<close>

fun matches :: "packet \<Rightarrow> nft_match \<Rightarrow> bool" where
  "matches p (Daddr a) = (pkt_daddr p = a)"
| "matches p (TcpDport ps) = (pkt_proto p = ''tcp'' \<and> pkt_dport p \<in> set ps)"
| "matches p (UdpDport d) = (pkt_proto p = ''udp'' \<and> pkt_dport p = d)"
| "matches p (IpProtocol s) = (pkt_proto p = s)"
| "matches p CtEstablishedRelated = pkt_established p"
| "matches p _ = False"

fun rules_of :: "nft_line list \<Rightarrow> (nft_match list \<times> nft_verdict) list" where
  "rules_of [] = []"
| "rules_of (Rule ms v _ # ls) = (ms, v) # rules_of ls"
| "rules_of (_ # ls) = rules_of ls"

locale nft_semantics =
  fixes eval_rules :: "nft_policy \<Rightarrow> (nft_match list \<times> nft_verdict) list \<Rightarrow> packet \<Rightarrow> packet option"
    and hook :: "nft_chain list \<Rightarrow> packet \<Rightarrow> packet option"
  assumes no_rule: "eval_rules pol [] p = (if pol = PolicyAccept then Some p else None)"
    and no_match: "\<not> list_all (matches p) ms \<Longrightarrow> eval_rules pol ((ms, v) # rs) p = eval_rules pol rs p"
    and accept: "list_all (matches p) ms \<Longrightarrow> eval_rules pol ((ms, Accept) # rs) p = Some p"
    and drop: "list_all (matches p) ms \<Longrightarrow> eval_rules pol ((ms, Drop) # rs) p = None"
    and dnat: "list_all (matches p) ms \<Longrightarrow>
      eval_rules pol ((ms, DnatTo a d) # rs) p = Some (p\<lparr>pkt_daddr := a, pkt_dport := d\<rparr>)"
    and hook_ipv6: "pkt_family p = IPv6 \<Longrightarrow> hook cs p = Some p"
    and hook_done: "hook [] p = Some p"
    and hook_first: "pkt_family p = IPv4 \<Longrightarrow> (\<forall>c' \<in> set cs. chain_priority c < chain_priority c') \<Longrightarrow>
      hook (c # cs) p =
        (if chain_type c = ''nat'' \<and> pkt_established p then hook cs p
         else Option.bind (eval_rules (chain_policy c) (rules_of (chain_lines c)) p) (hook cs))"
begin

lemma eval_simps:
  "eval_rules pol ((ms, Accept) # rs) p =
     (if list_all (matches p) ms then Some p else eval_rules pol rs p)"
  "eval_rules pol ((ms, Drop) # rs) p =
     (if list_all (matches p) ms then None else eval_rules pol rs p)"
  "eval_rules pol ((ms, DnatTo a d) # rs) p =
     (if list_all (matches p) ms then Some (p\<lparr>pkt_daddr := a, pkt_dport := d\<rparr>) else eval_rules pol rs p)"
  by (simp_all add: accept drop dnat no_match)

text \<open>What becomes of an IPv4 packet that a process in the namespace sends.\<close>

lemma namespace_hook:
  assumes "pkt_family p = IPv4"
  shows "hook [nat_output h hp sp, filter_output h hp sp] p =
    (let q = (if pkt_established p then p
              else if pkt_proto p = ''tcp'' \<and> pkt_dport p = 80 then p\<lparr>pkt_daddr := h, pkt_dport := unat hp\<rparr>
              else if pkt_proto p = ''tcp'' \<and> pkt_dport p = 443 then p\<lparr>pkt_daddr := h, pkt_dport := unat sp\<rparr>
              else p)
     in if pkt_established q \<or> pkt_daddr q = h \<and> (pkt_proto q = ''udp'' \<and> pkt_dport q = 53 \<or>
             pkt_proto q = ''tcp'' \<and> pkt_dport q \<in> {unat hp, unat sp})
        then Some q else None)"
proof -
  have flt: "pkt_family q = IPv4 \<Longrightarrow> hook [filter_output h hp sp] q =
      (if pkt_established q \<or> pkt_daddr q = h \<and> (pkt_proto q = ''udp'' \<and> pkt_dport q = 53 \<or>
          pkt_proto q = ''tcp'' \<and> pkt_dport q \<in> {unat hp, unat sp}) then Some q else None)" for q
    by (auto simp: hook_first filter_output_def eval_simps no_rule hook_done)
  have nat: "eval_rules PolicyAccept (rules_of (chain_lines (nat_output h hp sp))) p = Some
      (if pkt_proto p = ''tcp'' \<and> pkt_dport p = 80 then p\<lparr>pkt_daddr := h, pkt_dport := unat hp\<rparr>
       else if pkt_proto p = ''tcp'' \<and> pkt_dport p = 443 then p\<lparr>pkt_daddr := h, pkt_dport := unat sp\<rparr>
       else p)"
    by (simp add: nat_output_def eval_simps no_rule)
  have pr: "chain_priority (nat_output h hp sp) < chain_priority (filter_output h hp sp)"
    "chain_type (nat_output h hp sp) = ''nat''" "chain_policy (nat_output h hp sp) = PolicyAccept"
    by (simp_all add: nat_output_def filter_output_def)
  have "hook [nat_output h hp sp, filter_output h hp sp] p =
      (if pkt_established p then hook [filter_output h hp sp] p
       else Option.bind (eval_rules PolicyAccept (rules_of (chain_lines (nat_output h hp sp))) p)
              (hook [filter_output h hp sp]))"
    using assms pr by (subst hook_first) auto
  then show ?thesis unfolding nat using assms by (simp add: flt)
qed

end

section \<open>A concrete evaluation\<close>

fun first_match :: "nft_policy \<Rightarrow> (nft_match list \<times> nft_verdict) list \<Rightarrow> packet \<Rightarrow> packet option" where
  "first_match pol [] p = (if pol = PolicyAccept then Some p else None)"
| "first_match pol ((ms, v) # rs) p =
     (if list_all (matches p) ms then
        (case v of
           Accept \<Rightarrow> Some p
         | Drop \<Rightarrow> None
         | Masquerade \<Rightarrow> Some p
         | DnatTo a d \<Rightarrow> Some (p\<lparr>pkt_daddr := a, pkt_dport := d\<rparr>))
      else first_match pol rs p)"

fun run_chains :: "nft_chain list \<Rightarrow> packet \<Rightarrow> packet option" where
  "run_chains [] p = Some p"
| "run_chains (c # cs) p =
     (if chain_type c = ''nat'' \<and> pkt_established p then run_chains cs p
      else Option.bind (first_match (chain_policy c) (rules_of (chain_lines c)) p) (run_chains cs))"

definition run_hook :: "nft_chain list \<Rightarrow> packet \<Rightarrow> packet option" where
  "run_hook cs p =
     (if pkt_family p = IPv6 then Some p else run_chains (sort_key chain_priority cs) p)"

lemma first_match_family: "first_match pol rs p = Some q \<Longrightarrow> pkt_family q = pkt_family p"
  by (induction pol rs p rule: first_match.induct) (auto split: if_splits nft_verdict.splits)

lemma run_chains_hook: "pkt_family p = IPv4 \<Longrightarrow> run_chains (sort_key chain_priority cs) p = run_hook cs p"
  by (simp add: run_hook_def)

interpretation nft_eval: nft_semantics first_match run_hook
proof unfold_locales
  fix p :: packet and c :: nft_chain and cs :: "nft_chain list"
  assume f: "pkt_family p = IPv4" and l: "\<forall>c' \<in> set cs. chain_priority c < chain_priority c'"
  have i: "insort_key chain_priority c (sort_key chain_priority cs) = c # sort_key chain_priority cs"
  proof (cases "sort_key chain_priority cs")
    case (Cons d ds)
    then have "d \<in> set cs" by (metis list.set_intros(1) set_sort)
    with l Cons show ?thesis by (simp add: less_imp_le)
  qed simp
  have b: "Option.bind (first_match pol rs p) (run_chains (sort_key chain_priority cs)) =
      Option.bind (first_match pol rs p) (run_hook cs)" for pol rs
    using f by (auto simp: run_hook_def intro!: bind_option_cong dest: first_match_family)
  show "run_hook (c # cs) p =
      (if chain_type c = ''nat'' \<and> pkt_established p then run_hook cs p
       else Option.bind (first_match (chain_policy c) (rules_of (chain_lines c)) p) (run_hook cs))"
    using f by (simp add: run_hook_def [of "c # cs"] i b run_chains_hook)
qed (simp_all add: run_hook_def)

section \<open>Properties\<close>

text \<open>
  (C4) Confinement of IPv4 egress. Under the documented evaluation order of nftables, the rule set
  installed in the namespace lets a packet that opens a new flow leave only if its destination is
  then the host's end of the veth pair, at UDP port 53 or at one of the two proxy ports over TCP;
  everything else, other TCP ports, UDP such as QUIC, and every other protocol, is dropped. Packets of
  established flows pass unchanged.
\<close>

theorem egress_confined:
  assumes "nft_semantics eval_rules hook" and "pkt_family p = IPv4"
    and "hook [nat_output h hp sp, filter_output h hp sp] p = Some q"
  shows "pkt_established p \<and> q = p \<or>
    pkt_daddr q = h \<and> (pkt_proto q = ''udp'' \<and> pkt_dport q = 53 \<or>
      pkt_proto q = ''tcp'' \<and> pkt_dport q \<in> {unat hp, unat sp})"
  using assms(3) unfolding nft_semantics.namespace_hook [OF assms(1,2)]
  by (auto simp: Let_def split: if_splits)

theorem egress_confined_witness:
  "\<not> (\<exists>q. run_hook [nat_output ''10.99.0.1'' 8040 8043, filter_output ''10.99.0.1'' 8040 8043]
        \<lparr>pkt_family = IPv4, pkt_proto = ''udp'', pkt_daddr = ''9.9.9.9'', pkt_dport = 443, pkt_established = False\<rparr> =
      Some q \<and> pkt_daddr q = ''9.9.9.9'')"
  using egress_confined [OF nft_eval.nft_semantics_axioms, of
      "\<lparr>pkt_family = IPv4, pkt_proto = ''udp'', pkt_daddr = ''9.9.9.9'', pkt_dport = 443, pkt_established = False\<rparr>"
      "''10.99.0.1''" 8040 8043]
  by auto

text \<open>
  (C28) Redirection: every new TCP flow to port 80 or 443, to whatever address, leaves the namespace
  for the HTTP or HTTPS proxy on the host and nowhere else; and DNS queries to the host pass.
\<close>

theorem http_redirected:
  assumes "nft_semantics eval_rules hook" and "pkt_family p = IPv4" and "\<not> pkt_established p"
  shows "(pkt_proto p = ''tcp'' \<and> pkt_dport p = 80 \<longrightarrow>
      hook [nat_output h hp sp, filter_output h hp sp] p = Some (p\<lparr>pkt_daddr := h, pkt_dport := unat hp\<rparr>)) \<and>
    (pkt_proto p = ''tcp'' \<and> pkt_dport p = 443 \<longrightarrow>
      hook [nat_output h hp sp, filter_output h hp sp] p = Some (p\<lparr>pkt_daddr := h, pkt_dport := unat sp\<rparr>)) \<and>
    (pkt_proto p = ''udp'' \<and> pkt_dport p = 53 \<and> pkt_daddr p = h \<longrightarrow>
      hook [nat_output h hp sp, filter_output h hp sp] p = Some p)"
  unfolding nft_semantics.namespace_hook [OF assms(1,2)] using assms(3) by simp

theorem http_redirected_witness:
  "run_hook [nat_output ''10.99.0.1'' 8040 8043, filter_output ''10.99.0.1'' 8040 8043]
     \<lparr>pkt_family = IPv4, pkt_proto = ''tcp'', pkt_daddr = ''9.9.9.9'', pkt_dport = 443, pkt_established = False\<rparr> =
   Some \<lparr>pkt_family = IPv4, pkt_proto = ''tcp'', pkt_daddr = ''10.99.0.1'', pkt_dport = 8043, pkt_established = False\<rparr>"
  using http_redirected [OF nft_eval.nft_semantics_axioms, of
      "\<lparr>pkt_family = IPv4, pkt_proto = ''tcp'', pkt_daddr = ''9.9.9.9'', pkt_dport = 443, pkt_established = False\<rparr>"
      "''10.99.0.1''" 8040 8043]
  by simp

text \<open>
  The rule set is a table of family \<open>ip\<close>, which IPv6 packets do not traverse: an IPv6 packet
  leaves the namespace whatever its protocol, destination and port.
\<close>

theorem ipv6_not_filtered:
  assumes "nft_semantics eval_rules hook" and "pkt_family p = IPv6"
  shows "hook [nat_output h hp sp, filter_output h hp sp] p = Some p \<and>
    starts_with (namespace_ruleset h hp sp) (newline @ ''table ip httpjail {'')"
proof -
  have "starts_with (namespace_ruleset h hp sp) (newline @ ''table ip httpjail {'')"
    unfolding namespace_ruleset_chains by (simp add: lines_text_def starts_with_def)
  with nft_semantics.hook_ipv6 [OF assms] show ?thesis by blast
qed

theorem ipv6_not_filtered_witness:
  "\<exists>q. run_hook [nat_output ''10.99.0.1'' 8040 8043, filter_output ''10.99.0.1'' 8040 8043]
     \<lparr>pkt_family = IPv6, pkt_proto = ''tcp'', pkt_daddr = ''fe80::1'', pkt_dport = 22, pkt_established = False\<rparr> = Some q"
  using ipv6_not_filtered [OF nft_eval.nft_semantics_axioms, of
      "\<lparr>pkt_family = IPv6, pkt_proto = ''tcp'', pkt_daddr = ''fe80::1'', pkt_dport = 22, pkt_established = False\<rparr>"
      "''10.99.0.1''" 8040 8043]
  by simp

end
