(* ===== verification/Dns.thy ===== *)
theory Dns
  imports Sys_Resource
begin

text \<open>
  \<^verbatim>\<open>src/src/jail/linux/dns.rs\<close>: the DNS server that answers every question with a dummy address, so
  that names cannot be used to carry data out of the jail. The packet format (\<open>simple_dns\<close>) and the
  socket are parameters.
\<close>

section \<open>Packets\<close>

record 'n dns_question = qname :: 'n

datatype rdata = A u32 | OtherData

record 'n dns_record =
  rr_name :: 'n
  rr_class :: string
  rr_ttl :: nat
  rr_data :: rdata

record ('n, 'q) dns_packet =
  dns_id :: u16
  dns_flags :: "string list"
  dns_questions :: "('n, 'q) dns_question_scheme list"
  dns_answers :: "'n dns_record list"

definition DUMMY_IPV4 :: u32 where "DUMMY_IPV4 = 0x06060606"
definition MAX_DNS_PACKET_SIZE :: nat where "MAX_DNS_PACKET_SIZE = 512"

definition dummy_answer :: "('n, 'q) dns_question_scheme \<Rightarrow> 'n dns_record" where
  "dummy_answer question =
     \<lparr>rr_name = qname question, rr_class = ''IN'', rr_ttl = 60, rr_data = A DUMMY_IPV4\<rparr>"

definition build_dummy_response ::
  "(('n, 'q) dns_packet \<Rightarrow> string result) \<Rightarrow> ('n, 'q) dns_packet \<Rightarrow> string result" where
  "build_dummy_response build_bytes query =
     (let response =
        \<lparr>dns_id = dns_id query, dns_flags = [''RESPONSE'', ''RECURSION_AVAILABLE''],
         dns_questions = dns_questions query, dns_answers = map dummy_answer (dns_questions query)\<rparr>
      in err_context ''Failed to build DNS response'' (build_bytes response))"

section \<open>The server loop\<close>

datatype 's recv_result = Received string 's | WouldBlock | RecvTimedOut | RecvError

text \<open>
  Each iteration reads the shutdown flag and then waits for a datagram or an error; the list holds
  what the iterations find. A datagram longer than the buffer is cut to its size.
\<close>

fun run_dns_server ::
  "(string \<Rightarrow> ('n, 'q) dns_packet result) \<Rightarrow> (('n, 'q) dns_packet \<Rightarrow> string result) \<Rightarrow>
     (string \<Rightarrow> 's \<Rightarrow> 'w \<Rightarrow> bool \<times> 'w) \<Rightarrow> (bool \<times> 's recv_result) list \<Rightarrow> 'w \<Rightarrow> 'w" where
  "run_dns_server parse build_bytes send_to [] w = w"
| "run_dns_server parse build_bytes send_to ((shutdown, r) # rest) w =
     (if shutdown then w
      else case r of
             Received datagram src \<Rightarrow>
               (case parse (take MAX_DNS_PACKET_SIZE datagram) of
                  Inr query \<Rightarrow>
                    (case build_dummy_response build_bytes query of
                       Inr response \<Rightarrow>
                         run_dns_server parse build_bytes send_to rest (snd (send_to response src w))
                     | Inl _ \<Rightarrow> run_dns_server parse build_bytes send_to rest w)
                | Inl _ \<Rightarrow> run_dns_server parse build_bytes send_to rest w)
           | WouldBlock \<Rightarrow> run_dns_server parse build_bytes send_to rest w
           | RecvTimedOut \<Rightarrow> run_dns_server parse build_bytes send_to rest w
           | RecvError \<Rightarrow> w)"

section \<open>The server object\<close>

record dns_server =
  dns_socket :: bool
  dns_shutdown :: bool
  dns_thread :: bool

record 'w dns_ops =
  udp_bind :: "string \<Rightarrow> ('w, unit) fallible"
  set_read_timeout :: "nat \<Rightarrow> ('w, unit) fallible"
  try_clone :: "('w, unit) fallible"
  spawn_server :: "'w \<Rightarrow> 'w"
  join_server :: "'w \<Rightarrow> 'w"

definition dns_new :: dns_server where
  "dns_new = \<lparr>dns_socket = False, dns_shutdown = False, dns_thread = False\<rparr>"

definition dns_start ::
  "'w dns_ops \<Rightarrow> string \<Rightarrow> dns_server \<Rightarrow> 'w \<Rightarrow> unit result \<times> dns_server \<times> 'w" where
  "dns_start D bind_addr self w =
     (case and_then (with_ctx (''Failed to bind DNS server to '' @ bind_addr) (udp_bind D bind_addr)) (\<lambda>_.
           and_then (set_read_timeout D 100) (\<lambda>_. try_clone D)) w of
        (Inl e, w) \<Rightarrow> (Err e, self, w)
      | (Inr _, w) \<Rightarrow> (Ok (), self\<lparr>dns_socket := True, dns_thread := True\<rparr>, spawn_server D w))"

definition dns_stop :: "'w dns_ops \<Rightarrow> dns_server \<Rightarrow> 'w \<Rightarrow> dns_server \<times> 'w" where
  "dns_stop D self w =
     (self\<lparr>dns_shutdown := True, dns_thread := False, dns_socket := False\<rparr>,
      if dns_thread self then join_server D w else w)"

section \<open>Properties\<close>

text \<open>
  What a reply to a query discloses: whatever the query asks for, the reply has its identifier and its questions and
  exactly one record per question, for the same name, of class IN, with the address 6.6.6.6 and a lifetime of
  one minute.
\<close>

definition discloses_nothing :: "('n, 'q) dns_packet \<Rightarrow> ('n, 'q) dns_packet \<Rightarrow> bool" where
  "discloses_nothing query resp \<longleftrightarrow>
     dns_id resp = dns_id query \<and> dns_questions resp = dns_questions query \<and>
     dns_flags resp = [''RESPONSE'', ''RECURSION_AVAILABLE''] \<and>
     map rr_name (dns_answers resp) = map qname (dns_questions query) \<and>
     list_all (\<lambda>a. rr_data a = A (6 * 2 ^ 24 + 6 * 2 ^ 16 + 6 * 2 ^ 8 + 6) \<and> rr_class a = ''IN'' \<and> rr_ttl a = 60) (dns_answers resp)"

text \<open>\<open>answers parse build d bytes\<close>: the bytes are such a reply to the query in the first 512 bytes of a datagram.\<close>

definition answers ::
  "(string \<Rightarrow> ('n, 'q) dns_packet result) \<Rightarrow> (('n, 'q) dns_packet \<Rightarrow> string result) \<Rightarrow> string \<Rightarrow> string \<Rightarrow> bool" where
  "answers parse build_bytes datagram bytes \<longleftrightarrow>
     (\<exists>query resp. parse (take 512 datagram) = Ok query \<and> discloses_nothing query resp \<and> build_bytes resp = Ok bytes)"

text \<open>A socket whose sends may fail, with the record of all attempts.\<close>

definition traced_send ::
  "(string \<Rightarrow> 's \<Rightarrow> 'w \<Rightarrow> bool \<times> 'w) \<Rightarrow> string \<Rightarrow> 's \<Rightarrow> 'w \<times> (string \<times> 's) list \<Rightarrow> bool \<times> 'w \<times> (string \<times> 's) list" where
  "traced_send send_to d src st = (case send_to d src (fst st) of (ok, w) \<Rightarrow> (ok, w, snd st @ [(d, src)]))"

text \<open>The datagrams that arrive before a shutdown is seen or the socket fails.\<close>

definition arrived :: "(bool \<times> 's recv_result) list \<Rightarrow> (string \<times> 's) list" where
  "arrived evs =
     List.map_filter (\<lambda>e. case snd e of Received d src \<Rightarrow> Some (d, src) | _ \<Rightarrow> None)
       (takeWhile (\<lambda>e. \<not> fst e \<and> snd e \<noteq> RecvError) evs)"

lemma dummy_answers_unique:
  assumes "map rr_name as = map qname qs"
    and "list_all (\<lambda>a. rr_data a = A 0x06060606 \<and> rr_class a = ''IN'' \<and> rr_ttl a = 60) as"
  shows "as = map dummy_answer qs"
  using assms
proof (induction as arbitrary: qs)
  case (Cons a as)
  then obtain q qs' where "qs = q # qs'" "rr_name a = qname q" by auto
  with Cons show ?case by (auto simp: dummy_answer_def DUMMY_IPV4_def intro: dns_record.equality)
qed simp

text \<open>The reply that the server builds is the only one with these properties.\<close>

lemma discloses_nothing_unique:
  "discloses_nothing query resp \<longleftrightarrow>
     resp = \<lparr>dns_id = dns_id query, dns_flags = [''RESPONSE'', ''RECURSION_AVAILABLE''],
       dns_questions = dns_questions query, dns_answers = map dummy_answer (dns_questions query)\<rparr>"
proof
  assume d: "discloses_nothing query resp"
  then have "dns_answers resp = map dummy_answer (dns_questions query)"
    by (intro dummy_answers_unique) (simp_all add: discloses_nothing_def)
  with d show "resp = \<lparr>dns_id = dns_id query, dns_flags = [''RESPONSE'', ''RECURSION_AVAILABLE''],
       dns_questions = dns_questions query, dns_answers = map dummy_answer (dns_questions query)\<rparr>"
    by (cases resp) (simp add: discloses_nothing_def)
qed (simp add: discloses_nothing_def dummy_answer_def DUMMY_IPV4_def list_all_iff)

lemma build_dummy_response_ok:
  "build_dummy_response build_bytes query = Ok bytes \<longleftrightarrow>
     (\<exists>resp. discloses_nothing query resp \<and> build_bytes resp = Ok bytes)"
  unfolding discloses_nothing_unique
  by (auto simp: build_dummy_response_def err_context_def Let_def split: sum.splits)

lemma answers_iff:
  "answers parse build_bytes d bytes \<longleftrightarrow>
     (\<exists>query. parse (take MAX_DNS_PACKET_SIZE d) = Ok query \<and> build_dummy_response build_bytes query = Ok bytes)"
  unfolding answers_def build_dummy_response_ok MAX_DNS_PACKET_SIZE_def by blast

lemma arrived_simps:
  "arrived [] = []"
  "arrived ((shutdown, r) # evs) =
     (if shutdown then []
      else case r of Received d src \<Rightarrow> (d, src) # arrived evs | RecvError \<Rightarrow> [] | _ \<Rightarrow> arrived evs)"
  by (simp_all add: arrived_def map_filter_simps split: recv_result.splits)

lemma snd_traced_send: "snd (snd (traced_send send_to d src st)) = snd st @ [(d, src)]"
  by (simp add: traced_send_def split: prod.splits)

text \<open>
  (C39) Whatever the sends of the socket report, the DNS server attempts exactly one reply, to its sender and in the
  order of arrival, for each datagram that arrives before a shutdown is seen or the socket fails and that is a
  query whose reply can be encoded, and sends nothing else. Each reply has the identifier and the questions of its
  query and, for every question, one record for the same name with the address 6.6.6.6. Failed sends, malformed
  datagrams, failed encodings and receive timeouts do not end the server.
\<close>

theorem dns_answers_each_query:
  "\<exists>replies. snd (run_dns_server parse build_bytes (traced_send send_to) evs st) = snd st @ replies \<and>
     list_all2 (\<lambda>(d, src) (bytes, dest). dest = src \<and> answers parse build_bytes d bytes)
       (filter (\<lambda>(d, src). \<exists>bytes. answers parse build_bytes d bytes) (arrived evs)) replies"
proof (induction evs arbitrary: st)
  case Nil
  then show ?case by (simp add: arrived_simps)
next
  case (Cons e evs)
  obtain shutdown r where e: "e = (shutdown, r)" by (cases e)
  show ?case
  proof (cases "\<exists>d src bytes. \<not> shutdown \<and> r = Received d src \<and> answers parse build_bytes d bytes")
    case True
    then obtain d src bytes query where r: "\<not> shutdown" "r = Received d src" "answers parse build_bytes d bytes"
        "parse (take MAX_DNS_PACKET_SIZE d) = Ok query" "build_dummy_response build_bytes query = Ok bytes"
      by (auto simp: answers_iff)
    obtain replies where "snd (run_dns_server parse build_bytes (traced_send send_to) evs
          (snd (traced_send send_to bytes src st))) = snd (snd (traced_send send_to bytes src st)) @ replies"
        "list_all2 (\<lambda>(d, src) (bytes, dest). dest = src \<and> answers parse build_bytes d bytes)
           (filter (\<lambda>(d, src). \<exists>bytes. answers parse build_bytes d bytes) (arrived evs)) replies"
      using Cons.IH by blast
    with r show ?thesis
      by (intro exI [of _ "(bytes, src) # replies"]) (auto simp: e arrived_simps snd_traced_send)
  next
    case False
    then show ?thesis
      using Cons.IH [of st]
      by (cases shutdown; cases r) (auto simp: e arrived_simps answers_iff split: sum.splits)
  qed
qed

end
