(* ===== verification/Linux_Jail.thy ===== *)
theory Linux_Jail
  imports Nftables Dns
begin

text \<open>
  \<^verbatim>\<open>src/src/jail/linux/mod.rs\<close>: the Linux jail, a network namespace connected to the host by a veth
  pair, with the nftables rules that redirect its traffic to the proxy and the dummy DNS server. Its
  setup is a sequence of fallible steps; its resources are released when it is dropped, and by name
  when the jail is cleaned up as an orphan.
\<close>

section \<open>State\<close>

record linux_jail =
  lj_config :: jail_config
  lj_resolv :: "netns_resolv managed option"
  lj_nftables :: "nft_wrapper managed option"
  lj_veth :: "veth_pair managed option"
  lj_namespace :: "network_namespace managed option"
  lj_dns :: "dns_server option"
  lj_host_ip :: ip4
  lj_host_cidr :: string
  lj_guest_cidr :: string
  lj_subnet_cidr :: string

definition linux_new :: "(string \<Rightarrow> u64) \<Rightarrow> jail_config \<Rightarrow> linux_jail" where
  "linux_new hash config =
     (case compute_subnet_for_jail hash (jail_id config) of (host_ip, host_cidr, guest_cidr, subnet_cidr) \<Rightarrow>
        \<lparr>lj_config = config, lj_resolv = None, lj_nftables = None, lj_veth = None, lj_namespace = None,
         lj_dns = None, lj_host_ip = host_ip, lj_host_cidr = host_cidr, lj_guest_cidr = guest_cidr,
         lj_subnet_cidr = subnet_cidr\<rparr>)"

abbreviation lj_id :: "linux_jail \<Rightarrow> string" where
  "lj_id j \<equiv> jail_id (lj_config j)"

text \<open>A step of the setup changes the jail and the world and may fail.\<close>

type_synonym ('j, 'w) jail_step = "'j \<Rightarrow> 'w \<Rightarrow> unit result \<times> 'j \<times> 'w"

definition then_step :: "('j, 'w) jail_step \<Rightarrow> ('j, 'w) jail_step \<Rightarrow> ('j, 'w) jail_step" where
  "then_step f g j w =
     (case f j w of (Inl e, j, w) \<Rightarrow> (Err e, j, w) | (Inr _, j, w) \<Rightarrow> g j w)"

lemma then_step_OkE:
  assumes "then_step f g j w = (Ok (), j', w')"
  obtains j1 w1 where "f j w = (Ok (), j1, w1)" and "g j1 w1 = (Ok (), j', w')"
  using assms by (auto simp: then_step_def split: prod.splits sum.splits)

definition keep_jail :: "('j \<Rightarrow> ('w, unit) fallible) \<Rightarrow> ('j, 'w) jail_step" where
  "keep_jail f j w = (case f j w of (r, w) \<Rightarrow> (r, j, w))"

section \<open>Steps of the setup\<close>

definition check_root :: "nat \<Rightarrow> ('w, unit) fallible" where
  "check_root uid w =
     (if uid \<noteq> 0
      then (Err ''Network namespace operations require root access. Please run with sudo.'', w)
      else (Ok (), w))"

definition create_namespace :: "'w sys_ops \<Rightarrow> (linux_jail, 'w) jail_step" where
  "create_namespace S j w =
     (case managed_create (netns_resource S) (lj_id j) w of
        (Inl e, w) \<Rightarrow> (Err e, j, w)
      | (Inr m, w) \<Rightarrow>
          (Ok (), j\<lparr>lj_namespace := Some m\<rparr>, drop_option (netns_resource S) (lj_namespace j) w))"

definition setup_veth_pair :: "'w sys_ops \<Rightarrow> (linux_jail, 'w) jail_step" where
  "setup_veth_pair S j w =
     (case managed_create (veth_resource S) (lj_id j) w of
        (Inl e, w) \<Rightarrow> (Err e, j, w)
      | (Inr m, w) \<Rightarrow>
          (let w = drop_option (veth_resource S) (lj_veth j) w; j = j\<lparr>lj_veth := Some m\<rparr>
           in case with_ctx ''Failed to move veth to namespace''
                     (run S (ip_cmd [''link'', ''set'', veth_ns (lj_id j), ''netns'', namespace_name (lj_id j)])) w of
                (Inl e, w) \<Rightarrow> (Err e, j, w)
              | (Inr out, w) \<Rightarrow>
                  (if out_success out then (Ok (), j, w)
                   else (Err (''Failed to move veth to namespace: '' @ from_utf8_lossy (out_stderr out)), j, w))))"

text \<open>
  The format \<^verbatim>\<open>{:?}\<close> of a vector of strings.
\<close>

definition debug_words :: "string list \<Rightarrow> string" where
  "debug_words ws =
     ''['' @ concat (map (\<lambda>s. debug_str s @ '', '') (butlast ws)) @ (if ws = [] then [] else debug_str (last ws)) @ '']''"

fun run_host_commands :: "'w sys_ops \<Rightarrow> string list list \<Rightarrow> ('w, unit) fallible" where
  "run_host_commands S [] w = (Ok (), w)"
| "run_host_commands S (args # rest) w =
     (case run S (ip_cmd args) w of
        (Inl e, w) \<Rightarrow> (Err (''Failed to execute: ip '' @ debug_words args @ '': '' @ e), w)
      | (Inr out, w) \<Rightarrow>
          (if \<not> out_success out \<and> \<not> str_contains ''File exists'' (from_utf8_lossy (out_stderr out))
           then (Err (''Failed to configure host networking (ip '' @ join_with '' '' args @ ''): '' @
                      from_utf8_lossy (out_stderr out)), w)
           else run_host_commands S rest w))"

definition host_commands :: "linux_jail \<Rightarrow> string list list" where
  "host_commands j =
     [[''addr'', ''add'', lj_host_cidr j, ''dev'', veth_host (lj_id j)],
      [''link'', ''set'', veth_host (lj_id j), ''up'']]"

definition configure_host_networking :: "'w sys_ops \<Rightarrow> linux_jail \<Rightarrow> ('w, unit) fallible" where
  "configure_host_networking S j =
     and_then (run_host_commands S (host_commands j)) (\<lambda>_.
     and_then (with_ctx ''Failed to enable IP forwarding''
                 (run S (command ''sysctl'' [''-w'', ''net.ipv4.ip_forward=1'']))) (\<lambda>_.
       return_ok ()))"

definition in_namespace :: "string \<Rightarrow> string list \<Rightarrow> sys_command" where
  "in_namespace ns args = ip_cmd ([''netns'', ''exec'', ns] @ args)"

fun run_namespace_commands :: "'w sys_ops \<Rightarrow> string \<Rightarrow> string list list \<Rightarrow> ('w, unit) fallible" where
  "run_namespace_commands S ns [] w = (Ok (), w)"
| "run_namespace_commands S ns (args # rest) w =
     (case run S (in_namespace ns args) w of
        (Inl e, w) \<Rightarrow> (Err (''Failed to execute: ip netns exec '' @ ns @ '' '' @ debug_words args @ '': '' @ e), w)
      | (Inr out, w) \<Rightarrow>
          (if \<not> out_success out
           then (Err (''Failed to configure namespace networking ('' @ join_with '' '' args @ ''): '' @
                      from_utf8_lossy (out_stderr out)), w)
           else run_namespace_commands S ns rest w))"

definition namespace_commands :: "linux_jail \<Rightarrow> string list list" where
  "namespace_commands j =
     [[''ip'', ''link'', ''set'', ''lo'', ''up''],
      [''ip'', ''addr'', ''add'', lj_guest_cidr j, ''dev'', veth_ns (lj_id j)],
      [''ip'', ''link'', ''set'', veth_ns (lj_id j), ''up''],
      [''ip'', ''route'', ''add'', ''default'', ''via'', format_ip (lj_host_ip j)]]"

definition configure_namespace_networking :: "'w sys_ops \<Rightarrow> linux_jail \<Rightarrow> ('w, unit) fallible" where
  "configure_namespace_networking S j =
     and_then (run_namespace_commands S (namespace_name (lj_id j)) (namespace_commands j)) (\<lambda>_ w.
       (Ok (), snd (run S (in_namespace (namespace_name (lj_id j)) [''ip'', ''route'', ''show'']) w)))"

definition start_dns_server :: "'w sys_ops \<Rightarrow> 'w dns_ops \<Rightarrow> (linux_jail, 'w) jail_step" where
  "start_dns_server S D j w =
     (let host_ip_str = format_ip (lj_host_ip j)
      in case with_ctx ''Failed to create /etc/netns resolv.conf''
                (create_with_nameserver S (lj_id j) host_ip_str) w of
           (Inl e, w) \<Rightarrow> (Err e, j, w)
         | (Inr r, w) \<Rightarrow>
             (let w = drop_option (resolv_resource S) (lj_resolv j) w;
                  j = j\<lparr>lj_resolv := Some (from_resource r)\<rparr>
              in case dns_start D (host_ip_str @ '':53'') dns_new w of
                   (Inl e, server, w) \<Rightarrow>
                     (Err (''Failed to start host DNS server: '' @ e), j, snd (dns_stop D server w))
                 | (Inr _, server, w) \<Rightarrow>
                     (Ok (), j\<lparr>lj_dns := Some server\<rparr>,
                      (case lj_dns j of Some old \<Rightarrow> snd (dns_stop D old w) | None \<Rightarrow> w))))"

definition setup_host_nat :: "'w sys_ops \<Rightarrow> (linux_jail, 'w) jail_step" where
  "setup_host_nat S j w =
     (case managed_create (nft_resource S) (lj_id j) w of
        (Inl e, w) \<Rightarrow> (Err e, j, w)
      | (Inr nftable, w) \<Rightarrow>
          (case resource nftable of
             Some wrapper \<Rightarrow>
               (case new_host_table S (lj_id j) (lj_subnet_cidr j)
                       (http_proxy_port (lj_config j)) (https_proxy_port (lj_config j)) w of
                  (Inl e, w) \<Rightarrow> (Err e, j, managed_drop (nft_resource S) nftable w)
                | (Inr table, w) \<Rightarrow>
                    (Ok (), j\<lparr>lj_nftables := Some \<lparr>resource = Some (wrapper\<lparr>wrapper_table := Some table\<rparr>)\<rparr>\<rparr>,
                     drop_option (nft_resource S) (lj_nftables j) w))
           | None \<Rightarrow>
               (Ok (), j\<lparr>lj_nftables := Some nftable\<rparr>, drop_option (nft_resource S) (lj_nftables j) w)))"

definition setup_namespace_nftables :: "'w sys_ops \<Rightarrow> linux_jail \<Rightarrow> ('w, unit) fallible" where
  \<comment> \<open>the table is forgotten, not dropped: it disappears with the namespace\<close>
  "setup_namespace_nftables S j =
     and_then (new_namespace_table_with_dns S (namespace_name (lj_id j)) (format_ip (lj_host_ip j))
                 (http_proxy_port (lj_config j)) (https_proxy_port (lj_config j)) 53)
       (\<lambda>_. return_ok ())"

definition linux_setup :: "nat \<Rightarrow> 'w sys_ops \<Rightarrow> 'w dns_ops \<Rightarrow> u16 \<Rightarrow> (linux_jail, 'w) jail_step" where
  "linux_setup uid S D proxy_port =
     then_step (keep_jail (\<lambda>_. check_root uid))
     (then_step (create_namespace S)
     (then_step (setup_veth_pair S)
     (then_step (keep_jail (configure_host_networking S))
     (then_step (keep_jail (configure_namespace_networking S))
     (then_step (start_dns_server S D)
     (then_step (setup_host_nat S)
                (keep_jail (setup_namespace_nftables S))))))))"

section \<open>Execution\<close>

definition sudo_env :: "(string \<Rightarrow> string option) \<Rightarrow> (string \<times> string) list" where
  "sudo_env env_var =
     concat (map (\<lambda>k. case env_var k of Some v \<Rightarrow> [(k, v)] | None \<Rightarrow> []) [''SUDO_USER'', ''SUDO_UID'', ''SUDO_GID''])"

definition drop_privs :: "nat \<Rightarrow> (string \<Rightarrow> string option) \<Rightarrow> (string \<times> string) option" where
  "drop_privs uid env_var =
     (if uid = 0 then
        (case (env_var ''SUDO_UID'', env_var ''SUDO_GID'') of
           (Some u, Some g) \<Rightarrow> Some (u, g)
         | _ \<Rightarrow> None)
      else None)"

definition linux_command ::
  "nat \<Rightarrow> (string \<Rightarrow> string option) \<Rightarrow> string \<Rightarrow> string list \<Rightarrow> (string \<times> string) list \<Rightarrow> sys_command" where
  "linux_command uid env_var ns cmd extra_env =
     \<lparr>cmd_program = ''ip'',
      cmd_args =
        [''netns'', ''exec'', ns] @
        (case drop_privs uid env_var of
           Some (u, g) \<Rightarrow> [''setpriv'', ''--reuid='' @ u, ''--regid='' @ g, ''--init-groups'', ''--'']
         | None \<Rightarrow> []) @ cmd,
      cmd_env = extra_env @ sudo_env env_var, cmd_stdin = None\<rparr>"

definition linux_execute ::
  "nat \<Rightarrow> (string \<Rightarrow> string option) \<Rightarrow> 'w sys_ops \<Rightarrow> linux_jail \<Rightarrow> string list \<Rightarrow> (string \<times> string) list \<Rightarrow>
     ('w, exit_status) fallible" where
  "linux_execute uid env_var S j cmd extra_env w =
     (if cmd = [] then (Err ''No command specified'', w)
      else with_ctx ''Failed to execute command in namespace''
             (run_status S (linux_command uid env_var (namespace_name (lj_id j)) cmd extra_env)) w)"

section \<open>Cleanup\<close>

definition linux_cleanup_orphaned :: "'w sys_ops \<Rightarrow> string \<Rightarrow> ('w, unit) fallible" where
  \<comment> \<open>the four handles are dropped in the reverse order of their declaration\<close>
  "linux_cleanup_orphaned S jid w =
     (let w = managed_drop (resolv_resource S) (managed_for_existing (resolv_resource S) jid) w;
          w = managed_drop (nft_resource S) (managed_for_existing (nft_resource S) jid) w;
          w = managed_drop (veth_resource S) (managed_for_existing (veth_resource S) jid) w;
          w = managed_drop (netns_resource S) (managed_for_existing (netns_resource S) jid) w
      in (Ok (), w))"

definition linux_cleanup :: "'w sys_ops \<Rightarrow> linux_jail \<Rightarrow> ('w, unit) fallible" where
  "linux_cleanup S j = and_then (linux_cleanup_orphaned S (lj_id j)) (\<lambda>_. return_ok ())"

definition linux_drop :: "'w sys_ops \<Rightarrow> 'w dns_ops \<Rightarrow> linux_jail \<Rightarrow> 'w \<Rightarrow> 'w" where
  \<comment> \<open>\<open>Drop\<close> stops the DNS server; then the fields are dropped in declaration order\<close>
  "linux_drop S D j w =
     (let w = (case lj_dns j of Some server \<Rightarrow> snd (dns_stop D server w) | None \<Rightarrow> w);
          w = drop_option (resolv_resource S) (lj_resolv j) w;
          w = drop_option (nft_resource S) (lj_nftables j) w;
          w = drop_option (veth_resource S) (lj_veth j) w
      in drop_option (netns_resource S) (lj_namespace j) w)"

definition linux_clone :: "linux_jail \<Rightarrow> linux_jail" where
  "linux_clone j =
     j\<lparr>lj_resolv := None, lj_nftables := None, lj_veth := None, lj_namespace := None, lj_dns := None\<rparr>"

definition linux_jail_ops ::
  "nat \<Rightarrow> (string \<Rightarrow> string option) \<Rightarrow> 'w sys_ops \<Rightarrow> 'w dns_ops \<Rightarrow> (linux_jail, 'w) jail_ops" where
  "linux_jail_ops uid env_var S D =
     \<lparr>jail_setup = linux_setup uid S D, jail_execute = linux_execute uid env_var S,
      jail_cleanup = linux_cleanup S, jail_ident = (\<lambda>j. lj_id j),
      jail_cleanup_orphaned = linux_cleanup_orphaned S, jail_drop = linux_drop S D\<rparr>"

section \<open>Resource accounting\<close>

text \<open>
  A run is observed by recording what is asked of the operating system, with the outcome. A jail has
  four kinds of resources; a command that succeeds acquires one or releases it. A command that asks for
  the deletion of a resource and fails leaves it held, and the resource counts as refused.
\<close>

datatype sys_event =
    Ran sys_command bool
  | Piped sys_command bool
  | MadeDir string bool
  | Wrote string bool
  | RemovedDir string bool

fun event_ok :: "sys_event \<Rightarrow> bool" where
  "event_ok (Ran _ ok) = ok"
| "event_ok (Piped _ ok) = ok"
| "event_ok (MadeDir _ ok) = ok"
| "event_ok (Wrote _ ok) = ok"
| "event_ok (RemovedDir _ ok) = ok"

definition watch_sys :: "'w sys_ops \<Rightarrow> ('w \<times> sys_event list) sys_ops" where
  "watch_sys S =
     \<lparr>run = (\<lambda>c st. case run S c (fst st) of
               (r, w) \<Rightarrow> (r, (w, snd st @ [Ran c (case r of Inr out \<Rightarrow> out_success out | Inl _ \<Rightarrow> False)]))),
      pipe = (\<lambda>c st. case pipe S c (fst st) of
               (r, w) \<Rightarrow> (r, (w, snd st @ [Piped c (case r of Finished out \<Rightarrow> out_success out | _ \<Rightarrow> False)]))),
      run_status = (\<lambda>c st. case run_status S c (fst st) of (r, w) \<Rightarrow> (r, (w, snd st))),
      create_dir_all = (\<lambda>d st. case create_dir_all S d (fst st) of (r, w) \<Rightarrow> (r, (w, snd st @ [MadeDir d (is_ok r)]))),
      write_new = (\<lambda>p t st. case write_new S p t (fst st) of (r, w) \<Rightarrow> (r, (w, snd st @ [Wrote p (is_ok r)]))),
      create_new = (\<lambda>p st. case create_new S p (fst st) of (r, w) \<Rightarrow> (r, (w, snd st @ [Wrote p (is_ok r)]))),
      remove_dir_all = (\<lambda>d st. case remove_dir_all S d (fst st) of (r, w) \<Rightarrow> (r, (w, snd st @ [RemovedDir d (r = Removed)]))),
      read_link = (\<lambda>p st. case read_link S p (fst st) of (r, w) \<Rightarrow> (r, (w, snd st))),
      canonicalize = (\<lambda>p st. case canonicalize S p (fst st) of (r, w) \<Rightarrow> (r, (w, snd st)))\<rparr>"

definition watch_dns :: "'w dns_ops \<Rightarrow> ('w \<times> sys_event list) dns_ops" where
  "watch_dns D =
     \<lparr>udp_bind = (\<lambda>a st. case udp_bind D a (fst st) of (r, w) \<Rightarrow> (r, (w, snd st))),
      set_read_timeout = (\<lambda>n st. case set_read_timeout D n (fst st) of (r, w) \<Rightarrow> (r, (w, snd st))),
      try_clone = (\<lambda>st. case try_clone D (fst st) of (r, w) \<Rightarrow> (r, (w, snd st))),
      spawn_server = (\<lambda>st. (spawn_server D (fst st), snd st)),
      join_server = (\<lambda>st. (join_server D (fst st), snd st))\<rparr>"

datatype res = RNamespace | RVeth | RTable | RDir

definition acquires :: "string \<Rightarrow> sys_event \<Rightarrow> res set" where
  "acquires jid e =
     (case e of
        Ran c ok \<Rightarrow>
          (if ok \<and> c = ip_cmd [''netns'', ''add'', namespace_name jid] then {RNamespace}
           else if ok \<and> c = ip_cmd [''link'', ''add'', veth_host jid, ''type'', ''veth'', ''peer'', ''name'', veth_ns jid]
           then {RVeth} else {})
      | Piped c ok \<Rightarrow> (if ok \<and> cmd_program c = ''nft'' then {RTable} else {})
      | MadeDir d ok \<Rightarrow> (if ok \<and> d = ''/etc/netns/httpjail_'' @ jid then {RDir} else {})
      | _ \<Rightarrow> {})"

definition deletes :: "string \<Rightarrow> sys_event \<Rightarrow> res set" where
  \<comment> \<open>the resource whose deletion the event asks for\<close>
  "deletes jid e =
     (case e of
        Ran c _ \<Rightarrow>
          (if c = ip_cmd [''netns'', ''del'', namespace_name jid] then {RNamespace}
           else if c = ip_cmd [''link'', ''del'', veth_host jid] then {RVeth}
           else if c = command ''nft'' [''delete'', ''table'', ''ip'', ''httpjail_'' @ jid] then {RTable} else {})
      | RemovedDir d _ \<Rightarrow> (if d = ''/etc/netns/httpjail_'' @ jid then {RDir} else {})
      | _ \<Rightarrow> {})"

definition releases :: "string \<Rightarrow> sys_event \<Rightarrow> res set" where
  "releases jid e = (if event_ok e then deletes jid e else {})"

definition refused :: "string \<Rightarrow> sys_event \<Rightarrow> res set" where
  "refused jid e = (if event_ok e then {} else deletes jid e)"

definition refusals :: "string \<Rightarrow> sys_event list \<Rightarrow> res set" where
  "refusals jid es = (\<Union>e \<in> set es. refused jid e)"

fun held_from :: "string \<Rightarrow> res set \<Rightarrow> sys_event list \<Rightarrow> res set" where
  "held_from jid s [] = s"
| "held_from jid s (e # es) = held_from jid (s \<union> acquires jid e - releases jid e) es"

definition held :: "string \<Rightarrow> sys_event list \<Rightarrow> res set" where
  "held jid tr = held_from jid {} tr"

lemma held_from_append: "held_from jid s (xs @ ys) = held_from jid (held_from jid s xs) ys"
  by (induction jid s xs rule: held_from.induct) simp_all

lemma held_append [simp]: "held jid (tr @ es) = held_from jid (held jid tr) es"
  by (simp add: held_def held_from_append)

lemma held_Nil [simp]: "held jid [] = {}"
  by (simp add: held_def)

lemma watch_sys_ops:
  "run (watch_sys S) c (w, tr) = (fst (run S c w), (snd (run S c w),
     tr @ [Ran c (case fst (run S c w) of Inr out \<Rightarrow> out_success out | Inl _ \<Rightarrow> False)]))"
  "pipe (watch_sys S) c (w, tr) = (fst (pipe S c w), (snd (pipe S c w),
     tr @ [Piped c (case fst (pipe S c w) of Finished out \<Rightarrow> out_success out | _ \<Rightarrow> False)]))"
  "create_dir_all (watch_sys S) d (w, tr) = (fst (create_dir_all S d w), (snd (create_dir_all S d w),
     tr @ [MadeDir d (is_ok (fst (create_dir_all S d w)))]))"
  "write_new (watch_sys S) p t (w, tr) = (fst (write_new S p t w), (snd (write_new S p t w),
     tr @ [Wrote p (is_ok (fst (write_new S p t w)))]))"
  "create_new (watch_sys S) p (w, tr) = (fst (create_new S p w), (snd (create_new S p w),
     tr @ [Wrote p (is_ok (fst (create_new S p w)))]))"
  "remove_dir_all (watch_sys S) d (w, tr) =
     (fst (remove_dir_all S d w), (snd (remove_dir_all S d w), tr @ [RemovedDir d (fst (remove_dir_all S d w) = Removed)]))"
  "read_link (watch_sys S) p (w, tr) = (fst (read_link S p w), (snd (read_link S p w), tr))"
  "canonicalize (watch_sys S) p (w, tr) = (fst (canonicalize S p w), (snd (canonicalize S p w), tr))"
  by (simp_all add: watch_sys_def split: prod.splits)

lemma event_simps [simp]:
  "acquires jid (Wrote p ok) = {}" "deletes jid (Wrote p ok) = {}"
  "deletes jid (Piped c ok) = {}" "deletes jid (MadeDir d ok) = {}" "acquires jid (RemovedDir d ok) = {}"
  "deletes jid e = {} \<Longrightarrow> releases jid e = {}"
  by (simp_all add: acquires_def deletes_def releases_def)

lemma refusals_simps [simp]:
  "refusals jid [] = {}" "refusals jid (e # es) = refused jid e \<union> refusals jid es"
  "refusals jid (xs @ ys) = refusals jid xs \<union> refusals jid ys"
  by (auto simp: refusals_def)

text \<open>
  The events between two traces clear a set of resources: what is held afterwards was held before and is not
  among them, or is something the operating system refused to delete in between.
\<close>

definition clears :: "string \<Rightarrow> res set \<Rightarrow> sys_event list \<Rightarrow> sys_event list \<Rightarrow> bool" where
  "clears jid R tr tr' = (\<exists>es. tr' = tr @ es \<and> (\<forall>s. held_from jid s es \<subseteq> s - R \<union> refusals jid es))"

lemma clears_refl [simp]: "clears jid {} tr tr"
  by (auto simp: clears_def intro!: exI [of _ "[]"])

lemma clears_snoc: "R \<subseteq> deletes jid e \<Longrightarrow> acquires jid e = {} \<Longrightarrow> clears jid R tr (tr @ [e])"
  by (auto simp: clears_def releases_def refused_def intro!: exI [of _ "[e]"])

lemma clears_trans:
  assumes "clears jid R tr tr1" and "clears jid Q tr1 tr2"
  shows "clears jid (R \<union> Q) tr tr2"
proof -
  from assms obtain es fs where e: "tr1 = tr @ es" "tr2 = tr @ es @ fs"
    and s: "held_from jid s es \<subseteq> s - R \<union> refusals jid es" "held_from jid s fs \<subseteq> s - Q \<union> refusals jid fs" for s
    by (auto simp: clears_def)
  have "held_from jid s (es @ fs) \<subseteq> s - (R \<union> Q) \<union> refusals jid (es @ fs)" for s
    using s(1) [of s] s(2) [of "held_from jid s es"] by (auto simp: held_from_append)
  with e show ?thesis unfolding clears_def by blast
qed

lemma clears_held:
  assumes "clears jid R tr tr'"
  obtains es where "tr' = tr @ es" and "held jid tr' \<subseteq> held jid tr - R \<union> refusals jid es"
  using assms by (auto simp: clears_def)

lemmas name_defs = namespace_name_def veth_host_def veth_ns_def ip_cmd_def command_def

lemma resolve_target_trace: "snd (snd (resolve_resolv_conf_target (watch_sys S) (w, tr))) = tr"
  by (simp add: resolve_resolv_conf_target_def watch_sys_ops split: sum.splits)

text \<open>What dropping a handle that still owns its resource does to the account.\<close>

lemma delete_events:
  "deletes jid (RemovedDir (''/etc/netns/httpjail_'' @ jid) ok) = {RDir}"
  "deletes jid (Ran (command ''nft'' [''delete'', ''table'', ''ip'', ''httpjail_'' @ jid]) ok) = {RTable}"
  "deletes jid (Ran (ip_cmd [''link'', ''del'', ''vh_'' @ jid]) ok) = {RVeth}"
  "deletes jid (Ran (ip_cmd [''netns'', ''del'', ''httpjail_'' @ jid]) ok) = {RNamespace}"
  "acquires jid (Ran (command ''umount'' args) ok) = {}"
  "acquires jid (Ran (command ''nft'' args) ok) = {}"
  "acquires jid (Ran (ip_cmd [''link'', ''del'', n]) ok) = {}"
  "acquires jid (Ran (ip_cmd [''netns'', ''del'', n]) ok) = {}"
  by (simp_all add: acquires_def deletes_def name_defs)

lemma drop_resolv:
  assumes "\<forall>m. f = Some m \<longrightarrow> resource m = Some \<lparr>netns_dir = ''/etc/netns/httpjail_'' @ jid, resolv_created = True\<rparr>"
  shows "clears jid (if f = None then {} else {RDir}) tr (snd (drop_option (resolv_resource (watch_sys S)) f (w, tr)))"
proof (cases f)
  case (Some m)
  let ?d = "\<lambda>ok. RemovedDir (''/etc/netns/httpjail_'' @ jid) ok"
  have one: "clears jid {RDir} tr (tr @ [?d ok])" for tr ok
    by (rule clears_snoc) (simp_all only: delete_events event_simps subset_refl)
  have "clears jid {} tr (tr @ [Ran (command ''umount'' args) k])" for args k
    by (rule clears_snoc) (simp_all add: delete_events)
  from clears_trans [OF this one]
  have two: "clears jid {RDir} tr (tr @ [Ran (command ''umount'' args) k, ?d ok])" for args k ok by simp
  obtain t w1 where t: "resolve_resolv_conf_target (watch_sys S) (w, tr) = (t, (w1, tr))"
    using resolve_target_trace [of S w tr] by (metis prod.collapse)
  show ?thesis
    using Some assms t one two
    by (cases t)
      (auto simp: drop_option_def managed_drop_def resolv_resource_def resolv_cleanup_def watch_sys_ops Let_def)
qed simp

lemma drop_nft:
  assumes "\<forall>m. f = Some m \<longrightarrow> (\<exists>r. resource m = Some r \<and>
    wrapper_table r = Some \<lparr>table_name = ''httpjail_'' @ jid, table_namespace = None, table_created = True\<rparr>)"
  shows "clears jid (if f = None then {} else {RTable}) tr (snd (drop_option (nft_resource (watch_sys S)) f (w, tr)))"
proof (cases f)
  case (Some m)
  have "clears jid {RTable} tr (tr @ [Ran (command ''nft'' [''delete'', ''table'', ''ip'', ''httpjail_'' @ jid]) ok])" for ok
    by (rule clears_snoc) (simp_all only: delete_events subset_refl)
  with Some assms show ?thesis
    by (auto simp: drop_option_def managed_drop_def nft_resource_def nft_wrapper_cleanup_def nft_drop_def
        nft_remove_def with_ctx_def err_context_def watch_sys_ops split: sum.splits)
qed simp

lemma drop_veth:
  assumes "\<forall>m. f = Some m \<longrightarrow> resource m =
    Some \<lparr>veth_host_name = ''vh_'' @ jid, veth_ns_name = ''vn_'' @ jid, veth_created = True\<rparr>"
  shows "clears jid (if f = None then {} else {RVeth}) tr (snd (drop_option (veth_resource (watch_sys S)) f (w, tr)))"
proof (cases f)
  case (Some m)
  have "clears jid {RVeth} tr (tr @ [Ran (ip_cmd [''link'', ''del'', ''vh_'' @ jid]) ok])" for ok
    by (rule clears_snoc) (simp_all only: delete_events subset_refl)
  with Some assms show ?thesis
    by (auto simp: drop_option_def managed_drop_def veth_resource_def veth_cleanup_def watch_sys_ops)
qed simp

lemma drop_netns:
  assumes "\<forall>m. f = Some m \<longrightarrow> resource m = Some \<lparr>ns_name = ''httpjail_'' @ jid, ns_created = True\<rparr>"
  shows "clears jid (if f = None then {} else {RNamespace}) tr (snd (drop_option (netns_resource (watch_sys S)) f (w, tr)))"
proof (cases f)
  case (Some m)
  have "clears jid {RNamespace} tr (tr @ [Ran (ip_cmd [''netns'', ''del'', ''httpjail_'' @ jid]) ok])" for ok
    by (rule clears_snoc) (simp_all only: delete_events subset_refl)
  with Some assms show ?thesis
    by (auto simp: drop_option_def managed_drop_def netns_resource_def netns_cleanup_def watch_sys_ops Let_def
        split: sum.splits)
qed simp

text \<open>
  The invariant of a jail under construction: each handle is the intact handle of this jail's
  resource, and every resource that is held has its handle, except those in \<open>X\<close>.
\<close>

definition lj_inv :: "res set \<Rightarrow> string \<Rightarrow> linux_jail \<Rightarrow> sys_event list \<Rightarrow> bool" where
  "lj_inv X jid j tr =
     (lj_id j = jid \<and>
      (\<forall>m. lj_resolv j = Some m \<longrightarrow> resource m = Some \<lparr>netns_dir = ''/etc/netns/httpjail_'' @ jid, resolv_created = True\<rparr>) \<and>
      (\<forall>m. lj_nftables j = Some m \<longrightarrow> (\<exists>r. resource m = Some r \<and>
         wrapper_table r = Some \<lparr>table_name = ''httpjail_'' @ jid, table_namespace = None, table_created = True\<rparr>)) \<and>
      (\<forall>m. lj_veth j = Some m \<longrightarrow> resource m =
         Some \<lparr>veth_host_name = ''vh_'' @ jid, veth_ns_name = ''vn_'' @ jid, veth_created = True\<rparr>) \<and>
      (\<forall>m. lj_namespace j = Some m \<longrightarrow> resource m = Some \<lparr>ns_name = ''httpjail_'' @ jid, ns_created = True\<rparr>) \<and>
      held jid tr \<subseteq> X \<union> (if lj_resolv j = None then {} else {RDir}) \<union>
        (if lj_nftables j = None then {} else {RTable}) \<union>
        (if lj_veth j = None then {} else {RVeth}) \<union>
        (if lj_namespace j = None then {} else {RNamespace}))"

lemma dns_stop_trace: "snd (snd (dns_stop (watch_dns D) s st)) = snd st"
  by (simp add: dns_stop_def watch_dns_def)

definition owns :: "linux_jail \<Rightarrow> res set" where
  "owns j = (if lj_resolv j = None then {} else {RDir}) \<union> (if lj_nftables j = None then {} else {RTable}) \<union>
     (if lj_veth j = None then {} else {RVeth}) \<union> (if lj_namespace j = None then {} else {RNamespace})"

lemma drop_clears:
  assumes "lj_inv X jid j tr"
  shows "clears jid (owns j) tr (snd (linux_drop (watch_sys S) (watch_dns D) j (w, tr)))"
proof -
  obtain w1 where d: "(case lj_dns j of Some server \<Rightarrow> snd (dns_stop (watch_dns D) server (w, tr)) | None \<Rightarrow> (w, tr)) = (w1, tr)"
    using dns_stop_trace [of D _ "(w, tr)"] by (cases "lj_dns j") (simp_all, metis prod.collapse snd_conv)
  obtain w2 tr2 where 2: "drop_option (resolv_resource (watch_sys S)) (lj_resolv j) (w1, tr) = (w2, tr2)" by fastforce
  obtain w3 tr3 where 3: "drop_option (nft_resource (watch_sys S)) (lj_nftables j) (w2, tr2) = (w3, tr3)" by fastforce
  obtain w4 tr4 where 4: "drop_option (veth_resource (watch_sys S)) (lj_veth j) (w3, tr3) = (w4, tr4)" by fastforce
  obtain w5 tr5 where 5: "drop_option (netns_resource (watch_sys S)) (lj_namespace j) (w4, tr4) = (w5, tr5)" by fastforce
  have "clears jid (if lj_resolv j = None then {} else {RDir}) tr tr2"
    using drop_resolv [of "lj_resolv j" jid tr S w1] 2 assms by (simp add: lj_inv_def)
  moreover have "clears jid (if lj_nftables j = None then {} else {RTable}) tr2 tr3"
    using drop_nft [of "lj_nftables j" jid tr2 S w2] 3 assms by (simp add: lj_inv_def)
  moreover have "clears jid (if lj_veth j = None then {} else {RVeth}) tr3 tr4"
    using drop_veth [of "lj_veth j" jid tr3 S w3] 4 assms by (simp add: lj_inv_def)
  moreover have "clears jid (if lj_namespace j = None then {} else {RNamespace}) tr4 tr5"
    using drop_netns [of "lj_namespace j" jid tr4 S w4] 5 assms by (simp add: lj_inv_def)
  ultimately have "clears jid (owns j) tr tr5" unfolding owns_def by (intro clears_trans)
  then show ?thesis by (simp add: linux_drop_def d 2 3 4 5)
qed

lemma drop_releases:
  assumes "lj_inv X jid j tr"
  shows "\<exists>es. snd (linux_drop (watch_sys S) (watch_dns D) j (w, tr)) = tr @ es \<and>
    held jid (tr @ es) \<subseteq> X \<union> refusals jid es"
proof -
  from drop_clears [OF assms, of S D w] obtain es where
    "snd (linux_drop (watch_sys S) (watch_dns D) j (w, tr)) = tr @ es"
    "held jid (tr @ es) \<subseteq> held jid tr - owns j \<union> refusals jid es"
    by (metis clears_held)
  moreover have "held jid tr \<subseteq> X \<union> owns j" using assms by (simp add: lj_inv_def owns_def Un_assoc)
  ultimately show ?thesis by blast
qed

text \<open>Commands that neither acquire nor release.\<close>

definition neutral :: "string \<Rightarrow> sys_event \<Rightarrow> bool" where
  "neutral jid e = (acquires jid e = {} \<and> deletes jid e = {})"

lemma neutral_commands:
  "neutral jid (Ran (ip_cmd (''link'' # ''set'' # args)) ok)"
  "neutral jid (Ran (ip_cmd (''addr'' # args)) ok)"
  "neutral jid (Ran (command ''sysctl'' args) ok)"
  "neutral jid (Ran (ip_cmd (''netns'' # ''exec'' # args)) ok)"
  by (simp_all add: neutral_def acquires_def deletes_def name_defs)

lemma held_neutral: "list_all (neutral jid) es \<Longrightarrow> held_from jid s es = s"
  by (induction es arbitrary: s) (simp_all add: neutral_def)

lemma lj_inv_neutral:
  "lj_inv X jid j tr \<Longrightarrow> list_all (neutral jid) es \<Longrightarrow> lj_inv X jid j (tr @ es)"
  by (simp add: lj_inv_def held_neutral)

text \<open>A step that only runs neutral commands.\<close>

definition neutral_step :: "string \<Rightarrow> sys_event list \<Rightarrow> 'a \<times> 'w \<times> sys_event list \<Rightarrow> bool" where
  "neutral_step jid tr r = (\<exists>es. snd (snd r) = tr @ es \<and> list_all (neutral jid) es)"

lemma neutral_step_refl [simp]: "neutral_step jid tr (x, w, tr)"
  by (auto simp: neutral_step_def intro!: exI [of _ "[]"])

lemma neutral_step_snoc: "neutral jid e \<Longrightarrow> neutral_step jid (tr @ [e]) r \<Longrightarrow> neutral_step jid tr r"
  by (auto simp: neutral_step_def)

lemma host_commands_neutral:
  "list_all (\<lambda>args. \<exists>rest. args = ''addr'' # rest \<or> args = ''link'' # ''set'' # rest) cmds \<Longrightarrow>
   neutral_step jid tr (run_host_commands (watch_sys S) cmds (w, tr))"
proof (induction cmds arbitrary: w tr)
  case Nil
  then show ?case by simp
next
  case (Cons args cmds)
  let ?e = "Ran (ip_cmd args) (case fst (run S (ip_cmd args) w) of Inr out \<Rightarrow> out_success out | Inl _ \<Rightarrow> False)"
  have n: "neutral jid ?e" using Cons.prems by (auto intro: neutral_commands)
  show ?case
    by (rule neutral_step_snoc [OF n]) (use Cons in \<open>simp add: watch_sys_ops split: sum.splits\<close>)
qed

lemma namespace_commands_neutral:
  "neutral_step jid tr (run_namespace_commands (watch_sys S) ns cmds (w, tr))"
proof (induction cmds arbitrary: w tr)
  case Nil
  then show ?case by simp
next
  case (Cons args cmds)
  let ?e = "Ran (in_namespace ns args)
    (case fst (run S (in_namespace ns args) w) of Inr out \<Rightarrow> out_success out | Inl _ \<Rightarrow> False)"
  have n: "neutral jid ?e" by (simp add: in_namespace_def neutral_commands)
  show ?case
    by (rule neutral_step_snoc [OF n]) (simp add: watch_sys_ops Cons.IH split: sum.splits)
qed

lemma configure_host_neutral:
  "neutral_step jid tr (configure_host_networking (watch_sys S) j (w, tr))"
proof -
  obtain r w1 tr1 where h: "run_host_commands (watch_sys S) (host_commands j) (w, tr) = (r, w1, tr1)"
    by (metis prod.exhaust)
  have "neutral_step jid tr (r, w1, tr1)"
    using host_commands_neutral [of "host_commands j" jid tr S w] h by (simp add: host_commands_def)
  then show ?thesis
    using neutral_commands(3)
    by (auto simp: configure_host_networking_def and_then_def h with_ctx_def err_context_def watch_sys_ops
        return_ok_def neutral_step_def split: sum.splits)
qed

lemma configure_namespace_neutral:
  "neutral_step jid tr (configure_namespace_networking (watch_sys S) j (w, tr))"
proof -
  obtain r w1 tr1 where h: "run_namespace_commands (watch_sys S) (namespace_name (lj_id j)) (namespace_commands j) (w, tr) = (r, w1, tr1)"
    by (metis prod.exhaust)
  have "neutral_step jid tr (r, w1, tr1)"
    using namespace_commands_neutral [of jid tr S "namespace_name (lj_id j)" "namespace_commands j" w] h by simp
  then show ?thesis
    using neutral_commands(4)
    by (auto simp: configure_namespace_networking_def and_then_def h watch_sys_ops in_namespace_def
        neutral_step_def split: sum.splits)
qed

text \<open>The steps that acquire, each from a jail that does not have the resource yet.\<close>

lemma acquire_netns:
  "acquires jid (Ran (ip_cmd [''netns'', ''add'', ''httpjail_'' @ jid]) ok) = (if ok then {RNamespace} else {})"
  "deletes jid (Ran (ip_cmd [''netns'', ''add'', ''httpjail_'' @ jid]) ok) = {}"
  by (simp_all add: acquires_def deletes_def name_defs)

lemma acquire_veth:
  "acquires jid (Ran (ip_cmd [''link'', ''add'', ''vh_'' @ jid, ''type'', ''veth'', ''peer'', ''name'', ''vn_'' @ jid]) ok) =
     (if ok then {RVeth} else {})"
  "deletes jid (Ran (ip_cmd [''link'', ''add'', ''vh_'' @ jid, ''type'', ''veth'', ''peer'', ''name'', ''vn_'' @ jid]) ok) = {}"
  by (simp_all add: acquires_def deletes_def name_defs)

lemma create_namespace_inv:
  assumes "lj_inv X jid j tr" and "owns j = {}"
    and "create_namespace (watch_sys S) j (w, tr) = (r, j', w', tr')"
  shows "lj_inv X jid j' tr' \<and> owns j' \<subseteq> {RNamespace} \<and>
    (is_ok r \<longrightarrow> held jid tr' = held jid tr \<union> {RNamespace})"
proof -
  let ?c = "ip_cmd [''netns'', ''add'', ''httpjail_'' @ jid]"
  have none: "lj_namespace j = None" "lj_id j = jid" using assms(1,2) by (auto simp: owns_def lj_inv_def split: if_splits)
  have h: "held jid tr \<subseteq> X" using assms(1,2) by (auto simp: lj_inv_def owns_def split: if_splits)
  obtain out w1 where o: "run S ?c w = (out, w1)" by fastforce
  have "r = Ok () \<and> j' = j\<lparr>lj_namespace := Some \<lparr>resource = Some \<lparr>ns_name = ''httpjail_'' @ jid, ns_created = True\<rparr>\<rparr>\<rparr> \<and>
        tr' = tr @ [Ran ?c True] \<or> \<not> is_ok r \<and> j' = j \<and> tr' = tr @ [Ran ?c False]"
    using assms(3) none o
    by (auto simp: create_namespace_def managed_create_def netns_resource_def netns_create_def and_then_def
        with_ctx_def err_context_def watch_sys_ops return_ok_def Let_def split: sum.splits if_splits)
  then show ?thesis
    using assms(1,2) h acquire_netns [of jid] by (auto simp: lj_inv_def owns_def split: if_splits)
qed

lemma setup_veth_inv:
  assumes "lj_inv X jid j tr" and "owns j \<subseteq> {RNamespace}"
    and "setup_veth_pair (watch_sys S) j (w, tr) = (r, j', w', tr')"
  shows "lj_inv X jid j' tr' \<and> owns j' \<subseteq> {RNamespace, RVeth} \<and>
    (is_ok r \<longrightarrow> held jid tr' = held jid tr \<union> {RVeth})"
proof -
  let ?c = "ip_cmd [''link'', ''add'', ''vh_'' @ jid, ''type'', ''veth'', ''peer'', ''name'', ''vn_'' @ jid]"
  let ?j = "j\<lparr>lj_veth := Some \<lparr>resource = Some \<lparr>veth_host_name = ''vh_'' @ jid, veth_ns_name = ''vn_'' @ jid,
    veth_created = True\<rparr>\<rparr>\<rparr>"
  let ?m = "ip_cmd [''link'', ''set'', veth_ns jid, ''netns'', namespace_name jid]"
  have none: "lj_veth j = None" "lj_id j = jid" using assms(1,2) by (auto simp: owns_def lj_inv_def split: if_splits)
  obtain out w1 where o: "run S ?c w = (out, w1)" by fastforce
  have "(\<exists>ok. j' = ?j \<and> tr' = tr @ [Ran ?c True] @ [Ran ?m ok]) \<or>
      \<not> is_ok r \<and> j' = j \<and> tr' = tr @ [Ran ?c False]"
    using assms(3) none o
    by (auto simp: setup_veth_pair_def managed_create_def veth_resource_def veth_create_def and_then_def
        with_ctx_def err_context_def watch_sys_ops return_ok_def Let_def split: sum.splits if_splits)
  moreover have "lj_inv X jid ?j (tr @ [Ran ?c True]) \<and> lj_inv X jid j (tr @ [Ran ?c False])"
    using assms(1) none acquire_veth [of jid] by (auto simp: lj_inv_def split: if_splits)
  moreover have m: "list_all (neutral jid) [Ran ?m ok]" for ok by (simp add: neutral_commands)
  moreover have "held jid (tr @ [Ran ?c True] @ [Ran ?m ok]) = held jid tr \<union> {RVeth}" for ok
    using neutral_commands(1) acquire_veth [of jid] by (simp add: neutral_def)
  ultimately show ?thesis
    using lj_inv_neutral [of X jid ?j "tr @ [Ran ?c True]"] assms(2)
    by (auto simp: owns_def split: if_splits)
qed

lemma acquire_dir:
  "acquires jid (MadeDir (''/etc/netns/httpjail_'' @ jid) ok) = (if ok then {RDir} else {})"
  "acquires jid (MadeDir ''/run/systemd/resolve'' ok) = {}"
  by (simp_all add: acquires_def)

lemma watch_dns_trace: "snd (snd (snd (dns_start (watch_dns D) a s (w, tr)))) = tr"
  by (simp add: dns_start_def and_then_def with_ctx_def watch_dns_def split: prod.splits sum.splits)

lemma create_resolv_trace:
  assumes "create_with_nameserver (watch_sys S) jid a (w, tr) = (r, w', tr')"
  shows "held jid tr' \<subseteq> held jid tr \<union> {RDir} \<and>
    (is_ok r \<longrightarrow> r = Ok \<lparr>netns_dir = ''/etc/netns/httpjail_'' @ jid, resolv_created = True\<rparr> \<and>
      held jid tr' = held jid tr \<union> {RDir})"
  using assms acquire_dir [of jid]
  by (auto simp: create_with_nameserver_def and_then_def with_ctx_def err_context_def watch_sys_ops Let_def
      split: sum.splits if_splits)

lemma start_dns_inv:
  assumes "lj_inv {} jid j tr" and "owns j \<subseteq> {RNamespace, RVeth}"
    and "start_dns_server (watch_sys S) (watch_dns D) j (w, tr) = (r, j', w', tr')"
  shows "lj_inv (if is_ok r then {} else {RDir}) jid j' tr' \<and> owns j' \<subseteq> {RNamespace, RVeth, RDir} \<and>
    (is_ok r \<longrightarrow> held jid tr' = held jid tr \<union> {RDir})"
proof -
  have none: "lj_resolv j = None" "lj_id j = jid" using assms(1,2) by (auto simp: owns_def lj_inv_def split: if_splits)
  obtain c w1 tr1 where c: "create_with_nameserver (watch_sys S) jid (format_ip (lj_host_ip j)) (w, tr) = (c, w1, tr1)"
    by (metis prod.exhaust)
  note h = create_resolv_trace [OF c]
  let ?j = "j\<lparr>lj_resolv := Some (from_resource \<lparr>netns_dir = ''/etc/netns/httpjail_'' @ jid, resolv_created = True\<rparr>)\<rparr>"
  have i: "lj_inv {} jid ?j tr1" "lj_inv {RDir} jid j tr1"
    using assms(1) none h by (auto simp: lj_inv_def from_resource_def split: if_splits)
  have m: "lj_inv {RDir} jid q t" if "lj_inv {} jid q t" for q t using that by (auto simp: lj_inv_def)
  have dns: "lj_inv X jid (q\<lparr>lj_dns := s\<rparr>) t \<longleftrightarrow> lj_inv X jid q t" for X q s t by (simp add: lj_inv_def)
  have stop: "snd (dns_stop (watch_dns D) s (w2, t)) = (w3, t') \<Longrightarrow> t' = t" for s w2 w3 t t'
    using dns_stop_trace [of D s "(w2, t)"] by simp
  show ?thesis
  proof (cases c)
    case (Inl e)
    then have "\<not> is_ok r \<and> j' = j \<and> tr' = tr1"
      using assms(3) none c by (auto simp: start_dns_server_def with_ctx_def err_context_def Let_def)
    with i assms(2) show ?thesis by auto
  next
    case (Inr rr)
    with h have rr: "rr = \<lparr>netns_dir = ''/etc/netns/httpjail_'' @ jid, resolv_created = True\<rparr>" by simp
    let ?d = "dns_start (watch_dns D) (format_ip (lj_host_ip j) @ '':53'') dns_new (w1, tr1)"
    obtain x server w2 t2 where d0: "?d = (x, server, w2, t2)" by (cases ?d) auto
    with watch_dns_trace [of D "format_ip (lj_host_ip j) @ '':53''" dns_new w1 tr1]
    have d: "?d = (x, server, w2, tr1)" by simp
    have e: "start_dns_server (watch_sys S) (watch_dns D) j (w, tr) =
        (case x of
           Inl err \<Rightarrow> (Err (''Failed to start host DNS server: '' @ err), ?j, snd (dns_stop (watch_dns D) server (w2, tr1)))
         | Inr _ \<Rightarrow> (Ok (), ?j\<lparr>lj_dns := Some server\<rparr>,
             case lj_dns j of Some old \<Rightarrow> snd (dns_stop (watch_dns D) old (w2, tr1)) | None \<Rightarrow> (w2, tr1)))"
      by (simp add: start_dns_server_def with_ctx_def err_context_def Let_def none c Inr rr d split: sum.splits)
    have "tr' = tr1 \<and> (j' = ?j \<and> \<not> is_ok r \<or> j' = ?j\<lparr>lj_dns := Some server\<rparr> \<and> is_ok r)"
    proof (cases x)
      case (Inl err)
      with assms(3) e show ?thesis by (auto dest: stop)
    next
      case (Inr u)
      with assms(3) e show ?thesis by (cases "lj_dns j") (auto dest: stop)
    qed
    moreover have "held jid tr1 = held jid tr \<union> {RDir}" using h Inr by simp
    ultimately show ?thesis using i(1) m [OF i(1)] assms(2) by (auto simp: dns owns_def split: if_splits)
  qed
qed

lemma acquire_table:
  "acquires jid (Piped ((command ''nft'' args)\<lparr>cmd_stdin := t\<rparr>) ok) = (if ok then {RTable} else {})"
  "neutral jid (Piped ((ip_cmd args)\<lparr>cmd_stdin := t\<rparr>) ok)"
  by (simp_all add: acquires_def neutral_def name_defs)

lemma new_host_table_trace:
  assumes "new_host_table (watch_sys S) jid subnet p q (w, tr) = (r, w', tr')"
  shows "(case r of
            Inl _ \<Rightarrow> held jid tr' = held jid tr
          | Inr t \<Rightarrow> t = \<lparr>table_name = ''httpjail_'' @ jid, table_namespace = None, table_created = True\<rparr> \<and>
                     held jid tr' = held jid tr \<union> {RTable})"
  using assms acquire_table(1)
  by (auto simp: new_host_table_def nft_apply_def and_then_def return_ok_def watch_sys_ops
      split: pipe_result.splits if_splits prod.splits)

lemma setup_host_nat_inv:
  assumes "lj_inv {} jid j tr" and "owns j \<subseteq> {RNamespace, RVeth, RDir}"
    and "setup_host_nat (watch_sys S) j (w, tr) = (r, j', w', tr')"
  shows "lj_inv {} jid j' tr' \<and> (is_ok r \<longrightarrow> held jid tr' = held jid tr \<union> {RTable})"
proof -
  have none: "lj_nftables j = None" "lj_id j = jid" using assms(1,2) by (auto simp: owns_def lj_inv_def split: if_splits)
  obtain t w1 tr1 where t: "new_host_table (watch_sys S) jid (lj_subnet_cidr j)
      (http_proxy_port (lj_config j)) (https_proxy_port (lj_config j)) (w, tr) = (t, w1, tr1)"
    by (metis prod.exhaust)
  note h = new_host_table_trace [OF t]
  have e: "tr' = tr1 \<and>
      (case t of Inl _ \<Rightarrow> \<not> is_ok r \<and> j' = j
       | Inr x \<Rightarrow> j' = j\<lparr>lj_nftables := Some \<lparr>resource = Some \<lparr>wrapper_jail = jid, wrapper_table = Some x\<rparr>\<rparr>\<rparr>)"
    using assms(3) none t
    by (auto simp: setup_host_nat_def managed_create_def nft_resource_def nft_wrapper_create_def and_then_def
        return_ok_def managed_drop_def nft_wrapper_cleanup_def split: sum.splits)
  show ?thesis
    using assms(1) none e h by (cases t) (auto simp: lj_inv_def)
qed

lemma namespace_nftables_neutral:
  "neutral_step jid tr (setup_namespace_nftables (watch_sys S) j (w, tr))"
  using acquire_table(2)
  by (auto simp: setup_namespace_nftables_def new_namespace_table_with_dns_def nft_apply_def and_then_def
      return_ok_def watch_sys_ops neutral_step_def split: pipe_result.splits prod.splits sum.splits)

section \<open>The setup as a whole\<close>

text \<open>
  A step meets its specification when it takes \<open>P\<close> to \<open>Q\<close> if it succeeds and to \<open>E\<close> if it fails; the
  first failing step of a sequence ends it.
\<close>

type_synonym jail_pred = "linux_jail \<Rightarrow> sys_event list \<Rightarrow> bool"

definition meets ::
  "jail_pred \<Rightarrow> (linux_jail, 'w \<times> sys_event list) jail_step \<Rightarrow> jail_pred \<Rightarrow> jail_pred \<Rightarrow> bool" where
  "meets P f Q E =
     (\<forall>j w tr r j' w' tr'. P j tr \<longrightarrow> f j (w, tr) = (r, j', w', tr') \<longrightarrow> (if is_ok r then Q j' tr' else E j' tr'))"

lemma meets_then: "meets P f R E \<Longrightarrow> meets R g Q E \<Longrightarrow> meets P (then_step f g) Q E"
  unfolding meets_def then_step_def by (fastforce split: prod.splits sum.splits)

lemma meets_weaken:
  "meets P f Q E \<Longrightarrow> (\<And>j tr. Q j tr \<Longrightarrow> Q' j tr) \<Longrightarrow> (\<And>j tr. E j tr \<Longrightarrow> E' j tr) \<Longrightarrow> meets P f Q' E'"
  unfolding meets_def by meson

lemma meets_keep:
  assumes "\<And>j w tr. neutral_step jid tr (f j (w, tr))"
    and "\<And>j tr es. P j tr \<Longrightarrow> list_all (neutral jid) es \<Longrightarrow> P j (tr @ es)" and "\<And>j tr. P j tr \<Longrightarrow> E j tr"
  shows "meets P (keep_jail f) P E"
  using assms unfolding meets_def keep_jail_def neutral_step_def
  by (clarsimp split: prod.splits) (metis (no_types, lifting) snd_conv)

text \<open>The specification of the steps: who owns what, and what the jail has acquired so far.\<close>

definition stage :: "res set \<Rightarrow> string \<Rightarrow> jail_pred" where
  "stage Y jid j tr = (lj_inv {} jid j tr \<and> owns j = Y \<and> held jid tr = Y)"

definition failed :: "string \<Rightarrow> jail_pred" where
  "failed jid j tr = lj_inv {RDir} jid j tr"

lemma stage_neutral: "stage Y jid j tr \<Longrightarrow> list_all (neutral jid) es \<Longrightarrow> stage Y jid j (tr @ es)"
  by (simp add: stage_def lj_inv_neutral held_neutral)

lemma stage_failed: "stage Y jid j tr \<Longrightarrow> failed jid j tr"
  by (auto simp: stage_def failed_def lj_inv_def)

lemma inv_failed: "lj_inv {} jid j tr \<Longrightarrow> failed jid j tr"
  by (auto simp: failed_def lj_inv_def)

lemma meets_neutral:
  assumes "\<And>j w tr. neutral_step jid tr (f j (w, tr))"
  shows "meets (stage Y jid) (keep_jail f) (stage Y jid) (failed jid)"
  by (rule meets_keep [where jid = jid]) (auto intro: assms stage_neutral stage_failed)

lemma held_owned: "lj_inv {} jid j tr \<Longrightarrow> held jid tr \<subseteq> owns j"
  by (simp add: lj_inv_def owns_def Un_assoc)

lemma create_namespace_meets:
  "meets (stage {} jid) (create_namespace (watch_sys S)) (stage {RNamespace} jid) (failed jid)"
  unfolding meets_def
proof (intro allI impI)
  fix j :: linux_jail and w tr r j' w' tr'
  assume "stage {} jid j tr" and "create_namespace (watch_sys S) j (w, tr) = (r, j', w', tr')"
  then show "if is_ok r then stage {RNamespace} jid j' tr' else failed jid j' tr'"
    using create_namespace_inv [of "{}" jid j tr S w r j' w' tr'] held_owned [of jid j' tr']
    by (auto simp: stage_def intro: inv_failed)
qed

lemma setup_veth_meets:
  "meets (stage {RNamespace} jid) (setup_veth_pair (watch_sys S)) (stage {RNamespace, RVeth} jid) (failed jid)"
  unfolding meets_def
proof (intro allI impI)
  fix j :: linux_jail and w tr r j' w' tr'
  assume "stage {RNamespace} jid j tr" and "setup_veth_pair (watch_sys S) j (w, tr) = (r, j', w', tr')"
  then show "if is_ok r then stage {RNamespace, RVeth} jid j' tr' else failed jid j' tr'"
    using setup_veth_inv [of "{}" jid j tr S w r j' w' tr'] held_owned [of jid j' tr']
    by (auto simp: stage_def intro: inv_failed)
qed

lemma start_dns_meets:
  "meets (stage {RNamespace, RVeth} jid) (start_dns_server (watch_sys S) (watch_dns D))
     (stage {RNamespace, RVeth, RDir} jid) (failed jid)"
  unfolding meets_def
proof (intro allI impI)
  fix j :: linux_jail and w tr r j' w' tr'
  assume "stage {RNamespace, RVeth} jid j tr"
    and "start_dns_server (watch_sys S) (watch_dns D) j (w, tr) = (r, j', w', tr')"
  then show "if is_ok r then stage {RNamespace, RVeth, RDir} jid j' tr' else failed jid j' tr'"
    using start_dns_inv [of jid j tr S D w r j' w' tr'] held_owned [of jid j' tr']
    by (auto simp: stage_def failed_def)
qed

lemma setup_host_nat_meets:
  "meets (stage {RNamespace, RVeth, RDir} jid) (setup_host_nat (watch_sys S))
     (stage {RNamespace, RVeth, RDir, RTable} jid) (failed jid)"
  unfolding meets_def
proof (intro allI impI)
  fix j :: linux_jail and w tr r j' w' tr'
  assume "stage {RNamespace, RVeth, RDir} jid j tr"
    and "setup_host_nat (watch_sys S) j (w, tr) = (r, j', w', tr')"
  moreover have "owns j' \<subseteq> {RNamespace, RVeth, RDir, RTable}" by (auto simp: owns_def)
  ultimately show "if is_ok r then stage {RNamespace, RVeth, RDir, RTable} jid j' tr' else failed jid j' tr'"
    using setup_host_nat_inv [of jid j tr S w r j' w' tr'] held_owned [of jid j' tr']
    by (auto simp: stage_def intro: inv_failed)
qed

lemma linux_setup_meets:
  "meets (stage {} jid) (linux_setup uid (watch_sys S) (watch_dns D) port)
     (stage {RNamespace, RVeth, RDir, RTable} jid) (failed jid)"
proof -
  have root: "neutral_step jid tr (check_root uid (w, tr))" for tr and w :: 'a by (simp add: check_root_def)
  show ?thesis
    unfolding linux_setup_def
    by (intro meets_then [OF meets_neutral] meets_then [OF create_namespace_meets]
        meets_then [OF setup_veth_meets] meets_then [OF start_dns_meets] meets_then [OF setup_host_nat_meets]
        meets_neutral root configure_host_neutral configure_namespace_neutral namespace_nftables_neutral)
qed

lemma linux_new_stage: "stage {} (jail_id config) (linux_new hash config) []"
  by (simp add: stage_def lj_inv_def owns_def linux_new_def split: prod.splits)

lemma linux_orphan_clears:
  "fst (linux_cleanup_orphaned (watch_sys S) jid (w, tr)) = Ok ()"
  "clears jid UNIV tr (snd (snd (linux_cleanup_orphaned (watch_sys S) jid (w, tr))))"
proof -
  define j :: linux_jail where
    "j = \<lparr>lj_config = \<lparr>http_proxy_port = 0, https_proxy_port = 0, jail_id = jid, enable_heartbeat = False,
             heartbeat_interval_secs = 0, orphan_timeout_secs = 0\<rparr>,
          lj_resolv = Some (managed_for_existing (resolv_resource (watch_sys S)) jid),
          lj_nftables = Some (managed_for_existing (nft_resource (watch_sys S)) jid),
          lj_veth = Some (managed_for_existing (veth_resource (watch_sys S)) jid),
          lj_namespace = Some (managed_for_existing (netns_resource (watch_sys S)) jid),
          lj_dns = None, lj_host_ip = (0, 0, 0, 0), lj_host_cidr = [], lj_guest_cidr = [], lj_subnet_cidr = []\<rparr>"
  have all: "owns j = UNIV" using res.exhaust by (auto simp: j_def owns_def)
  have "lj_inv UNIV jid j tr"
    by (auto simp: j_def lj_inv_def managed_for_existing_def resolv_resource_def resolv_for_existing_def
        nft_resource_def nft_wrapper_for_existing_def nft_for_existing_def veth_resource_def
        veth_for_existing_def netns_resource_def netns_for_existing_def)
  from drop_clears [OF this, of S undefined w] all
  have "clears jid UNIV tr (snd (linux_drop (watch_sys S) (watch_dns undefined) j (w, tr)))" by simp
  moreover have c: "linux_cleanup_orphaned (watch_sys S) jid (w, tr) =
      (Ok (), linux_drop (watch_sys S) (watch_dns undefined) j (w, tr))"
    by (simp add: linux_cleanup_orphaned_def linux_drop_def j_def drop_option_def Let_def)
  ultimately show "fst (linux_cleanup_orphaned (watch_sys S) jid (w, tr)) = Ok ()"
    "clears jid UNIV tr (snd (snd (linux_cleanup_orphaned (watch_sys S) jid (w, tr))))"
    by simp_all
qed

section \<open>Properties of the Linux jail\<close>

text \<open>
  (C7) Setting up a Linux jail and then dropping it asks the operating system to delete every network
  resource that the jail acquired, whichever step of the setup failed and whatever the operating system
  answered: what is still held after the drop is a resource whose deletion the operating system refused
  during the drop (so nothing is held if it refuses nothing), or, only after a setup that failed, the
  directory \<^verbatim>\<open>/etc/netns/httpjail_<id>\<close>. Before the drop, a successful setup holds all four resources.
\<close>

theorem setup_drop_releases:
  "case linux_setup uid (watch_sys S) (watch_dns D) port (linux_new hash config) (w, []) of
     (r, j, w', tr) \<Rightarrow>
       let jid = jail_id config
       in \<exists>es. snd (linux_drop (watch_sys S) (watch_dns D) j (w', tr)) = tr @ es \<and>
            (if is_ok r
             then held jid tr = {RNamespace, RVeth, RDir, RTable} \<and> held jid (tr @ es) \<subseteq> refusals jid es
             else held jid (tr @ es) \<subseteq> insert RDir (refusals jid es))"
proof -
  let ?jid = "jail_id config"
  obtain r j w' tr where s: "linux_setup uid (watch_sys S) (watch_dns D) port (linux_new hash config) (w, []) = (r, j, w', tr)"
    by (metis prod.exhaust)
  have m: "if is_ok r then stage {RNamespace, RVeth, RDir, RTable} ?jid j tr else failed ?jid j tr"
    using linux_setup_meets [of ?jid uid S D port] linux_new_stage [of config hash] s unfolding meets_def by blast
  show ?thesis
  proof (cases "is_ok r")
    case True
    with m drop_releases [of "{}" ?jid j tr S D w'] show ?thesis by (auto simp: s Let_def stage_def)
  next
    case False
    with m drop_releases [of "{RDir}" ?jid j tr S D w'] show ?thesis by (auto simp: s Let_def failed_def)
  qed
qed

lemma other_jail_neutral:
  assumes "jid \<noteq> other"
  shows "neutral jid (Ran (ip_cmd [''netns'', ''del'', ''httpjail_'' @ other]) ok)"
    "neutral jid (Ran (ip_cmd [''link'', ''del'', ''vh_'' @ other]) ok)"
    "neutral jid (Ran (command ''nft'' [''delete'', ''table'', ''ip'', ''httpjail_'' @ other]) ok)"
    "neutral jid (Ran (command ''umount'' args) ok)"
    "neutral jid (RemovedDir (''/etc/netns/httpjail_'' @ other) ok)"
  using assms by (simp_all add: neutral_def acquires_def deletes_def name_defs)

lemma held_snoc_neutral: "neutral jid e \<Longrightarrow> held jid (tr @ [e]) = held jid tr"
  by (simp add: neutral_def)

lemma other_jail_drops:
  assumes "jid \<noteq> other"
  shows "held jid (snd (managed_drop (resolv_resource (watch_sys S)) (managed_for_existing (resolv_resource (watch_sys S)) other) (w, tr))) = held jid tr"
    "held jid (snd (managed_drop (nft_resource (watch_sys S)) (managed_for_existing (nft_resource (watch_sys S)) other) (w, tr))) = held jid tr"
    "held jid (snd (managed_drop (veth_resource (watch_sys S)) (managed_for_existing (veth_resource (watch_sys S)) other) (w, tr))) = held jid tr"
    "held jid (snd (managed_drop (netns_resource (watch_sys S)) (managed_for_existing (netns_resource (watch_sys S)) other) (w, tr))) = held jid tr"
proof -
  note n = other_jail_neutral [OF assms, THEN held_snoc_neutral]
  obtain t w1 where t: "resolve_resolv_conf_target (watch_sys S) (w, tr) = (t, (w1, tr))"
    using resolve_target_trace [of S w tr] by (metis prod.collapse)
  have two: "held jid (tr @ [Ran (command ''umount'' args) ok, RemovedDir (''/etc/netns/httpjail_'' @ other) k]) = held jid tr" for args ok k
    using other_jail_neutral(4,5) [OF assms] by (simp add: neutral_def)
  show "held jid (snd (managed_drop (resolv_resource (watch_sys S)) (managed_for_existing (resolv_resource (watch_sys S)) other) (w, tr))) = held jid tr"
    using t n(5) two
    by (cases t) (simp_all del: held_append add: managed_drop_def managed_for_existing_def resolv_resource_def
        resolv_for_existing_def resolv_cleanup_def watch_sys_ops Let_def)
  show "held jid (snd (managed_drop (nft_resource (watch_sys S)) (managed_for_existing (nft_resource (watch_sys S)) other) (w, tr))) = held jid tr"
    using n(3) by (auto simp del: held_append simp: managed_drop_def managed_for_existing_def nft_resource_def
        nft_wrapper_for_existing_def nft_for_existing_def nft_wrapper_cleanup_def nft_drop_def nft_remove_def
        with_ctx_def err_context_def watch_sys_ops split: sum.splits)
  show "held jid (snd (managed_drop (veth_resource (watch_sys S)) (managed_for_existing (veth_resource (watch_sys S)) other) (w, tr))) = held jid tr"
    using n(2) by (simp del: held_append add: managed_drop_def managed_for_existing_def veth_resource_def
        veth_for_existing_def veth_cleanup_def watch_sys_ops)
  show "held jid (snd (managed_drop (netns_resource (watch_sys S)) (managed_for_existing (netns_resource (watch_sys S)) other) (w, tr))) = held jid tr"
    using n(1) by (auto simp del: held_append simp: managed_drop_def managed_for_existing_def netns_resource_def
        netns_for_existing_def netns_cleanup_def watch_sys_ops Let_def split: sum.splits)
qed

lemma cleanup_other_jail:
  assumes "jid \<noteq> other"
  shows "held jid (snd (snd (linux_cleanup_orphaned (watch_sys S) other (w, tr)))) = held jid tr"
proof -
  have drops:
    "held jid (snd (managed_drop (resolv_resource (watch_sys S)) (managed_for_existing (resolv_resource (watch_sys S)) other) st)) = held jid (snd st)"
    "held jid (snd (managed_drop (nft_resource (watch_sys S)) (managed_for_existing (nft_resource (watch_sys S)) other) st)) = held jid (snd st)"
    "held jid (snd (managed_drop (veth_resource (watch_sys S)) (managed_for_existing (veth_resource (watch_sys S)) other) st)) = held jid (snd st)"
    "held jid (snd (managed_drop (netns_resource (watch_sys S)) (managed_for_existing (netns_resource (watch_sys S)) other) st)) = held jid (snd st)"
    for st :: "'a \<times> sys_event list"
    using other_jail_drops [OF assms, of S "fst st" "snd st"] by simp_all
  show ?thesis by (simp add: linux_cleanup_orphaned_def Let_def drops)
qed

text \<open>What the jail is configured with does not change while it is set up.\<close>

definition configured :: "jail_config \<Rightarrow> ip4 \<Rightarrow> jail_pred" where
  "configured config ip j tr = (lj_config j = config \<and> lj_host_ip j = ip)"

lemma meets_configured_keep: "meets (configured config ip) (keep_jail f) (configured config ip) (\<lambda>_ _. True)"
  by (auto simp: meets_def keep_jail_def configured_def split: prod.splits)

lemma create_namespace_configured:
  "meets (configured config ip) (create_namespace (watch_sys S)) (configured config ip) (\<lambda>_ _. True)"
  by (auto simp: meets_def configured_def create_namespace_def split: prod.splits sum.splits)

lemma setup_veth_configured:
  "meets (configured config ip) (setup_veth_pair (watch_sys S)) (configured config ip) (\<lambda>_ _. True)"
  by (auto simp: meets_def configured_def setup_veth_pair_def Let_def split: prod.splits sum.splits if_splits)

lemma start_dns_configured:
  "meets (configured config ip) (start_dns_server (watch_sys S) (watch_dns D)) (configured config ip) (\<lambda>_ _. True)"
  by (auto simp: meets_def configured_def start_dns_server_def Let_def split: prod.splits sum.splits)

lemma setup_host_nat_configured:
  "meets (configured config ip) (setup_host_nat (watch_sys S)) (configured config ip) (\<lambda>_ _. True)"
  by (auto simp: meets_def configured_def setup_host_nat_def split: prod.splits sum.splits option.splits)

definition filter_command :: "jail_config \<Rightarrow> ip4 \<Rightarrow> sys_command" where
  "filter_command config ip =
     (in_namespace (namespace_name (jail_id config)) [''nft'', ''-f'', ''-''])
       \<lparr>cmd_stdin := Some (namespace_ruleset (format_ip ip) (http_proxy_port config) (https_proxy_port config))\<rparr>"

lemma namespace_nftables_installs:
  "meets (configured config ip) (keep_jail (setup_namespace_nftables (watch_sys S)))
     (\<lambda>j tr. configured config ip j tr \<and> tr \<noteq> [] \<and> last tr = Piped (filter_command config ip) True) (\<lambda>_ _. True)"
  by (auto simp: meets_def keep_jail_def configured_def setup_namespace_nftables_def new_namespace_table_with_dns_def
      nft_apply_def and_then_def return_ok_def watch_sys_ops filter_command_def in_namespace_def
      split: pipe_result.splits prod.splits sum.splits if_splits)

lemma linux_setup_installs:
  "meets (configured config ip) (linux_setup uid (watch_sys S) (watch_dns D) port)
     (\<lambda>j tr. configured config ip j tr \<and> tr \<noteq> [] \<and> last tr = Piped (filter_command config ip) True) (\<lambda>_ _. True)"
  unfolding linux_setup_def
  by (intro meets_then [OF meets_configured_keep] meets_then [OF create_namespace_configured]
      meets_then [OF setup_veth_configured] meets_then [OF start_dns_configured]
      meets_then [OF setup_host_nat_configured] namespace_nftables_installs)

text \<open>
  (C8) A setup that reports success was run as root and has loaded the namespace's rule set, the one
  \<open>egress_confined\<close> and \<open>http_redirected\<close> are about, for the configured proxy ports and the jail's own
  gateway address, as its last action; so no command is ever executed in a jail without its filter.
\<close>

theorem setup_installs_filter:
  assumes "linux_setup uid (watch_sys S) (watch_dns D) port (linux_new hash config) (w, []) = (Ok (), j, w', tr)"
  shows "uid = 0 \<and>
    last tr = Piped (filter_command config (fst (compute_subnet_for_jail hash (jail_id config)))) True \<and>
    lj_config j = config"
proof -
  let ?ip = "fst (compute_subnet_for_jail hash (jail_id config))"
  have "configured config ?ip (linux_new hash config) []"
    by (simp add: configured_def linux_new_def split: prod.splits)
  with linux_setup_installs [of config ?ip uid S D port] assms
  have "configured config ?ip j tr \<and> last tr = Piped (filter_command config ?ip) True"
    unfolding meets_def by (metis (no_types, lifting) is_ok_simps(1))
  moreover have "uid = 0"
    using assms by (auto simp: linux_setup_def then_step_def keep_jail_def check_root_def split: if_splits)
  ultimately show ?thesis by (simp add: configured_def)
qed

definition sample_sys :: "unit sys_ops" where
  "sample_sys =
     \<lparr>run = (\<lambda>_ w. (Ok \<lparr>out_success = True, out_stdout = [], out_stderr = []\<rparr>, w)),
      pipe = (\<lambda>_ w. (Finished \<lparr>out_success = True, out_stdout = [], out_stderr = []\<rparr>, w)),
      run_status = (\<lambda>_ w. (Ok (ExitCode 0), w)), create_dir_all = (\<lambda>_ w. (Ok (), w)),
      write_new = (\<lambda>_ _ w. (Ok (), w)), create_new = (\<lambda>_ w. (Ok (), w)), remove_dir_all = (\<lambda>_ w. (Removed, w)),
      read_link = (\<lambda>_ w. (Err ''invalid argument'', w)), canonicalize = (\<lambda>p w. (Ok p, w))\<rparr>"

definition sample_dns :: "unit dns_ops" where
  "sample_dns =
     \<lparr>udp_bind = (\<lambda>_ w. (Ok (), w)), set_read_timeout = (\<lambda>_ w. (Ok (), w)), try_clone = (\<lambda>w. (Ok (), w)),
      spawn_server = (\<lambda>w. w), join_server = (\<lambda>w. w)\<rparr>"

definition sample_config :: jail_config where
  "sample_config =
     \<lparr>http_proxy_port = 8080, https_proxy_port = 8443, jail_id = ''abc'', enable_heartbeat = True,
      heartbeat_interval_secs = 1, orphan_timeout_secs = 10\<rparr>"

lemma sample_setup_succeeds:
  "is_ok (fst (linux_setup 0 (watch_sys sample_sys) (watch_dns sample_dns) port (linux_new hash config) (w, tr)))"
  by (simp add: linux_setup_def then_step_def keep_jail_def check_root_def create_namespace_def setup_veth_pair_def
      configure_host_networking_def host_commands_def configure_namespace_networking_def namespace_commands_def
      start_dns_server_def setup_host_nat_def setup_namespace_nftables_def new_host_table_def
      new_namespace_table_with_dns_def nft_apply_def managed_create_def netns_resource_def netns_create_def
      veth_resource_def veth_create_def nft_resource_def nft_wrapper_create_def create_with_nameserver_def
      dns_start_def and_then_def with_ctx_def err_context_def return_ok_def watch_sys_ops watch_dns_def
      sample_sys_def sample_dns_def linux_new_def Let_def split_beta)

theorem setup_installs_filter_witness:
  "let r = linux_setup 0 (watch_sys sample_sys) (watch_dns sample_dns) 8080 (linux_new (\<lambda>_. 7) sample_config) ((), [])
   in fst r = Ok () \<and>
      last (snd (snd (snd r))) = Piped (filter_command sample_config (fst (compute_subnet_for_jail (\<lambda>_. 7) ''abc''))) True"
proof -
  obtain r j w' tr where s: "linux_setup 0 (watch_sys sample_sys) (watch_dns sample_dns) 8080
      (linux_new (\<lambda>_. 7) sample_config) ((), []) = (r, j, w', tr)"
    by (metis prod.exhaust)
  with sample_setup_succeeds [of 8080 "\<lambda>_. 7" sample_config "()" "[]"] have "r = Ok ()" by (cases r) simp_all
  with setup_installs_filter [of 0 sample_sys sample_dns 8080 "\<lambda>_. 7" sample_config "()" j w' tr] s
  show ?thesis by (simp add: sample_config_def)
qed



text \<open>
  The cleanup of a jail by its identifier reports success even when the operating system refuses every deletion
  and the namespace is still there.
\<close>

lemma orphan_cleanup_swallows_failure:
  defines "S \<equiv> sample_sys\<lparr>run := (\<lambda>_ w. (Ok \<lparr>out_success = False, out_stdout = [], out_stderr = ''busy''\<rparr>, w))\<rparr>"
  shows "case linux_cleanup_orphaned (watch_sys S) ''abc'' ((), [Ran (ip_cmd [''netns'', ''add'', namespace_name ''abc'']) True]) of
     (r, w, tr) \<Rightarrow> r = Ok () \<and> held ''abc'' tr = {RNamespace}"
  by (simp add: linux_cleanup_orphaned_def S_def sample_sys_def watch_sys_ops managed_drop_def managed_for_existing_def
      resolv_resource_def resolv_for_existing_def resolv_cleanup_def resolve_resolv_conf_target_def nft_resource_def
      nft_wrapper_for_existing_def nft_for_existing_def nft_wrapper_cleanup_def nft_drop_def nft_remove_def
      veth_resource_def veth_for_existing_def veth_cleanup_def netns_resource_def netns_for_existing_def
      netns_cleanup_def with_ctx_def err_context_def Let_def held_def acquires_def releases_def deletes_def name_defs)

end
