(* ===== verification/Docker.thy ===== *)
theory Docker
  imports Linux_Jail
begin

text \<open>
  \<^verbatim>\<open>src/src/jail/linux/docker.rs\<close>: containers run in an isolated Docker network whose web traffic is
  redirected to the proxy of a Linux jail. The theory has the Docker network and the routing table as
  system resources, the rewriting of the user's \<^verbatim>\<open>docker run\<close> arguments, the setup and the cleanup.
\<close>

section \<open>Resources\<close>

definition network_name_from_jail_id :: "string \<Rightarrow> string" where
  "network_name_from_jail_id jid = ''httpjail_'' @ jid"

definition jail_id_from_network_name :: "string \<Rightarrow> string option" where
  "jail_id_from_network_name name = strip_prefix ''httpjail_'' name"

definition is_not_found_error :: "string \<Rightarrow> bool" where
  "is_not_found_error stderr =
     (str_contains ''not found'' stderr \<or> str_contains ''No such'' stderr \<or> str_contains ''does not exist'' stderr)"

definition is_already_exists_error :: "string \<Rightarrow> bool" where
  "is_already_exists_error stderr = str_contains ''already exists'' stderr"

definition table_name_from_jail_id :: "string \<Rightarrow> string" where
  "table_name_from_jail_id jid = ''httpjail_docker_'' @ jid"

record docker_routing =
  routing_jail :: string
  routing_table :: string

record docker_network =
  network_name :: string

definition routing_create :: "string \<Rightarrow> ('w, docker_routing) fallible" where
  "routing_create jid w = (Ok \<lparr>routing_jail = jid, routing_table = table_name_from_jail_id jid\<rparr>, w)"

definition routing_cleanup ::
  "'w sys_ops \<Rightarrow> docker_routing \<Rightarrow> 'w \<Rightarrow> unit result \<times> docker_routing \<times> 'w" where
  \<comment> \<open>a failing exit status is only logged\<close>
  "routing_cleanup S self w =
     (case with_ctx ''Failed to delete Docker routing table''
             (run S (command ''nft'' [''delete'', ''table'', ''ip'', routing_table self])) w of
        (Inl e, w) \<Rightarrow> (Err e, self, w)
      | (Inr _, w) \<Rightarrow> (Ok (), self, w))"

definition routing_for_existing :: "string \<Rightarrow> docker_routing" where
  "routing_for_existing jid = \<lparr>routing_jail = jid, routing_table = table_name_from_jail_id jid\<rparr>"

definition routing_resource :: "'w sys_ops \<Rightarrow> (docker_routing, 'w) resource_ops" where
  "routing_resource S =
     \<lparr>res_create = routing_create, res_cleanup = routing_cleanup S, res_for_existing = routing_for_existing\<rparr>"

definition compute_docker_subnet :: "(string \<Rightarrow> u64) \<Rightarrow> string \<Rightarrow> string" where
  "compute_docker_subnet hash jid =
     (let third_octet = max (ucast (hash jid mod 256)) 1 :: 8 word
      in ''172.20.'' @ dec (unat third_octet) @ ''.0/24'')"

definition network_create_command :: "(string \<Rightarrow> u64) \<Rightarrow> string \<Rightarrow> sys_command" where
  "network_create_command hash jid =
     command ''docker''
       [''network'', ''create'', ''--driver'', ''bridge'', ''--subnet'', compute_docker_subnet hash jid,
        ''--opt'', ''com.docker.network.bridge.enable_ip_masquerade=false'', network_name_from_jail_id jid]"

definition docker_network_create ::
  "(string \<Rightarrow> u64) \<Rightarrow> 'w sys_ops \<Rightarrow> string \<Rightarrow> ('w, docker_network) fallible" where
  "docker_network_create hash S jid =
     and_then (with_ctx ''Failed to create Docker network'' (run S (network_create_command hash jid)))
       (\<lambda>out w. if \<not> out_success out \<and> \<not> is_already_exists_error (from_utf8_lossy (out_stderr out))
                then (Err (''Failed to create Docker network: '' @ from_utf8_lossy (out_stderr out)), w)
                else (Ok \<lparr>network_name = network_name_from_jail_id jid\<rparr>, w))"

definition docker_network_cleanup ::
  "'w sys_ops \<Rightarrow> docker_network \<Rightarrow> 'w \<Rightarrow> unit result \<times> docker_network \<times> 'w" where
  "docker_network_cleanup S self w =
     (case with_ctx ''Failed to remove Docker network''
             (run S (command ''docker'' [''network'', ''rm'', network_name self])) w of
        (Inl e, w) \<Rightarrow> (Err e, self, w)
      | (Inr _, w) \<Rightarrow> (Ok (), self, w))"

definition docker_network_for_existing :: "string \<Rightarrow> docker_network" where
  "docker_network_for_existing jid = \<lparr>network_name = network_name_from_jail_id jid\<rparr>"

definition network_resource :: "(string \<Rightarrow> u64) \<Rightarrow> 'w sys_ops \<Rightarrow> (docker_network, 'w) resource_ops" where
  "network_resource hash S =
     \<lparr>res_create = docker_network_create hash S, res_cleanup = docker_network_cleanup S,
      res_for_existing = docker_network_for_existing\<rparr>"

definition get_bridge_name :: "'w sys_ops \<Rightarrow> docker_network \<Rightarrow> ('w, string) fallible" where
  "get_bridge_name S self =
     and_then (with_ctx ''Failed to inspect Docker network''
         (run S (command ''docker'' [''network'', ''inspect'', network_name self, ''-f'', ''{{.Id}}''])))
       (\<lambda>out w. if \<not> out_success out then (Err ''Failed to get Docker network ID'', w)
                else (Ok (''br-'' @ concat (take 12 (chars (trim (from_utf8_lossy (out_stdout out)))))), w))"

section \<open>Rewriting the arguments\<close>

definition FLAGS_WITH_VALUES :: "string list" where
  "FLAGS_WITH_VALUES = [''-e'', ''-v'', ''-p'', ''--name'', ''--entrypoint'', ''-w'', ''--user'']"

fun find_image_from :: "nat \<Rightarrow> bool \<Rightarrow> string list \<Rightarrow> nat option" where
  "find_image_from i skip_next [] = None"
| "find_image_from i skip_next (arg # args) =
     (if skip_next then find_image_from (i + 1) False args
      else if arg \<in> set FLAGS_WITH_VALUES then find_image_from (i + 1) True args
      else if \<not> starts_with arg ''-'' then Some i
      else find_image_from (i + 1) False args)"

definition find_image_index :: "string list \<Rightarrow> nat option" where
  "find_image_index args = find_image_from 0 False args"

fun filter_network_args :: "string list \<Rightarrow> string list" where
  "filter_network_args [] = []"
| "filter_network_args (arg # args) =
     (if arg = ''--network'' then filter_network_args (drop 1 args)
      else if starts_with arg ''--network='' then filter_network_args args
      else arg # filter_network_args args)"

fun ca_cert_path :: "(string \<times> string) list \<Rightarrow> string option" where
  "ca_cert_path [] = None"
| "ca_cert_path ((key, value) # env) = (if key = ''SSL_CERT_FILE'' then Some value else ca_cert_path env)"

definition read_only_mount :: "string \<Rightarrow> string list" where
  "read_only_mount p = [''-v'', p @ '':'' @ p @ '':ro'']"

definition build_docker_command ::
  "(string \<Rightarrow> bool) \<Rightarrow> string \<Rightarrow> string list \<Rightarrow> (string \<times> string) list \<Rightarrow> sys_command result" where
  \<comment> \<open>the first argument tells which paths exist\<close>
  "build_docker_command exists jid docker_args extra_env =
     (let modified_args = filter_network_args docker_args
      in case find_image_index modified_args of
           None \<Rightarrow> Err ''Could not find Docker image in arguments''
         | Some image_idx \<Rightarrow>
             Ok (command ''docker''
               ([''run'', ''--network'', network_name_from_jail_id jid] @
                concat (map (\<lambda>(key, value). [''-e'', key @ ''='' @ value]) extra_env) @
                (case ca_cert_path extra_env of
                   None \<Rightarrow> []
                 | Some cert_path \<Rightarrow>
                     read_only_mount cert_path @
                     (case path_parent cert_path of
                        Some parent \<Rightarrow> (if exists parent then read_only_mount parent else [])
                      | None \<Rightarrow> [])) @
                take image_idx modified_args @ [modified_args ! image_idx] @
                (if length modified_args > image_idx + 1 then drop (image_idx + 1) modified_args else []))))"

section \<open>The jail\<close>

record docker_jail =
  dk_inner :: linux_jail
  dk_config :: jail_config
  dk_network :: "docker_network managed option"
  dk_routing :: "docker_routing managed option"

definition docker_new :: "(string \<Rightarrow> u64) \<Rightarrow> jail_config \<Rightarrow> docker_jail" where
  "docker_new hash config =
     \<lparr>dk_inner = linux_new hash config, dk_config = config, dk_network = None, dk_routing = None\<rparr>"

fun remove_orphaned_networks ::
  "'w sys_ops \<Rightarrow> (string \<Rightarrow> 'w \<Rightarrow> bool) \<Rightarrow> string \<Rightarrow> string list \<Rightarrow> ('w, unit) fallible" where
  "remove_orphaned_networks S exists canary_dir [] w = (Ok (), w)"
| "remove_orphaned_networks S exists canary_dir (name # names) w =
     (case jail_id_from_network_name name of
        None \<Rightarrow> remove_orphaned_networks S exists canary_dir names w
      | Some jid \<Rightarrow>
          (if \<not> exists (path_join canary_dir jid) w then
             (case with_ctx ''Failed to remove orphaned Docker network''
                     (run S (command ''docker'' [''network'', ''rm'', name])) w of
                (Inl e, w) \<Rightarrow> (Err e, w)
              | (Inr _, w) \<Rightarrow> remove_orphaned_networks S exists canary_dir names w)
           else remove_orphaned_networks S exists canary_dir names w))"

definition cleanup_all_orphaned_docker_networks ::
  "'w sys_ops \<Rightarrow> (string \<Rightarrow> 'w \<Rightarrow> bool) \<Rightarrow> string \<Rightarrow> ('w, unit) fallible" where
  "cleanup_all_orphaned_docker_networks S exists canary_dir =
     and_then (with_ctx ''Failed to list Docker networks''
         (run S (command ''docker'' [''network'', ''ls'', ''--format'', ''{{.Name}}''])))
       (\<lambda>out w. if \<not> out_success out then (Ok (), w)
                else remove_orphaned_networks S exists canary_dir
                       (str_lines [] (from_utf8_lossy (out_stdout out))) w)"

definition docker_rules :: "jail_config \<Rightarrow> string \<Rightarrow> string \<Rightarrow> string" where
  "docker_rules config bridge host_ip =
     (let q = [CHR 0x22]; indent = replicate 20 (CHR '' ''); jid = jail_id config
      in ''table ip '' @ table_name_from_jail_id jid @ '' {'' @ newline @
         indent @ ''chain prerouting {'' @ newline @
         indent @ ''    type nat hook prerouting priority -100;'' @ newline @
         indent @ ''    iifname '' @ q @ bridge @ q @ '' tcp dport 80 dnat to '' @ host_ip @ '':'' @
           dec (unat (http_proxy_port config)) @ '';'' @ newline @
         indent @ ''    iifname '' @ q @ bridge @ q @ '' tcp dport 443 dnat to '' @ host_ip @ '':'' @
           dec (unat (https_proxy_port config)) @ '';'' @ newline @
         indent @ ''}'' @ newline @
         indent @ newline @
         indent @ ''chain forward {'' @ newline @
         indent @ ''    type filter hook forward priority 0;'' @ newline @
         indent @ ''    iifname '' @ q @ bridge @ q @ '' oifname '' @ q @ ''vh_'' @ jid @ q @ '' accept;'' @ newline @
         indent @ ''    iifname '' @ q @ ''vh_'' @ jid @ q @ '' oifname '' @ q @ bridge @ q @
           '' ct state established,related accept;'' @ newline @
         indent @ ''}'' @ newline @
         replicate 16 (CHR '' '') @ ''}'')"

definition docker_nft_command :: "jail_config \<Rightarrow> string \<Rightarrow> string \<Rightarrow> sys_command" where
  "docker_nft_command config bridge host_ip =
     (command ''nft'' [''-f'', ''-''])\<lparr>cmd_stdin := Some (docker_rules config bridge host_ip)\<rparr>"

definition apply_docker_rules :: "'w sys_ops \<Rightarrow> sys_command \<Rightarrow> ('w, unit) fallible" where
  "apply_docker_rules S c w =
     (case pipe S c w of
        (SpawnFailed e, w) \<Rightarrow> (Err (''Failed to spawn nft command: '' @ e), w)
      | (WriteFailed e, w) \<Rightarrow> (Err (''Failed to write nftables rules: '' @ e), w)
      | (WaitFailed e, w) \<Rightarrow> (Err (''Failed to wait for nft command: '' @ e), w)
      | (Finished out, w) \<Rightarrow>
          (if out_success out then (Ok (), w)
           else (Err ''Failed to apply nftables rules for Docker routing'', w)))"

definition setup_docker_routing :: "(string \<Rightarrow> u64) \<Rightarrow> 'w sys_ops \<Rightarrow> (docker_jail, 'w) jail_step" where
  "setup_docker_routing hash S j w =
     (case dk_network j of
        None \<Rightarrow> (Err ''Docker network not created'', j, w)
      | Some m \<Rightarrow>
          (case resource m of
             None \<Rightarrow> (Ok (), j, w)
           | Some network \<Rightarrow>
               (case and_then (get_bridge_name S network) (\<lambda>bridge.
                     and_then (apply_docker_rules S (docker_nft_command (dk_config j) bridge
                         (format_ip (compute_host_ip_for_jail_id hash (jail_id (dk_config j)))))) (\<lambda>_.
                       managed_create (routing_resource S) (jail_id (dk_config j)))) w of
                  (Inl e, w) \<Rightarrow> (Err e, j, w)
                | (Inr table, w) \<Rightarrow>
                    (Ok (), j\<lparr>dk_routing := Some table\<rparr>, drop_option (routing_resource S) (dk_routing j) w))))"

definition docker_inner_setup ::
  "nat \<Rightarrow> 'w sys_ops \<Rightarrow> 'w dns_ops \<Rightarrow> u16 \<Rightarrow> (docker_jail, 'w) jail_step" where
  "docker_inner_setup uid S D port j w =
     (case linux_setup uid S D port (dk_inner j) w of (r, inner_jail, w) \<Rightarrow> (r, j\<lparr>dk_inner := inner_jail\<rparr>, w))"

definition create_docker_network :: "(string \<Rightarrow> u64) \<Rightarrow> 'w sys_ops \<Rightarrow> (docker_jail, 'w) jail_step" where
  "create_docker_network hash S j w =
     (case managed_create (network_resource hash S) (jail_id (dk_config j)) w of
        (Inl e, w) \<Rightarrow> (Err e, j, w)
      | (Inr m, w) \<Rightarrow>
          (Ok (), j\<lparr>dk_network := Some m\<rparr>, drop_option (network_resource hash S) (dk_network j) w))"

definition docker_setup ::
  "(string \<Rightarrow> u64) \<Rightarrow> nat \<Rightarrow> 'w sys_ops \<Rightarrow> 'w dns_ops \<Rightarrow> (string \<Rightarrow> 'w \<Rightarrow> bool) \<Rightarrow> string \<Rightarrow> u16 \<Rightarrow>
     (docker_jail, 'w) jail_step" where
  "docker_setup hash uid S D exists canary_dir port =
     then_step (keep_jail (\<lambda>_. cleanup_all_orphaned_docker_networks S exists canary_dir))
     (then_step (docker_inner_setup uid S D port)
     (then_step (create_docker_network hash S)
                (setup_docker_routing hash S)))"

definition docker_execute ::
  "'w sys_ops \<Rightarrow> (string \<Rightarrow> 'w \<Rightarrow> bool) \<Rightarrow> docker_jail \<Rightarrow> string list \<Rightarrow> (string \<times> string) list \<Rightarrow>
     ('w, exit_status) fallible" where
  "docker_execute S exists j cmd extra_env w =
     (case build_docker_command (\<lambda>p. exists p w) (jail_id (dk_config j)) cmd extra_env of
        Inl e \<Rightarrow> (Err e, w)
      | Inr c \<Rightarrow> with_ctx ''Failed to execute docker run command'' (run_status S c) w)"

definition docker_cleanup :: "'w sys_ops \<Rightarrow> docker_jail \<Rightarrow> ('w, unit) fallible" where
  "docker_cleanup S j = linux_cleanup S (dk_inner j)"

definition docker_cleanup_orphaned :: "(string \<Rightarrow> u64) \<Rightarrow> 'w sys_ops \<Rightarrow> string \<Rightarrow> ('w, unit) fallible" where
  \<comment> \<open>the two handles live until the end of the function and are dropped in reverse order\<close>
  "docker_cleanup_orphaned hash S jid w =
     (case linux_cleanup_orphaned S jid w of (r, w) \<Rightarrow>
        let w = managed_drop (routing_resource S) (managed_for_existing (routing_resource S) jid) w;
            w = managed_drop (network_resource hash S) (managed_for_existing (network_resource hash S) jid) w
        in (r, w))"

definition docker_drop :: "(string \<Rightarrow> u64) \<Rightarrow> 'w sys_ops \<Rightarrow> 'w dns_ops \<Rightarrow> docker_jail \<Rightarrow> 'w \<Rightarrow> 'w" where
  "docker_drop hash S D j w =
     drop_option (routing_resource S) (dk_routing j)
       (drop_option (network_resource hash S) (dk_network j) (linux_drop S D (dk_inner j) w))"

definition docker_clone :: "docker_jail \<Rightarrow> docker_jail" where
  "docker_clone j = j\<lparr>dk_inner := linux_clone (dk_inner j), dk_network := None, dk_routing := None\<rparr>"

definition docker_jail_ops ::
  "(string \<Rightarrow> u64) \<Rightarrow> nat \<Rightarrow> 'w sys_ops \<Rightarrow> 'w dns_ops \<Rightarrow> (string \<Rightarrow> 'w \<Rightarrow> bool) \<Rightarrow> string \<Rightarrow>
     (docker_jail, 'w) jail_ops" where
  "docker_jail_ops hash uid S D exists canary_dir =
     \<lparr>jail_setup = docker_setup hash uid S D exists canary_dir, jail_execute = docker_execute S exists,
      jail_cleanup = docker_cleanup S, jail_ident = (\<lambda>j. lj_id (dk_inner j)),
      jail_cleanup_orphaned = docker_cleanup_orphaned hash S, jail_drop = docker_drop hash S D\<rparr>"

section \<open>Lemmas on the arguments\<close>

definition is_network_flag :: "string \<Rightarrow> bool" where
  "is_network_flag arg = (arg = ''--network'' \<or> starts_with arg ''--network='')"

lemma filter_network_args_clean: "list_all (\<lambda>arg. \<not> is_network_flag arg) (filter_network_args args)"
  by (induction args rule: filter_network_args.induct) (auto simp: is_network_flag_def)

lemma filter_network_args_id:
  "list_all (\<lambda>arg. \<not> is_network_flag arg) args \<Longrightarrow> filter_network_args args = args"
  by (induction args) (auto simp: is_network_flag_def)

lemma filter_network_args_subseq: "subseq (filter_network_args args) args"
proof (induction args rule: filter_network_args.induct)
  case (2 arg args)
  have "subseq (drop 1 args) (arg # args)" by (metis drop_Suc_Cons suffix_drop suffix_imp_subseq)
  then show ?case using "2.IH" by (auto intro: subseq_order.trans list_emb_Cons)
qed simp

lemma find_image_from_bound:
  "find_image_from i skip args = Some k \<Longrightarrow>
     i \<le> k \<and> k < i + length args \<and> \<not> starts_with (args ! (k - i)) ''-''"
proof (induction i skip args rule: find_image_from.induct)
  case (2 i skip arg args)
  show ?case
  proof (cases "\<not> skip \<and> arg \<notin> set FLAGS_WITH_VALUES \<and> \<not> starts_with arg ''-''")
    case True
    with "2.prems" show ?thesis by simp
  next
    case False
    then have "i + 1 \<le> k \<and> k < i + 1 + length args \<and> \<not> starts_with (args ! (k - (i + 1))) ''-''"
      using "2.IH" "2.prems"
      by (cases skip; cases "arg \<in> set FLAGS_WITH_VALUES"; cases "starts_with arg ''-''") simp_all
    then show ?thesis by (auto simp: nth_Cons')
  qed
qed simp

lemma find_image_index_Some:
  assumes "find_image_index args = Some k"
  shows "k < length args \<and> \<not> starts_with (args ! k) ''-'' \<and>
    take k args @ [args ! k] @ (if length args > k + 1 then drop (k + 1) args else []) = args"
proof -
  have k: "k < length args" "\<not> starts_with (args ! k) ''-''"
    using find_image_from_bound [of 0 False args k] assms by (auto simp: find_image_index_def)
  moreover have "(if length args > k + 1 then drop (k + 1) args else []) = drop (k + 1) args" by simp
  ultimately show ?thesis using id_take_nth_drop [of k args] by simp
qed

section \<open>Properties of the arguments\<close>



text \<open>
  The abbreviation \<^verbatim>\<open>--net\<close> of the same option is not recognised, and an argument of the program inside
  the container that happens to be spelled \<^verbatim>\<open>--network\<close> is dropped together with the next one.
\<close>

lemma network_filter_gaps:
  "build_docker_command exists jid [''--net=host'', ''alpine''] [] =
     Ok (command ''docker'' [''run'', ''--network'', network_name_from_jail_id jid, ''--net=host'', ''alpine''])"
  "build_docker_command exists jid [''alpine'', ''tool'', ''--network'', ''name''] [] =
     Ok (command ''docker'' [''run'', ''--network'', network_name_from_jail_id jid, ''alpine'', ''tool''])"
  by (simp_all add: build_docker_command_def find_image_index_def starts_with_def FLAGS_WITH_VALUES_def)

section \<open>Orphaned networks\<close>

definition orphaned :: "(string \<Rightarrow> bool) \<Rightarrow> string \<Rightarrow> string \<Rightarrow> bool" where
  "orphaned exists canary_dir name =
     (case jail_id_from_network_name name of Some jid \<Rightarrow> \<not> exists (path_join canary_dir jid) | None \<Rightarrow> False)"

fun event_command :: "sys_event \<Rightarrow> sys_command option" where
  "event_command (Ran c _) = Some c"
| "event_command (Piped c _) = Some c"
| "event_command _ = None"

abbreviation docker_rm :: "string \<Rightarrow> sys_command" where
  "docker_rm name \<equiv> command ''docker'' [''network'', ''rm'', name]"

lemma remove_orphaned_networks_events:
  assumes "remove_orphaned_networks (watch_sys S) (\<lambda>p _. exists p) dir names (w, tr) = (r, w', tr')"
  shows "\<exists>es. tr' = tr @ es \<and>
    prefix (map event_command es) (map (\<lambda>n. Some (docker_rm n)) (filter (orphaned exists dir) names)) \<and>
    (is_ok r \<longrightarrow> map event_command es = map (\<lambda>n. Some (docker_rm n)) (filter (orphaned exists dir) names))"
  using assms
proof (induction names arbitrary: w tr)
  case (Cons name names)
  show ?case
  proof (cases "orphaned exists dir name")
    case False
    then have "remove_orphaned_networks (watch_sys S) (\<lambda>p _. exists p) dir names (w, tr) = (r, w', tr')"
      using Cons.prems by (auto simp: orphaned_def split: option.splits)
    from Cons.IH [OF this] False show ?thesis by simp
  next
    case True
    obtain x w1 where x: "run S (docker_rm name) w = (x, w1)" by fastforce
    define e where "e = Ran (docker_rm name) (case x of Inr out \<Rightarrow> out_success out | Inl _ \<Rightarrow> False)"
    have ec: "event_command e = Some (docker_rm name)" by (simp add: e_def)
    have s: "(\<exists>err. x = Inl err \<and> r = Err err \<and> tr' = tr @ [e]) \<or> (\<not> is_ok r \<and> tr' = tr @ [e]) \<or>
        remove_orphaned_networks (watch_sys S) (\<lambda>p _. exists p) dir names (w1, tr @ [e]) = (r, w', tr')"
      using Cons.prems True x
      by (cases x) (auto simp: orphaned_def with_ctx_def err_context_def watch_sys_ops e_def split: option.splits)
    then consider (stop) "\<not> is_ok r" "tr' = tr @ [e]"
      | (go) "remove_orphaned_networks (watch_sys S) (\<lambda>p _. exists p) dir names (w1, tr @ [e]) = (r, w', tr')"
      by auto
    then show ?thesis
    proof cases
      case stop
      then show ?thesis using True ec by (intro exI [of _ "[e]"]) simp
    next
      case go
      from Cons.IH [OF go] obtain es where "tr' = tr @ [e] @ es"
        "prefix (map event_command es) (map (\<lambda>n. Some (docker_rm n)) (filter (orphaned exists dir) names))"
        "is_ok r \<longrightarrow> map event_command es = map (\<lambda>n. Some (docker_rm n)) (filter (orphaned exists dir) names)"
        by auto
      then show ?thesis using True ec by (intro exI [of _ "e # es"]) simp
    qed
  qed
qed simp

text \<open>
  (C31) The scan for orphaned Docker networks removes only networks that carry the jail prefix and whose
  jail has no canary file, in the order in which they are listed; a network of a jail with a canary and
  a network of anybody else is never touched. When the scan reports success it has asked for the removal
  of every such network.
\<close>

theorem orphan_scan_spares_live:
  "case remove_orphaned_networks (watch_sys S) (\<lambda>p _. exists p) dir names (w, []) of
     (r, w', tr) \<Rightarrow>
       (let targets = map (\<lambda>n. Some (docker_rm n)) (filter (orphaned exists dir) names)
        in if is_ok r then map event_command tr = targets else prefix (map event_command tr) targets)"
proof -
  obtain r w' tr where "remove_orphaned_networks (watch_sys S) (\<lambda>p _. exists p) dir names (w, []) = (r, w', tr)"
    by (metis prod.exhaust)
  with remove_orphaned_networks_events [OF this] show ?thesis by (auto simp: Let_def)
qed

section \<open>Removal of the Docker resources\<close>

datatype docker_res = DNetwork | DTable

text \<open>The removals of Docker resources that a trace asks for, whatever the outcome.\<close>

definition docker_asks :: "string \<Rightarrow> sys_event \<Rightarrow> docker_res set" where
  "docker_asks jid e =
     (case e of
        Ran c _ \<Rightarrow>
          (if c = docker_rm (network_name_from_jail_id jid) then {DNetwork}
           else if c = command ''nft'' [''delete'', ''table'', ''ip'', table_name_from_jail_id jid] then {DTable} else {})
      | _ \<Rightarrow> {})"

definition asked :: "string \<Rightarrow> sys_event list \<Rightarrow> docker_res set" where
  "asked jid tr = (\<Union>e \<in> set tr. docker_asks jid e)"

lemma asked_append [simp]: "asked jid (xs @ ys) = asked jid xs \<union> asked jid ys"
  by (simp add: asked_def)

lemma asked_Nil [simp]: "asked jid [] = {}"
  by (simp add: asked_def)

lemma asked_two: "asked jid [x, y] = asked jid [x] \<union> asked jid [y]"
  by (simp add: asked_def)

lemma quiet_events:
  "asked jid [RemovedDir d ok] = {}"
  "asked jid [Ran (ip_cmd args) ok] = {}"
  "asked jid [Ran (command ''umount'' args) ok] = {}"
  "asked jid [Ran (command ''nft'' [''delete'', ''table'', ''ip'', ''httpjail_'' @ jid]) ok] = {}"
  by (auto simp: asked_def docker_asks_def ip_cmd_def command_def table_name_from_jail_id_def
      dest: arg_cong [of _ _ length])

lemma release_events:
  "asked jid [Ran (docker_rm (network_name_from_jail_id jid)) ok] = {DNetwork}"
  "asked jid [Ran (command ''nft'' [''delete'', ''table'', ''ip'', table_name_from_jail_id jid]) ok] = {DTable}"
  by (simp_all add: asked_def docker_asks_def command_def)

lemma network_drop_releases:
  assumes "resource m = Some \<lparr>network_name = network_name_from_jail_id jid\<rparr>"
  shows "asked jid (snd (managed_drop (network_resource hash (watch_sys S)) m (w, tr))) =
    asked jid tr \<union> {DNetwork}"
  using assms release_events
  by (simp add: managed_drop_def network_resource_def docker_network_cleanup_def with_ctx_def err_context_def
      watch_sys_ops split: sum.splits)

lemma routing_drop_releases:
  assumes "resource m = Some \<lparr>routing_jail = jid, routing_table = table_name_from_jail_id jid\<rparr>"
  shows "asked jid (snd (managed_drop (routing_resource (watch_sys S)) m (w, tr))) =
    asked jid tr \<union> {DTable}"
  using assms release_events
  by (simp add: managed_drop_def routing_resource_def routing_cleanup_def with_ctx_def err_context_def
      watch_sys_ops split: sum.splits)

lemma linux_cleanup_quiet:
  "asked jid (snd (snd (linux_cleanup_orphaned (watch_sys S) jid (w, tr)))) = asked jid tr"
proof -
  have r: "asked jid (snd (managed_drop (resolv_resource (watch_sys S))
      (managed_for_existing (resolv_resource (watch_sys S)) jid) (w, tr))) = asked jid tr" for w tr
  proof -
    obtain t w1 where "resolve_resolv_conf_target (watch_sys S) (w, tr) = (t, (w1, tr))"
      using resolve_target_trace [of S w tr] by (metis prod.collapse)
    then show ?thesis
      using quiet_events(1,3) by (cases t) (simp_all add: managed_drop_def managed_for_existing_def
          resolv_resource_def resolv_for_existing_def resolv_cleanup_def watch_sys_ops asked_two
          Let_def)
  qed
  have n: "asked jid (snd (managed_drop (nft_resource (watch_sys S))
      (managed_for_existing (nft_resource (watch_sys S)) jid) (w, tr))) = asked jid tr" for w tr
    using quiet_events(4) [simplified] by (simp add: managed_drop_def managed_for_existing_def nft_resource_def
        nft_wrapper_for_existing_def nft_for_existing_def nft_wrapper_cleanup_def nft_drop_def nft_remove_def
        with_ctx_def err_context_def watch_sys_ops split: sum.splits)
  have v: "asked jid (snd (managed_drop (veth_resource (watch_sys S))
      (managed_for_existing (veth_resource (watch_sys S)) jid) (w, tr))) = asked jid tr" for w tr
    using quiet_events(2) by (simp add: managed_drop_def managed_for_existing_def veth_resource_def
        veth_for_existing_def veth_cleanup_def watch_sys_ops)
  have s: "asked jid (snd (managed_drop (netns_resource (watch_sys S))
      (managed_for_existing (netns_resource (watch_sys S)) jid) (w, tr))) = asked jid tr" for w tr
    using quiet_events(2) by (simp add: managed_drop_def managed_for_existing_def netns_resource_def
        netns_for_existing_def netns_cleanup_def watch_sys_ops Let_def split: sum.splits)
  show ?thesis
    using r n v s by (simp add: linux_cleanup_orphaned_def Let_def) (metis prod.collapse)
qed

lemma docker_drops_neutral:
  "clears jid {} tr (snd (managed_drop (routing_resource (watch_sys S)) (managed_for_existing (routing_resource (watch_sys S)) jid) (w, tr)))"
  "clears jid {} tr (snd (managed_drop (network_resource hash (watch_sys S))
     (managed_for_existing (network_resource hash (watch_sys S)) jid) (w, tr)))"
proof -
  have "clears jid {} tr (tr @ [Ran (command ''nft'' [''delete'', ''table'', ''ip'', table_name_from_jail_id jid]) ok])"
    "clears jid {} tr (tr @ [Ran (docker_rm n) ok])" for ok n
    by (rule clears_snoc; simp add: acquires_def name_defs)+
  then show
    "clears jid {} tr (snd (managed_drop (routing_resource (watch_sys S)) (managed_for_existing (routing_resource (watch_sys S)) jid) (w, tr)))"
    "clears jid {} tr (snd (managed_drop (network_resource hash (watch_sys S))
       (managed_for_existing (network_resource hash (watch_sys S)) jid) (w, tr)))"
    by (auto simp: managed_drop_def managed_for_existing_def routing_resource_def routing_for_existing_def
        routing_cleanup_def network_resource_def docker_network_for_existing_def docker_network_cleanup_def
        with_ctx_def err_context_def watch_sys_ops split: sum.splits)
qed

lemma docker_orphan_clears:
  "clears jid UNIV tr (snd (snd (docker_cleanup_orphaned hash (watch_sys S) jid (w, tr))))"
proof -
  obtain w1 tr1 where 1: "linux_cleanup_orphaned (watch_sys S) jid (w, tr) = (Ok (), w1, tr1)"
    by (simp add: linux_cleanup_orphaned_def Let_def) (metis prod.exhaust)
  obtain w2 tr2 where 2: "managed_drop (routing_resource (watch_sys S))
      (managed_for_existing (routing_resource (watch_sys S)) jid) (w1, tr1) = (w2, tr2)"
    by (metis prod.exhaust)
  have "clears jid UNIV tr tr1" using linux_orphan_clears(2) [of jid tr S w] 1 by simp
  moreover have "clears jid {} tr1 tr2" using docker_drops_neutral(1) [of jid tr1 S w1] 2 by simp
  ultimately have "clears jid (UNIV \<union> {}) tr tr2" by (rule clears_trans)
  from clears_trans [OF this docker_drops_neutral(2) [of jid tr2 hash S w2]] show ?thesis by (simp add: docker_cleanup_orphaned_def 1 2)
qed

lemma linux_cleanup_clears: "clears (lj_id j) UNIV tr (snd (snd (linux_cleanup (watch_sys S) j (w, tr))))"
  using linux_orphan_clears(2) [of "lj_id j" tr S w]
  by (auto simp: linux_cleanup_def and_then_def return_ok_def split: prod.splits sum.splits)

lemma docker_setup_handles:
  assumes "docker_setup hash uid S D exists dir port (docker_new hash config) w = (Ok (), j, w')"
  shows "dk_network j = Some \<lparr>resource = Some \<lparr>network_name = network_name_from_jail_id (jail_id config)\<rparr>\<rparr> \<and>
    dk_routing j = Some \<lparr>resource = Some \<lparr>routing_jail = jail_id config,
      routing_table = table_name_from_jail_id (jail_id config)\<rparr>\<rparr>"
  using assms
  by (auto simp: docker_setup_def docker_new_def then_step_def keep_jail_def docker_inner_setup_def
      create_docker_network_def managed_create_def network_resource_def docker_network_create_def
      setup_docker_routing_def routing_resource_def routing_create_def and_then_def return_ok_def
      split: prod.splits sum.splits option.splits if_splits)

lemma linux_setup_ident:
  assumes "linux_setup uid (watch_sys S) (watch_dns D) port (linux_new hash config) (w, tr) = (Ok (), j, w', tr')"
  shows "lj_config j = config"
proof -
  have "configured config (lj_host_ip (linux_new hash config)) (linux_new hash config) tr"
    by (simp add: configured_def linux_new_def split: prod.splits)
  with linux_setup_installs [of config "lj_host_ip (linux_new hash config)" uid S D port] assms
  have "configured config (lj_host_ip (linux_new hash config)) j tr'"
    unfolding meets_def by (metis (no_types, lifting) is_ok_simps(1))
  then show ?thesis by (simp add: configured_def)
qed

lemma docker_setup_ident:
  assumes "docker_setup hash uid (watch_sys S) (watch_dns D) exists dir port (docker_new hash config) (w, tr) = (Ok (), j, w', tr')"
  shows "lj_config (dk_inner j) = config"
proof -
  from assms obtain w1 tr1 j2 w2 tr2 j3 w3 where
    1: "docker_inner_setup uid (watch_sys S) (watch_dns D) port (docker_new hash config) (w1, tr1) = (Ok (), j2, w2, tr2)"
    and 2: "create_docker_network hash (watch_sys S) j2 (w2, tr2) = (Ok (), j3, w3)"
    and 3: "setup_docker_routing hash (watch_sys S) j3 w3 = (Ok (), j, w', tr')"
    unfolding docker_setup_def by (elim then_step_OkE) (auto simp: keep_jail_def split: prod.splits)
  have "linux_setup uid (watch_sys S) (watch_dns D) port (linux_new hash config) (w1, tr1) = (Ok (), dk_inner j2, w2, tr2)"
    using 1 by (auto simp: docker_inner_setup_def docker_new_def split: prod.splits)
  then have "lj_config (dk_inner j2) = config" by (rule linux_setup_ident)
  moreover have "dk_inner j3 = dk_inner j2"
    using 2 by (auto simp: create_docker_network_def split: prod.splits sum.splits)
  moreover have "dk_inner j = dk_inner j3"
    using 3 by (auto simp: setup_docker_routing_def split: prod.splits sum.splits option.splits)
  ultimately show ?thesis by simp
qed

section \<open>Properties of the cleanup\<close>

text \<open>
  Cleaning up an orphaned Docker jail by its identifier asks for the removal of its Docker network
  and of its routing table, whatever the operating system answers, and reports success.
\<close>

theorem docker_orphans_released:
  "case docker_cleanup_orphaned hash (watch_sys S) jid (w, tr) of
     (r, w', tr') \<Rightarrow> r = Ok () \<and> asked jid tr' = asked jid tr \<union> {DNetwork, DTable}"
proof -
  obtain w1 tr1 where 1: "linux_cleanup_orphaned (watch_sys S) jid (w, tr) = (Ok (), w1, tr1)"
    by (simp add: linux_cleanup_orphaned_def Let_def) (metis prod.exhaust)
  obtain w2 tr2 where 2: "managed_drop (routing_resource (watch_sys S))
      (managed_for_existing (routing_resource (watch_sys S)) jid) (w1, tr1) = (w2, tr2)"
    by (metis prod.exhaust)
  obtain w3 tr3 where 3: "managed_drop (network_resource hash (watch_sys S))
      (managed_for_existing (network_resource hash (watch_sys S)) jid) (w2, tr2) = (w3, tr3)"
    by (metis prod.exhaust)
  have "asked jid tr1 = asked jid tr" using linux_cleanup_quiet [of jid S w tr] 1 by simp
  moreover have "asked jid tr2 = asked jid tr1 \<union> {DTable}"
    using routing_drop_releases [of "managed_for_existing (routing_resource (watch_sys S)) jid" jid S w1 tr1] 2
    by (simp add: managed_for_existing_def routing_resource_def routing_for_existing_def)
  moreover have "asked jid tr3 = asked jid tr2 \<union> {DNetwork}"
    using network_drop_releases [of "managed_for_existing (network_resource hash (watch_sys S)) jid" jid hash S w2 tr2] 3
    by (simp add: managed_for_existing_def network_resource_def docker_network_for_existing_def)
  ultimately show ?thesis by (auto simp: docker_cleanup_orphaned_def 1 2 3)
qed

text \<open>
  The removal of the Docker network and of the routing table of a jail that was set up is asked for when the
  jail is dropped, but not by its cleanup operation, which only cleans up the Linux jail.
\<close>

theorem docker_cleanup_scope:
  assumes "docker_setup hash uid (watch_sys S) (watch_dns D) exists dir port (docker_new hash config) (w, []) = (Ok (), j, w', tr)"
    and "jid = jail_id config"
  shows "asked jid (snd (snd (docker_cleanup (watch_sys S) j (w', [])))) = {} \<and>
    clears jid UNIV tr (snd (snd (docker_cleanup (watch_sys S) j (w', tr)))) \<and>
    {DNetwork, DTable} \<subseteq> asked jid (snd (docker_drop hash (watch_sys S) (watch_dns D) j (w', [])))"
proof (intro conjI)
  have ident: "lj_id (dk_inner j) = jid" using docker_setup_ident [OF assms(1)] assms(2) by simp
  show "asked jid (snd (snd (docker_cleanup (watch_sys S) j (w', [])))) = {}"
    using linux_cleanup_quiet [of jid S w' "[]"] ident
    by (auto simp: docker_cleanup_def linux_cleanup_def and_then_def return_ok_def split: prod.splits sum.splits)
  show "clears jid UNIV tr (snd (snd (docker_cleanup (watch_sys S) j (w', tr))))"
    using linux_cleanup_clears [of "dk_inner j" tr S w'] ident by (simp add: docker_cleanup_def)
  note h = docker_setup_handles [OF assms(1)]
  obtain w1 tr1 where l: "linux_drop (watch_sys S) (watch_dns D) (dk_inner j) (w', []) = (w1, tr1)"
    by (metis prod.exhaust)
  define n :: "docker_network managed" where "n = \<lparr>resource = Some \<lparr>network_name = network_name_from_jail_id jid\<rparr>\<rparr>"
  define m :: "docker_routing managed" where
    "m = \<lparr>resource = Some \<lparr>routing_jail = jid, routing_table = table_name_from_jail_id jid\<rparr>\<rparr>"
  have n: "dk_network j = Some n" "resource n = Some \<lparr>network_name = network_name_from_jail_id jid\<rparr>"
    using h assms(2) by (simp_all add: n_def)
  have m: "dk_routing j = Some m"
      "resource m = Some \<lparr>routing_jail = jid, routing_table = table_name_from_jail_id jid\<rparr>"
    using h assms(2) by (simp_all add: m_def)
  obtain w2 tr2 where 2: "managed_drop (network_resource hash (watch_sys S)) n (w1, tr1) = (w2, tr2)"
    by (metis prod.exhaust)
  show "{DNetwork, DTable} \<subseteq> asked jid (snd (docker_drop hash (watch_sys S) (watch_dns D) j (w', [])))"
    using network_drop_releases [OF n(2), of hash S w1 tr1] routing_drop_releases [OF m(2), of S w2 tr2]
    by (simp add: docker_drop_def l drop_option_def n(1) m(1) 2)
qed

lemma sample_docker_setup_succeeds:
  "fst (docker_setup hash 0 (watch_sys sample_sys) (watch_dns sample_dns) exists dir 8080 (docker_new hash config) ((), [])) = Ok ()"
proof -
  have ops: "run sample_sys c w = (Ok \<lparr>out_success = True, out_stdout = [], out_stderr = []\<rparr>, w)"
    "pipe sample_sys c w = (Finished \<lparr>out_success = True, out_stdout = [], out_stderr = []\<rparr>, w)" for c w
    by (simp_all add: sample_sys_def)
  obtain tr where o: "cleanup_all_orphaned_docker_networks (watch_sys sample_sys) exists dir ((), []) = (Ok (), (), tr)"
    by (simp add: cleanup_all_orphaned_docker_networks_def and_then_def with_ctx_def err_context_def watch_sys_ops
        sample_sys_def from_utf8_lossy.simps)
  obtain j tr2 where l: "linux_setup 0 (watch_sys sample_sys) (watch_dns sample_dns) 8080 (linux_new hash config) ((), tr) =
      (Ok (), j, (), tr2)"
    using sample_setup_succeeds [of 8080 hash config "()" tr]
    by (cases "linux_setup 0 (watch_sys sample_sys) (watch_dns sample_dns) 8080 (linux_new hash config) ((), tr)")
      (auto simp: is_ok_def split: sum.splits)
  show ?thesis
    by (simp add: docker_setup_def then_step_def keep_jail_def o docker_inner_setup_def docker_new_def l
        create_docker_network_def managed_create_def network_resource_def docker_network_create_def
        setup_docker_routing_def get_bridge_name_def apply_docker_rules_def routing_resource_def routing_create_def
        and_then_def return_ok_def with_ctx_def err_context_def watch_sys_ops ops)
qed

theorem docker_cleanup_scope_witness:
  "\<exists>j tr. docker_setup (\<lambda>_. 7) 0 (watch_sys sample_sys) (watch_dns sample_dns) (\<lambda>_ _. True) ''/tmp/httpjail'' 8080
      (docker_new (\<lambda>_. 7) sample_config) ((), []) = (Ok (), j, (), tr) \<and>
    asked ''abc'' (snd (snd (docker_cleanup (watch_sys sample_sys) j ((), [])))) = {} \<and>
    {DNetwork, DTable} \<subseteq> asked ''abc'' (snd (docker_drop (\<lambda>_. 7) (watch_sys sample_sys) (watch_dns sample_dns) j ((), [])))"
proof -
  let ?r = "docker_setup (\<lambda>_. 7) 0 (watch_sys sample_sys) (watch_dns sample_dns) (\<lambda>_ _. True) ''/tmp/httpjail'' 8080
      (docker_new (\<lambda>_. 7) sample_config) ((), [])"
  obtain r j tr where r: "?r = (r, j, (), tr)" by (cases ?r) auto
  with sample_docker_setup_succeeds [of "\<lambda>_. 7" "\<lambda>_ _. True" "''/tmp/httpjail''" sample_config]
  have ok: "?r = (Ok (), j, (), tr)" by simp
  with docker_cleanup_scope [OF ok, of "''abc''"] show ?thesis by (simp add: sample_config_def)
qed

end
