(* ===== verification/Managed_Jail.thy ===== *)
theory Managed_Jail
  imports Sys_Resource
begin

text \<open>
  \<^verbatim>\<open>src/src/jail/managed.rs\<close>: a jail with a life cycle. While it lives, a heartbeat thread touches its
  canary file; other processes clean up jails whose canary has become stale. The first part models the
  operations, the second the heartbeat thread and its races as a step relation.
\<close>

section \<open>Files, clock and threads\<close>

text \<open>
  What the code uses of \<open>std::fs\<close>, \<open>SystemTime\<close> and \<open>std::thread\<close>. Times and durations are in
  nanoseconds. The stop flag is shared with the heartbeat thread and therefore part of the world.
\<close>

record file_times =
  modified :: "nat result"
  accessed :: "nat result"

record 'w canary_ops =
  fs_exists :: "string \<Rightarrow> 'w \<Rightarrow> bool"
  fs_is_file :: "string \<Rightarrow> 'w \<Rightarrow> bool"
  fs_create_dir_all :: "string \<Rightarrow> ('w, unit) fallible"
  fs_read_dir :: "string \<Rightarrow> ('w, string result list) fallible"
  fs_metadata :: "string \<Rightarrow> ('w, file_times) fallible"
  fs_write_empty :: "string \<Rightarrow> ('w, unit) fallible"
  fs_remove_file :: "string \<Rightarrow> ('w, unit) fallible"
  fs_set_times :: "string \<Rightarrow> nat \<Rightarrow> nat \<Rightarrow> ('w, unit) fallible"
  time_now :: "'w \<Rightarrow> nat \<times> 'w"
  set_stop_flag :: "'w \<Rightarrow> 'w"
  spawn_heartbeat :: "string \<Rightarrow> nat \<Rightarrow> 'w \<Rightarrow> 'w"
  join_heartbeat :: "'w \<Rightarrow> bool \<times> 'w"

definition from_secs :: "u64 \<Rightarrow> nat" where
  "from_secs s = unat s * 1000000000"

section \<open>State\<close>

record 'j managed_jail =
  mj_jail :: 'j
  mj_canary_dir :: string
  mj_canary_path :: string
  mj_heartbeat_interval :: nat
  mj_orphan_timeout :: nat
  mj_enable_heartbeat :: bool
  mj_heartbeat_handle :: bool

definition managed_new :: "string option \<Rightarrow> 'j \<Rightarrow> jail_config \<Rightarrow> 'j managed_jail" where
  "managed_new data_dir jail config =
     (let canary_dir = get_canary_dir data_dir
      in \<lparr>mj_jail = jail, mj_canary_dir = canary_dir, mj_canary_path = path_join canary_dir (jail_id config),
          mj_heartbeat_interval = from_secs (heartbeat_interval_secs config),
          mj_orphan_timeout = from_secs (orphan_timeout_secs config),
          mj_enable_heartbeat = enable_heartbeat config, mj_heartbeat_handle = False\<rparr>)"

section \<open>Orphans\<close>

text \<open>The name of a canary file as a jail identifier.\<close>

definition canary_jail_id :: "string \<Rightarrow> string" where
  "canary_jail_id name = (case str_from_utf8 name of Some s \<Rightarrow> s | None \<Rightarrow> ''unknown'')"

text \<open>A clock that runs backwards gives age 0, as the truncated subtraction does.\<close>

definition canary_stale :: "nat \<Rightarrow> nat \<Rightarrow> nat \<Rightarrow> bool" where
  "canary_stale orphan_timeout now mtime = (orphan_timeout < now - mtime)"

definition reap_orphan ::
  "'w canary_ops \<Rightarrow> (string \<Rightarrow> ('w, unit) fallible) \<Rightarrow> string \<Rightarrow> string \<Rightarrow> ('w, unit) fallible" where
  "reap_orphan F cleanup_orphaned dir name w =
     (let jid = canary_jail_id name; q = [CHR 0x27]
      in case with_ctx (''Failed to cleanup orphaned jail '' @ q @ jid @ q) (cleanup_orphaned jid) w of
           (Inl e, w) \<Rightarrow> (Err e, w)
         | (Inr _, w) \<Rightarrow> (Ok (), snd (fs_remove_file F (path_join dir name) w)))"

definition check_canary ::
  "'w canary_ops \<Rightarrow> (string \<Rightarrow> ('w, unit) fallible) \<Rightarrow> string \<Rightarrow> nat \<Rightarrow> string \<Rightarrow> ('w, unit) fallible" where
  "check_canary F cleanup_orphaned dir orphan_timeout name w =
     (if \<not> fs_is_file F (path_join dir name) w then (Ok (), w)
      else case fs_metadata F (path_join dir name) w of
             (Inl e, w) \<Rightarrow> (Err e, w)
           | (Inr metadata, w) \<Rightarrow>
               (case err_context ''Failed to get file modification time'' (modified metadata) of
                  Inl e \<Rightarrow> (Err e, w)
                | Inr mtime \<Rightarrow>
                    (case time_now F w of
                       (now, w) \<Rightarrow>
                         (if canary_stale orphan_timeout now mtime then reap_orphan F cleanup_orphaned dir name w
                          else (Ok (), w)))))"

fun scan_canaries ::
  "'w canary_ops \<Rightarrow> (string \<Rightarrow> ('w, unit) fallible) \<Rightarrow> string \<Rightarrow> nat \<Rightarrow> string result list \<Rightarrow>
     ('w, unit) fallible" where
  "scan_canaries F cleanup_orphaned dir orphan_timeout [] w = (Ok (), w)"
| "scan_canaries F cleanup_orphaned dir orphan_timeout (entry # entries) w =
     (case entry of
        Inl e \<Rightarrow> (Err e, w)
      | Inr name \<Rightarrow>
          (case check_canary F cleanup_orphaned dir orphan_timeout name w of
             (Inl e, w) \<Rightarrow> (Err e, w)
           | (Inr _, w) \<Rightarrow> scan_canaries F cleanup_orphaned dir orphan_timeout entries w))"

definition cleanup_orphans ::
  "'w canary_ops \<Rightarrow> (string \<Rightarrow> ('w, unit) fallible) \<Rightarrow> 'j managed_jail \<Rightarrow> ('w, unit) fallible" where
  "cleanup_orphans F cleanup_orphaned m w =
     (if \<not> fs_exists F (mj_canary_dir m) w
      then with_ctx ''Failed to create canary directory'' (fs_create_dir_all F (mj_canary_dir m)) w
      else and_then (fs_read_dir F (mj_canary_dir m))
             (scan_canaries F cleanup_orphaned (mj_canary_dir m) (mj_orphan_timeout m)) w)"

section \<open>The canary file and its heartbeat\<close>

definition create_canary :: "'w canary_ops \<Rightarrow> 'j managed_jail \<Rightarrow> ('w, unit) fallible" where
  "create_canary F m w =
     (case (if \<not> fs_exists F (mj_canary_dir m) w
            then with_ctx ''Failed to create canary directory'' (fs_create_dir_all F (mj_canary_dir m)) w
            else (Ok (), w)) of
        (Inl e, w) \<Rightarrow> (Err e, w)
      | (Inr _, w) \<Rightarrow> with_ctx ''Failed to create canary file'' (fs_write_empty F (mj_canary_path m)) w)"

definition delete_canary :: "'w canary_ops \<Rightarrow> 'j managed_jail \<Rightarrow> ('w, unit) fallible" where
  "delete_canary F m w =
     (if fs_exists F (mj_canary_path m) w
      then with_ctx ''Failed to remove canary file'' (fs_remove_file F (mj_canary_path m)) w
      else (Ok (), w))"

definition touch_file_mtime :: "'w canary_ops \<Rightarrow> string \<Rightarrow> ('w, unit) fallible" where
  "touch_file_mtime F path w =
     (if fs_exists F path w then
        (case fs_metadata F path w of
           (Inl e, w) \<Rightarrow> (Err e, w)
         | (Inr metadata, w) \<Rightarrow>
             (case (case accessed metadata of Inr t \<Rightarrow> (t, w) | Inl _ \<Rightarrow> time_now F w) of
                (atime, w) \<Rightarrow> (case time_now F w of (mtime, w) \<Rightarrow> fs_set_times F path atime mtime w)))
      else fs_write_empty F path w)"

definition start_heartbeat ::
  "'w canary_ops \<Rightarrow> 'j managed_jail \<Rightarrow> 'w \<Rightarrow> unit result \<times> 'j managed_jail \<times> 'w" where
  "start_heartbeat F m w =
     (if \<not> mj_enable_heartbeat m then (Ok (), m, w)
      else case create_canary F m w of
             (Inl e, w) \<Rightarrow> (Err e, m, w)
           | (Inr _, w) \<Rightarrow>
               (Ok (), m\<lparr>mj_heartbeat_handle := True\<rparr>,
                spawn_heartbeat F (mj_canary_path m) (mj_heartbeat_interval m) w))"

definition stop_heartbeat ::
  "'w canary_ops \<Rightarrow> 'j managed_jail \<Rightarrow> 'w \<Rightarrow> unit result \<times> 'j managed_jail \<times> 'w" where
  "stop_heartbeat F m w =
     (if \<not> mj_enable_heartbeat m then (Ok (), m, w)
      else let w = set_stop_flag F w
           in if mj_heartbeat_handle m then
                (case join_heartbeat F w of
                   (joined, w) \<Rightarrow>
                     (if joined then Ok () else Err ''Failed to join heartbeat thread'',
                      m\<lparr>mj_heartbeat_handle := False\<rparr>, w))
              else (Ok (), m, w))"

definition signal_stop_heartbeat :: "'w canary_ops \<Rightarrow> 'j managed_jail \<Rightarrow> 'w \<Rightarrow> 'w" where
  "signal_stop_heartbeat F m w = (if mj_enable_heartbeat m then set_stop_flag F w else w)"

section \<open>The managed jail as a jail\<close>

definition managed_prepare :: "'w canary_ops \<Rightarrow> ('j, 'w) jail_ops \<Rightarrow> 'j managed_jail \<Rightarrow> ('w, unit) fallible" where
  "managed_prepare F J m w =
     (if mj_enable_heartbeat m
      then and_then (cleanup_orphans F (jail_cleanup_orphaned J) m) (\<lambda>_. create_canary F m) w
      else (Ok (), w))"

definition managed_setup ::
  "'w canary_ops \<Rightarrow> ('j, 'w) jail_ops \<Rightarrow> u16 \<Rightarrow> 'j managed_jail \<Rightarrow> 'w \<Rightarrow> unit result \<times> 'j managed_jail \<times> 'w" where
  "managed_setup F J proxy_port m w =
     (case managed_prepare F J m w of
        (Inl e, w) \<Rightarrow> (Err e, m, w)
      | (Inr _, w) \<Rightarrow>
          (case jail_setup J proxy_port (mj_jail m) w of
             (setup_result, jail, w) \<Rightarrow>
               (let m = m\<lparr>mj_jail := jail\<rparr>
                in if \<not> is_ok setup_result \<and> mj_enable_heartbeat m
                   then (setup_result, m, snd (delete_canary F m w))
                   else start_heartbeat F m w)))"

definition managed_execute ::
  "('j, 'w) jail_ops \<Rightarrow> 'j managed_jail \<Rightarrow> string list \<Rightarrow> (string \<times> string) list \<Rightarrow> ('w, exit_status) fallible" where
  "managed_execute J m cmd extra_env = jail_execute J (mj_jail m) cmd extra_env"

definition managed_cleanup :: "'w canary_ops \<Rightarrow> ('j, 'w) jail_ops \<Rightarrow> 'j managed_jail \<Rightarrow> ('w, unit) fallible" where
  "managed_cleanup F J m w =
     (case jail_cleanup J (mj_jail m) (signal_stop_heartbeat F m w) of
        (r, w) \<Rightarrow>
          (if mj_enable_heartbeat m then
             (case delete_canary F m w of (Inl e, w) \<Rightarrow> (Err e, w) | (Inr _, w) \<Rightarrow> (r, w))
           else (r, w)))"

definition managed_jail_drop :: "'w canary_ops \<Rightarrow> ('j, 'w) jail_ops \<Rightarrow> 'j managed_jail \<Rightarrow> 'w \<Rightarrow> 'w" where
  \<comment> \<open>\<open>Drop\<close>, then the inner jail is dropped as a field\<close>
  "managed_jail_drop F J m w =
     (case stop_heartbeat F m w of
        (_, m, w) \<Rightarrow>
          (case jail_cleanup J (mj_jail m) w of
             (r, w) \<Rightarrow>
               jail_drop J (mj_jail m)
                 (if mj_enable_heartbeat m \<and> is_ok r then snd (delete_canary F m w) else w)))"

definition managed_jail_ops :: "'w canary_ops \<Rightarrow> ('j, 'w) jail_ops \<Rightarrow> ('j managed_jail, 'w) jail_ops" where
  "managed_jail_ops F J =
     \<lparr>jail_setup = managed_setup F J, jail_execute = managed_execute J, jail_cleanup = managed_cleanup F J,
      jail_ident = (\<lambda>m. jail_ident J (mj_jail m)), jail_cleanup_orphaned = jail_cleanup_orphaned J,
      jail_drop = managed_jail_drop F J\<rparr>"

section \<open>Observation\<close>

text \<open>What a run asks of the file system, the clock, the heartbeat thread and the inner jail.\<close>

datatype life_event =
    Stat string "nat option"
  | Clock nat
  | Orphan string bool
  | Written string bool
  | Unlinked string bool
  | StopSet
  | Spawned
  | Joined bool
  | InnerSetup bool
  | InnerExec "string list"
  | InnerCleanup bool

abbreviation noting :: "'w \<times> life_event list \<Rightarrow> 'r \<times> 'w \<Rightarrow> ('r \<Rightarrow> life_event) \<Rightarrow> 'r \<times> 'w \<times> life_event list" where
  "noting st r e \<equiv> (fst r, snd r, snd st @ [e (fst r)])"

definition watch_canary :: "'w canary_ops \<Rightarrow> ('w \<times> life_event list) canary_ops" where
  "watch_canary F =
     \<lparr>fs_exists = (\<lambda>p st. fs_exists F p (fst st)),
      fs_is_file = (\<lambda>p st. fs_is_file F p (fst st)),
      fs_create_dir_all = (\<lambda>p st. case fs_create_dir_all F p (fst st) of (r, w) \<Rightarrow> (r, w, snd st)),
      fs_read_dir = (\<lambda>p st. case fs_read_dir F p (fst st) of (r, w) \<Rightarrow> (r, w, snd st)),
      fs_metadata = (\<lambda>p st. noting st (fs_metadata F p (fst st))
         (\<lambda>r. Stat p (case r of Inr md \<Rightarrow> (case modified md of Inr t \<Rightarrow> Some t | Inl _ \<Rightarrow> None) | Inl _ \<Rightarrow> None))),
      fs_write_empty = (\<lambda>p st. noting st (fs_write_empty F p (fst st)) (\<lambda>r. Written p (is_ok r))),
      fs_remove_file = (\<lambda>p st. noting st (fs_remove_file F p (fst st)) (\<lambda>r. Unlinked p (is_ok r))),
      fs_set_times = (\<lambda>p a m st. case fs_set_times F p a m (fst st) of (r, w) \<Rightarrow> (r, w, snd st)),
      time_now = (\<lambda>st. noting st (time_now F (fst st)) Clock),
      set_stop_flag = (\<lambda>st. (set_stop_flag F (fst st), snd st @ [StopSet])),
      spawn_heartbeat = (\<lambda>p i st. (spawn_heartbeat F p i (fst st), snd st @ [Spawned])),
      join_heartbeat = (\<lambda>st. noting st (join_heartbeat F (fst st)) Joined)\<rparr>"

definition watch_jail :: "('j, 'w) jail_ops \<Rightarrow> ('j, 'w \<times> life_event list) jail_ops" where
  "watch_jail J =
     \<lparr>jail_setup = (\<lambda>port j st. case jail_setup J port j (fst st) of
         (r, j, w) \<Rightarrow> (r, j, w, snd st @ [InnerSetup (is_ok r)])),
      jail_execute = (\<lambda>j c env st. case jail_execute J j c env (fst st) of (r, w) \<Rightarrow> (r, w, snd st @ [InnerExec c])),
      jail_cleanup = (\<lambda>j st. noting st (jail_cleanup J j (fst st)) (\<lambda>r. InnerCleanup (is_ok r))),
      jail_ident = jail_ident J,
      jail_cleanup_orphaned = (\<lambda>jid st. noting st (jail_cleanup_orphaned J jid (fst st)) (\<lambda>r. Orphan jid (is_ok r))),
      jail_drop = (\<lambda>j st. (jail_drop J j (fst st), snd st))\<rparr>"

text \<open>
  The safety monitor of the orphan scan. A jail may be cleaned up only after its canary file was found
  to be canary_stale, and a canary may be unlinked only right after the cleanup of its jail has succeeded.
\<close>

datatype scan_state = Idle | Statted string nat | Timed string nat nat | Cleaned string

fun monitor :: "string \<Rightarrow> nat \<Rightarrow> life_event \<Rightarrow> scan_state \<Rightarrow> scan_state option" where
  "monitor dir timeout (Stat name_path t) s =
     (case t of Some m \<Rightarrow> Some (Statted name_path m) | None \<Rightarrow> Some Idle)"
| "monitor dir timeout (Clock n) (Statted p m) = Some (Timed p m n)"
| "monitor dir timeout (Orphan jid ok) (Timed p m n) =
     (if canary_stale timeout n m \<and> (\<exists>name. p = path_join dir name \<and> jid = canary_jail_id name)
      then Some (if ok then Cleaned p else Idle) else None)"
| "monitor dir timeout (Unlinked p ok) (Cleaned q) = (if p = q then Some Idle else None)"
| "monitor dir timeout _ _ = None"

fun accepts :: "string \<Rightarrow> nat \<Rightarrow> scan_state \<Rightarrow> life_event list \<Rightarrow> bool" where
  "accepts dir timeout s [] = True"
| "accepts dir timeout s (e # es) =
     (case monitor dir timeout e s of Some s' \<Rightarrow> accepts dir timeout s' es | None \<Rightarrow> False)"

lemma watch_canary_ops:
  "fs_exists (watch_canary F) p (w, tr) = fs_exists F p w"
  "fs_is_file (watch_canary F) p (w, tr) = fs_is_file F p w"
  "fs_metadata (watch_canary F) p (w, tr) = (fst (fs_metadata F p w), snd (fs_metadata F p w),
     tr @ [Stat p (case fst (fs_metadata F p w) of Inr md \<Rightarrow> (case modified md of Inr t \<Rightarrow> Some t | Inl _ \<Rightarrow> None)
                   | Inl _ \<Rightarrow> None)])"
  "fs_write_empty (watch_canary F) p (w, tr) =
     (fst (fs_write_empty F p w), snd (fs_write_empty F p w), tr @ [Written p (is_ok (fst (fs_write_empty F p w)))])"
  "fs_remove_file (watch_canary F) p (w, tr) =
     (fst (fs_remove_file F p w), snd (fs_remove_file F p w), tr @ [Unlinked p (is_ok (fst (fs_remove_file F p w)))])"
  "time_now (watch_canary F) (w, tr) = (fst (time_now F w), snd (time_now F w), tr @ [Clock (fst (time_now F w))])"
  "set_stop_flag (watch_canary F) (w, tr) = (set_stop_flag F w, tr @ [StopSet])"
  "spawn_heartbeat (watch_canary F) p i (w, tr) = (spawn_heartbeat F p i w, tr @ [Spawned])"
  "join_heartbeat (watch_canary F) (w, tr) =
     (fst (join_heartbeat F w), snd (join_heartbeat F w), tr @ [Joined (fst (join_heartbeat F w))])"
  "fs_create_dir_all (watch_canary F) p (w, tr) = (fst (fs_create_dir_all F p w), snd (fs_create_dir_all F p w), tr)"
  "fs_read_dir (watch_canary F) p (w, tr) = (fst (fs_read_dir F p w), snd (fs_read_dir F p w), tr)"
  by (simp_all add: watch_canary_def split: prod.splits)

lemma watch_jail_ops:
  "jail_cleanup (watch_jail J) j (w, tr) =
     (fst (jail_cleanup J j w), snd (jail_cleanup J j w), tr @ [InnerCleanup (is_ok (fst (jail_cleanup J j w)))])"
  "jail_cleanup_orphaned (watch_jail J) jid (w, tr) =
     (fst (jail_cleanup_orphaned J jid w), snd (jail_cleanup_orphaned J jid w),
      tr @ [Orphan jid (is_ok (fst (jail_cleanup_orphaned J jid w)))])"
  "jail_setup (watch_jail J) port j (w, tr) =
     (fst (jail_setup J port j w), fst (snd (jail_setup J port j w)), snd (snd (jail_setup J port j w)),
      tr @ [InnerSetup (is_ok (fst (jail_setup J port j w)))])"
  "jail_drop (watch_jail J) j (w, tr) = (jail_drop J j w, tr)"
  by (simp_all add: watch_jail_def split: prod.splits)

text \<open>One entry of the scan.\<close>

lemma reap_orphan_trace:
  assumes "reap_orphan (watch_canary F) (jail_cleanup_orphaned (watch_jail J)) dir name (w, tr) = (r, w', tr')"
  shows "tr' = (let o1 = jail_cleanup_orphaned J (canary_jail_id name) w; p = path_join dir name
    in tr @ [Orphan (canary_jail_id name) (is_ok (fst o1))] @
         (if is_ok (fst o1) then [Unlinked p (is_ok (fst (fs_remove_file F p (snd o1))))] else []))"
proof -
  obtain o1 w1 where o: "jail_cleanup_orphaned J (canary_jail_id name) w = (o1, w1)" by fastforce
  show ?thesis
    using assms
    by (cases o1) (auto simp: reap_orphan_def with_ctx_def err_context_def watch_jail_ops watch_canary_ops o Let_def)
qed

lemma check_canary_accepted:
  assumes "check_canary (watch_canary F) (jail_cleanup_orphaned (watch_jail J)) dir timeout name (w, tr) = (r, w', tr')"
  shows "\<exists>es. tr' = tr @ es \<and>
    (\<forall>rest. (\<forall>s. accepts dir timeout s rest) \<longrightarrow> (\<forall>s. accepts dir timeout s (es @ rest)))"
proof (cases "fs_is_file F (path_join dir name) w")
  case False
  with assms show ?thesis by (auto simp: check_canary_def watch_canary_ops)
next
  case True
  let ?p = "path_join dir name"
  obtain md w1 where md: "fs_metadata F ?p w = (md, w1)" by fastforce
  have id: "\<exists>n. path_join dir name = path_join dir n \<and> canary_jail_id name = canary_jail_id n" by blast
  show ?thesis
  proof (cases md)
    case (Inl e)
    with assms True md show ?thesis by (auto simp: check_canary_def watch_canary_ops intro!: exI [of _ "[Stat ?p None]"])
  next
    case (Inr metadata)
    show ?thesis
    proof (cases "modified metadata")
      case (Inl e)
      with assms True md Inr show ?thesis
        by (auto simp: check_canary_def watch_canary_ops err_context_def intro!: exI [of _ "[Stat ?p None]"])
    next
      case mt: (Inr mtime)
      obtain now w2 where now: "time_now F w1 = (now, w2)" by fastforce
      let ?o = "jail_cleanup_orphaned J (canary_jail_id name) w2"
      let ?pre = "[Stat ?p (Some mtime), Clock now]"
      show ?thesis
      proof (cases "canary_stale timeout now mtime")
        case False
        with assms True md Inr mt now show ?thesis
          by (auto simp: check_canary_def watch_canary_ops err_context_def intro!: exI [of _ ?pre])
      next
        case st: True
        let ?es = "?pre @ [Orphan (canary_jail_id name) (is_ok (fst ?o))] @
          (if is_ok (fst ?o) then [Unlinked ?p (is_ok (fst (fs_remove_file F ?p (snd ?o))))] else [])"
        have "reap_orphan (watch_canary F) (jail_cleanup_orphaned (watch_jail J)) dir name (w2, tr @ ?pre) = (r, w', tr')"
          using assms True md Inr mt now st by (simp add: check_canary_def watch_canary_ops err_context_def)
        from reap_orphan_trace [OF this] have "tr' = tr @ ?es" by (simp add: Let_def)
        moreover have "accepts dir timeout s (?es @ rest)" if "\<forall>s. accepts dir timeout s rest" for s rest
          using that st id by simp
        ultimately show ?thesis by blast
      qed
    qed
  qed
qed

lemma scan_canaries_accepted:
  assumes "scan_canaries (watch_canary F) (jail_cleanup_orphaned (watch_jail J)) dir timeout entries (w, tr) = (r, w', tr')"
  shows "\<exists>es. tr' = tr @ es \<and> (\<forall>s. accepts dir timeout s es)"
  using assms
proof (induction entries arbitrary: w tr)
  case (Cons entry entries)
  show ?case
  proof (cases entry)
    case (Inl e)
    with Cons.prems show ?thesis by simp
  next
    case (Inr name)
    obtain r1 w1 tr1 where c: "check_canary (watch_canary F) (jail_cleanup_orphaned (watch_jail J)) dir timeout name (w, tr) = (r1, w1, tr1)"
      by (metis prod.exhaust)
    from check_canary_accepted [OF c] obtain es where es: "tr1 = tr @ es"
      "\<And>rest s. (\<forall>s. accepts dir timeout s rest) \<Longrightarrow> accepts dir timeout s (es @ rest)" by blast
    show ?thesis
    proof (cases r1)
      case e: (Inl e)
      with Cons.prems Inr c es(1) have "tr' = tr @ es" by simp
      with es(2) [of "[]"] show ?thesis by auto
    next
      case (Inr u)
      with Cons.prems \<open>entry = Inr name\<close> c
      have "scan_canaries (watch_canary F) (jail_cleanup_orphaned (watch_jail J)) dir timeout entries (w1, tr1) = (r, w', tr')" by simp
      from Cons.IH [OF this] obtain es2 where "tr' = tr1 @ es2" "\<forall>s. accepts dir timeout s es2" by blast
      with es show ?thesis by (intro exI [of _ "es @ es2"]) simp
    qed
  qed
qed simp

lemma orphan_scan_accepted:
  "accepts (mj_canary_dir m) (mj_orphan_timeout m) Idle
     (snd (snd (cleanup_orphans (watch_canary F) (jail_cleanup_orphaned (watch_jail J)) m (w, []))))"
proof -
  let ?c = "jail_cleanup_orphaned (watch_jail J)"
  obtain es w1 where d: "fs_read_dir F (mj_canary_dir m) w = (es, w1)" by fastforce
  obtain r w2 tr2 where s: "scan_canaries (watch_canary F) ?c (mj_canary_dir m) (mj_orphan_timeout m)
      (case es of Inr l \<Rightarrow> l | Inl _ \<Rightarrow> []) (w1, []) = (r, w2, tr2)"
    by (metis prod.exhaust)
  with scan_canaries_accepted [OF s] have "accepts (mj_canary_dir m) (mj_orphan_timeout m) Idle tr2" by auto
  with s d show ?thesis
    by (cases es) (simp_all add: cleanup_orphans_def with_ctx_def and_then_def watch_canary_ops)
qed

lemma accepts_no_setup: "accepts dir timeout s es \<Longrightarrow> InnerSetup b \<notin> set es"
  by (induction es arbitrary: s) (auto split: option.splits)

lemma create_canary_trace:
  assumes "create_canary (watch_canary F) m (w, tr) = (r, w', tr')"
  shows "if is_ok r then tr' = tr @ [Written (mj_canary_path m) True]
    else tr' = tr \<or> tr' = tr @ [Written (mj_canary_path m) False]"
proof -
  have wr: "(r, w', tr') = (err_context ''Failed to create canary file'' (fst (fs_write_empty F (mj_canary_path m) v)),
      snd (fs_write_empty F (mj_canary_path m) v), tr @ [Written (mj_canary_path m) (is_ok (fst (fs_write_empty F (mj_canary_path m) v)))]) \<Longrightarrow> ?thesis" for v
    by (cases "fst (fs_write_empty F (mj_canary_path m) v)") (auto simp: err_context_def)
  show ?thesis
  proof (cases "fs_exists F (mj_canary_dir m) w")
    case True
    with assms show ?thesis
      by (intro wr [of w]) (simp add: create_canary_def with_ctx_def watch_canary_ops)
  next
    case False
    show ?thesis
    proof (cases "fst (fs_create_dir_all F (mj_canary_dir m) w)")
      case (Inl e)
      with False assms show ?thesis by (auto simp: create_canary_def with_ctx_def err_context_def watch_canary_ops)
    next
      case (Inr u)
      with False assms show ?thesis
        by (intro wr [of "snd (fs_create_dir_all F (mj_canary_dir m) w)"])
          (simp add: create_canary_def with_ctx_def err_context_def watch_canary_ops)
    qed
  qed
qed

lemma delete_canary_trace:
  assumes "delete_canary (watch_canary F) m (w, tr) = (r, w', tr')"
  shows "tr' = tr \<or> (\<exists>ok. tr' = tr @ [Unlinked (mj_canary_path m) ok])"
  using assms by (auto simp: delete_canary_def with_ctx_def watch_canary_ops split: if_splits)

section \<open>Properties of the life cycle\<close>

text \<open>
  (C29) The orphan scan never unlinks a canary file unless the cleanup of exactly that jail has just
  succeeded, and never cleans up a jail unless its canary was just found to be older than the orphan
  timeout; the scan ends with the first failed cleanup. This holds for every content of the directory and
  every behaviour of the file system, the clock and the jail.
\<close>

theorem orphan_scan_ordered:
  "accepts (mj_canary_dir m) (mj_orphan_timeout m) Idle
     (snd (snd (cleanup_orphans (watch_canary F) (jail_cleanup_orphaned (watch_jail J)) m (w, []))))"
  by (rule orphan_scan_accepted)

lemma start_heartbeat_trace:
  assumes "mj_enable_heartbeat m" and "start_heartbeat (watch_canary F) m (w, tr) = (r, m', w', tr')"
  shows "if is_ok r then tr' = tr @ [Written (mj_canary_path m) True, Spawned]
    else tr' = tr \<or> tr' = tr @ [Written (mj_canary_path m) False]"
proof -
  obtain r1 w1 tr1 where c: "create_canary (watch_canary F) m (w, tr) = (r1, w1, tr1)" by (metis prod.exhaust)
  then have "(r, m', w', tr') = (if is_ok r1 then (Ok (), m\<lparr>mj_heartbeat_handle := True\<rparr>,
      spawn_heartbeat F (mj_canary_path m) (mj_heartbeat_interval m) w1, tr1 @ [Spawned]) else (r1, m, w1, tr1))"
    using assms by (cases r1) (auto simp: start_heartbeat_def watch_canary_ops)
  then show ?thesis using create_canary_trace [OF c] by (cases "is_ok r1") auto
qed

lemma managed_prepare_trace:
  assumes "mj_enable_heartbeat m" and "managed_prepare (watch_canary F) (watch_jail J) m (w, []) = (r, w', tr)"
    and "cleanup_orphans (watch_canary F) (jail_cleanup_orphaned (watch_jail J)) m (w, []) = (r1, w1, scan)"
  shows "(is_ok r \<longrightarrow> is_ok r1 \<and> tr = scan @ [Written (mj_canary_path m) True]) \<and> InnerSetup b \<notin> set tr \<and>
    (\<not> is_ok r1 \<longrightarrow> r = r1 \<and> tr = scan)"
proof -
  have clean: "InnerSetup b \<notin> set scan"
    using orphan_scan_accepted [of m F J w] assms(3) accepts_no_setup by auto
  obtain r2 w2 tr2 where k: "create_canary (watch_canary F) m (w1, scan) = (r2, w2, tr2)" by (metis prod.exhaust)
  have "(r, w', tr) = (if is_ok r1 then (r2, w2, tr2) else (r1, w1, scan))"
    using assms k by (cases r1) (auto simp: managed_prepare_def and_then_def)
  then show ?thesis using clean create_canary_trace [OF k] by (cases "is_ok r1"; cases "is_ok r2") auto
qed

text \<open>
  (C30) With the heartbeat enabled, a jail is set up only after the orphan scan and only while its canary file
  exists: a setup that reports success has made the whole orphan scan, which succeeded, written the canary, set
  up the inner jail, written the canary again and started the heartbeat thread, in this order; a scan that fails is
  reported and nothing follows it; a failure of the inner setup is reported, and nothing but an attempt to remove the
  canary follows it. Without the heartbeat the inner setup is all that happens, and success is reported whatever
  its outcome.
\<close>

theorem managed_setup_order:
  assumes "managed_setup (watch_canary F) (watch_jail J) port m (w, []) = (r, m', w', tr)"
    and "cleanup_orphans (watch_canary F) (jail_cleanup_orphaned (watch_jail J)) m (w, []) = (rs, ws, scan)"
  shows "if mj_enable_heartbeat m then
     (is_ok r \<longrightarrow> is_ok rs \<and> tr = scan @ [Written (mj_canary_path m) True, InnerSetup True,
        Written (mj_canary_path m) True, Spawned]) \<and>
     (\<not> is_ok rs \<longrightarrow> r = rs \<and> tr = scan) \<and>
     (InnerSetup False \<in> set tr \<longrightarrow> \<not> is_ok r \<and>
        (\<exists>del. tr = scan @ [Written (mj_canary_path m) True, InnerSetup False] @ del \<and>
           (del = [] \<or> (\<exists>ok. del = [Unlinked (mj_canary_path m) ok]))))
   else is_ok r \<and> (\<exists>ok. tr = [InnerSetup ok])"
proof (cases "mj_enable_heartbeat m")
  case False
  with assms(1) show ?thesis
    by (auto simp: managed_setup_def managed_prepare_def start_heartbeat_def watch_jail_ops Let_def split: if_splits)
next
  case True
  let ?p = "mj_canary_path m"
  obtain r1 w1 tr1 where c: "managed_prepare (watch_canary F) (watch_jail J) m (w, []) = (r1, w1, tr1)" by (metis prod.exhaust)
  note prep = managed_prepare_trace [OF True c assms(2)]
  show ?thesis
  proof (cases "is_ok r1")
    case False
    then obtain e where "r1 = Err e" by (cases r1) auto
    then have "r = r1" "tr = tr1" using assms(1) c by (simp_all add: managed_setup_def)
    with prep False True show ?thesis by simp
  next
    case ok1: True
    then have scan: "is_ok rs" "tr1 = scan @ [Written ?p True]" using prep by blast+
    obtain r3 j3 w3 where t: "jail_setup J port (mj_jail m) w1 = (r3, j3, w3)" by (metis prod.exhaust)
    let ?m = "m\<lparr>mj_jail := j3\<rparr>" and ?tr = "tr1 @ [InnerSetup (is_ok r3)]"
    have s: "managed_setup (watch_canary F) (watch_jail J) port m (w, []) =
        (if is_ok r3 then start_heartbeat (watch_canary F) ?m (w3, ?tr)
         else (r3, ?m, snd (delete_canary (watch_canary F) ?m (w3, ?tr))))"
      using True c ok1 t by (cases r1) (simp_all add: managed_setup_def watch_jail_ops Let_def)
    show ?thesis
    proof (cases "is_ok r3")
      case ok: True
      then show ?thesis
        using start_heartbeat_trace [of ?m F w3 ?tr r m' w' tr] s assms(1) True scan prep by (auto split: if_splits)
    next
      case bad: False
      obtain r4 w4 tr4 where d: "delete_canary (watch_canary F) ?m (w3, ?tr) = (r4, w4, tr4)" by (metis prod.exhaust)
      have "r = r3" "tr = tr4" using s assms(1) bad d by simp_all
      then show ?thesis using delete_canary_trace [OF d] scan bad True by auto
    qed
  qed
qed

definition sample_canary :: "unit canary_ops" where
  \<comment> \<open>an empty canary directory on which every operation succeeds\<close>
  "sample_canary =
     \<lparr>fs_exists = (\<lambda>_ _. True), fs_is_file = (\<lambda>_ _. False), fs_create_dir_all = (\<lambda>_ w. (Ok (), w)),
      fs_read_dir = (\<lambda>_ w. (Ok [], w)), fs_metadata = (\<lambda>_ w. (Err ''none'', w)), fs_write_empty = (\<lambda>_ w. (Ok (), w)),
      fs_remove_file = (\<lambda>_ w. (Ok (), w)), fs_set_times = (\<lambda>_ _ _ w. (Ok (), w)), time_now = (\<lambda>w. (7, w)),
      set_stop_flag = (\<lambda>w. w), spawn_heartbeat = (\<lambda>_ _ w. w), join_heartbeat = (\<lambda>w. (True, w))\<rparr>"

definition sample_managed :: "jail_config \<Rightarrow> jail_config managed_jail" where
  "sample_managed config =
     \<lparr>mj_jail = config, mj_canary_dir = ''/c'', mj_canary_path = ''/c/a'', mj_heartbeat_interval = 1,
      mj_orphan_timeout = 10, mj_enable_heartbeat = True, mj_heartbeat_handle = False\<rparr>"

definition young_canary :: "unit canary_ops" where
  \<comment> \<open>a directory with one canary that is not stale\<close>
  "young_canary = sample_canary\<lparr>fs_is_file := (\<lambda>_ _. True), fs_read_dir := (\<lambda>_ w. (Ok [Ok ''b''], w)),
     fs_metadata := (\<lambda>_ w. (Ok \<lparr>modified = Ok 5, accessed = Ok 5\<rparr>, w))\<rparr>"

theorem managed_setup_order_witness:
  "snd (snd (snd (managed_setup (watch_canary young_canary)
     (watch_jail (weak_jail (\<lambda>_ w. (Ok (ExitCode 0), w)) (\<lambda>_. None)))
     0 (sample_managed (fst (jail_config_new (\<lambda>_ w. (0, w)) ()))) ((), [])))) =
   [Stat ''/c/b'' (Some 5), Clock 7] @ [Written ''/c/a'' True, InnerSetup True, Written ''/c/a'' True, Spawned]"
proof -
  let ?J = "weak_jail (\<lambda>_ w. (Ok (ExitCode 0), w)) (\<lambda>_. None)"
  let ?m = "sample_managed (fst (jail_config_new (\<lambda>_ w. (0, w)) ()))"
  obtain r m' w' tr where s: "managed_setup (watch_canary young_canary) (watch_jail ?J) 0 ?m ((), []) = (r, m', w', tr)"
    by (metis prod.exhaust)
  have c: "cleanup_orphans (watch_canary young_canary) (jail_cleanup_orphaned (watch_jail ?J)) ?m ((), []) =
      (Ok (), (), [Stat ''/c/b'' (Some 5), Clock 7])"
    by (simp add: cleanup_orphans_def check_canary_def watch_canary_ops and_then_def err_context_def young_canary_def sample_canary_def
        sample_managed_def canary_stale_def path_join_def starts_with_def)
  have "is_ok r"
    using s c by (auto simp: managed_setup_def managed_prepare_def create_canary_def start_heartbeat_def
        young_canary_def sample_canary_def sample_managed_def watch_canary_def watch_jail_def weak_jail_def weak_setup_def and_then_def
        with_ctx_def err_context_def)
  then show ?thesis
    using managed_setup_order [OF s c] s by (simp add: sample_managed_def)
qed

text \<open>
  Dropping a managed jail first stops the heartbeat (and joins its thread), then cleans up the
  inner jail, and only then, and only if that cleanup succeeded, removes the canary; after a failed cleanup
  the canary stays for the next orphan scan.
\<close>

theorem managed_drop_order:
  "\<exists>joined ok del.
     snd (managed_jail_drop (watch_canary F) (watch_jail J) m (w, [])) =
       (if mj_enable_heartbeat m then StopSet # (if mj_heartbeat_handle m then [Joined joined] else []) else []) @
       [InnerCleanup ok] @ del \<and>
     (if ok \<and> mj_enable_heartbeat m then del = [] \<or> (\<exists>b. del = [Unlinked (mj_canary_path m) b]) else del = [])"
proof -
  define stop where "stop = (if mj_enable_heartbeat m then StopSet #
    (if mj_heartbeat_handle m then [Joined (fst (join_heartbeat F (set_stop_flag F w)))] else []) else [])"
  obtain r1 m1 w1 t1 where s0: "stop_heartbeat (watch_canary F) m (w, []) = (r1, m1, w1, t1)" by (metis prod.exhaust)
  then have m1: "mj_jail m1 = mj_jail m" "mj_enable_heartbeat m1 = mj_enable_heartbeat m" "mj_canary_path m1 = mj_canary_path m"
    by (auto simp: stop_heartbeat_def watch_canary_ops Let_def split: if_splits)
  have s: "stop_heartbeat (watch_canary F) m (w, []) = (r1, m1, w1, stop)"
    using s0 by (auto simp: stop_heartbeat_def watch_canary_ops stop_def Let_def split: if_splits)
  obtain r2 w2 where c: "jail_cleanup J (mj_jail m) w1 = (r2, w2)" by fastforce
  obtain r3 w3 tr3 where d: "delete_canary (watch_canary F) m1 (w2, stop @ [InnerCleanup (is_ok r2)]) = (r3, w3, tr3)"
    by (metis prod.exhaust)
  have "snd (managed_jail_drop (watch_canary F) (watch_jail J) m (w, [])) =
      (if is_ok r2 \<and> mj_enable_heartbeat m then tr3 else stop @ [InnerCleanup (is_ok r2)])"
    using s m1 c d by (cases "is_ok r2") (simp_all add: managed_jail_drop_def watch_jail_ops)
  with delete_canary_trace [OF d] m1(3) show ?thesis
    unfolding stop_def by (intro exI [of _ "fst (join_heartbeat F (set_stop_flag F w))"] exI [of _ "is_ok r2"]) auto
qed

text \<open>
  Without the heartbeat, an error of the inner setup is lost: the managed jail reports success. The
  cleanup operation, unlike the drop, removes the canary also after the inner cleanup has failed.
\<close>

lemma setup_error_swallowed:
  assumes "\<not> mj_enable_heartbeat m"
  shows "fst (managed_setup F J port m w) = Ok ()"
  using assms
  by (simp add: managed_setup_def managed_prepare_def start_heartbeat_def Let_def split: prod.splits)

lemma failed_cleanup_unlinks:
  assumes "mj_enable_heartbeat m" and "jail_cleanup J (mj_jail m) (set_stop_flag F w) = (Err e, w')"
    and "fs_exists F (mj_canary_path m) w'"
  shows "\<exists>ok. snd (snd (managed_cleanup (watch_canary F) (watch_jail J) m (w, []))) =
    [StopSet, InnerCleanup False, Unlinked (mj_canary_path m) ok]"
  using assms
  by (auto simp: managed_cleanup_def signal_stop_heartbeat_def delete_canary_def with_ctx_def watch_canary_ops
      watch_jail_ops split: sum.splits prod.splits)

section \<open>The heartbeat thread\<close>

text \<open>
  The loop of the heartbeat thread and the phases of the owner of the jail, on the canary file. The thread reads the
  stop flag, touches the canary, which sets the modification time or creates the file anew but may fail, and sleeps
  for the interval. Time passes as long as the thread is not more than \<open>slack\<close> late: the thread is due at the end of
  its sleep, and then until it sleeps again. The owner signals the stop, removes the canary in \<open>cleanup\<close> without waiting
  for the thread, and in \<open>Drop\<close> after joining it; the removal may fail.
\<close>

datatype beat_pc = Checking | Touching | Sleeping nat | Ended

datatype owner_pc = OwnerRunning | StopSent | CleanedUp | JoinedThread | Dropped

text \<open>\<open>hb_due\<close> is the end of the last sleep, \<open>hb_misses\<close> the number of failed touches since the last successful one.\<close>

record beat_state =
  hb_now :: nat
  hb_mtime :: "nat option"
  hb_beat :: beat_pc
  hb_due :: nat
  hb_misses :: nat
  hb_stop :: bool
  hb_owner :: owner_pc

definition beat_init :: "nat \<Rightarrow> beat_state" where
  "beat_init t =
     \<lparr>hb_now = t, hb_mtime = Some t, hb_beat = Checking, hb_due = t, hb_misses = 0, hb_stop = False, hb_owner = OwnerRunning\<rparr>"

definition due :: "beat_state \<Rightarrow> nat" where
  "due s = (case hb_beat s of Sleeping u \<Rightarrow> u | _ \<Rightarrow> hb_due s)"

inductive beat_step :: "nat \<Rightarrow> nat \<Rightarrow> beat_state \<Rightarrow> beat_state \<Rightarrow> bool" for interval slack where
  tick: "hb_now s \<le> t \<Longrightarrow> hb_beat s = Ended \<or> t \<le> due s + slack \<Longrightarrow> beat_step interval slack s (s\<lparr>hb_now := t\<rparr>)"
| check_go: "hb_beat s = Checking \<Longrightarrow> \<not> hb_stop s \<Longrightarrow> beat_step interval slack s (s\<lparr>hb_beat := Touching\<rparr>)"
| check_stop: "hb_beat s = Checking \<Longrightarrow> hb_stop s \<Longrightarrow> beat_step interval slack s (s\<lparr>hb_beat := Ended\<rparr>)"
| touch: "hb_beat s = Touching \<Longrightarrow> beat_step interval slack s
    (s\<lparr>hb_mtime := Some (hb_now s), hb_beat := Sleeping (hb_now s + interval), hb_misses := 0\<rparr>)"
| touch_fails: "hb_beat s = Touching \<Longrightarrow> beat_step interval slack s
    (s\<lparr>hb_beat := Sleeping (hb_now s + interval), hb_misses := Suc (hb_misses s)\<rparr>)"
| wake: "hb_beat s = Sleeping u \<Longrightarrow> u \<le> hb_now s \<Longrightarrow> beat_step interval slack s (s\<lparr>hb_beat := Checking, hb_due := u\<rparr>)"
| signal: "hb_owner s = OwnerRunning \<Longrightarrow> beat_step interval slack s (s\<lparr>hb_stop := True, hb_owner := StopSent\<rparr>)"
| cleanup: "hb_owner s = StopSent \<Longrightarrow> mt \<in> {None, hb_mtime s} \<Longrightarrow>
    beat_step interval slack s (s\<lparr>hb_mtime := mt, hb_owner := CleanedUp\<rparr>)"
| join: "hb_owner s \<in> {StopSent, CleanedUp} \<Longrightarrow> hb_beat s = Ended \<Longrightarrow> beat_step interval slack s (s\<lparr>hb_owner := JoinedThread\<rparr>)"
| drop: "hb_owner s = JoinedThread \<Longrightarrow> mt \<in> {None, hb_mtime s} \<Longrightarrow>
    beat_step interval slack s (s\<lparr>hb_mtime := mt, hb_owner := Dropped\<rparr>)"

inductive_cases beat_stepE: "beat_step interval slack s s'"

abbreviation beat_reach :: "nat \<Rightarrow> nat \<Rightarrow> beat_state \<Rightarrow> beat_state \<Rightarrow> bool" where
  "beat_reach interval slack \<equiv> (beat_step interval slack)\<^sup>*\<^sup>*"

text \<open>
  The thread is late by at most the slack and sleeps for at most the interval. While the owner runs, the canary exists
  and the time at which the thread is due follows its modification time by one interval per failed touch and one more.
\<close>

definition timely :: "nat \<Rightarrow> nat \<Rightarrow> beat_state \<Rightarrow> bool" where
  "timely interval slack s =
     (hb_beat s \<noteq> Ended \<longrightarrow> hb_now s \<le> due s + slack \<and> due s \<le> hb_now s + interval \<and>
        (hb_beat s \<in> {Checking, Touching} \<longrightarrow> hb_due s \<le> hb_now s))"

definition beat_inv :: "nat \<Rightarrow> nat \<Rightarrow> beat_state \<Rightarrow> bool" where
  "beat_inv interval slack s =
     ((hb_owner s = OwnerRunning \<longrightarrow> \<not> hb_stop s \<and> hb_beat s \<noteq> Ended \<and>
         (\<exists>m. hb_mtime s = Some m \<and> m \<le> hb_now s \<and>
            due s \<le> m + Suc (hb_misses s) * interval + hb_misses s * slack)) \<and>
      (hb_owner s \<in> {JoinedThread, Dropped} \<longrightarrow> hb_beat s = Ended))"

lemma timely_step: "beat_step interval slack s s' \<Longrightarrow> timely interval slack s \<Longrightarrow> timely interval slack s'"
  by (induction rule: beat_step.induct) (auto simp: timely_def due_def split: beat_pc.splits)

lemma timely_reach:
  assumes "beat_reach interval slack (beat_init t) s"
  shows "timely interval slack s"
  using assms
proof (induction rule: rtranclp_induct)
  case base
  show ?case by (simp add: beat_init_def timely_def due_def)
qed (rule timely_step)

lemma beat_inv_step:
  "beat_step interval slack s s' \<Longrightarrow> timely interval slack s \<Longrightarrow> beat_inv interval slack s \<Longrightarrow> beat_inv interval slack s'"
  by (induction rule: beat_step.induct) (auto simp: beat_inv_def timely_def due_def split: beat_pc.splits)

lemma beat_inv_reach:
  assumes "beat_reach interval slack (beat_init t) s"
  shows "beat_inv interval slack s"
  using assms
proof (induction rule: rtranclp_induct)
  case base
  show ?case by (simp add: beat_inv_def beat_init_def due_def)
next
  case (step s s')
  then show ?case using timely_reach beat_inv_step by blast
qed

text \<open>
  (C19) While its owner runs, a jail is never taken for an orphan as long as touches do not fail too often: in every
  reachable state of the thread and its owner the canary exists, and it is not stale, at whatever moment another process
  scans, if the touches that failed since the last successful one, and one more, take no longer than the orphan timeout,
  each with the heartbeat interval and the scheduling delay of the thread. Once the owner has joined the thread, the
  thread has ended, so that a canary that is then removed is not created again.
\<close>

theorem live_jail_not_orphaned:
  assumes "beat_reach interval slack (beat_init t) s"
    and "Suc (hb_misses s) * (interval + slack) \<le> orphan_timeout"
  shows "(hb_owner s = OwnerRunning \<longrightarrow> (\<exists>m. hb_mtime s = Some m \<and> \<not> canary_stale orphan_timeout (hb_now s) m)) \<and>
    (hb_owner s \<in> {JoinedThread, Dropped} \<longrightarrow> hb_beat s = Ended)"
proof -
  have "Suc (hb_misses s) * (interval + slack) = Suc (hb_misses s) * interval + hb_misses s * slack + slack"
    by (simp add: algebra_simps)
  then show ?thesis
    using beat_inv_reach [OF assms(1)] timely_reach [OF assms(1)] assms(2)
    by (auto simp: beat_inv_def timely_def canary_stale_def)
qed

lemma default_heartbeat_fits:
  "from_secs (heartbeat_interval_secs (fst (jail_config_new gen w))) + 9000000000 =
   from_secs (orphan_timeout_secs (fst (jail_config_new gen w)))"
  by (simp add: jail_config_new_def from_secs_def split: prod.splits)

text \<open>With the default interval and timeout and a delay of one second: the first touch has failed.\<close>

theorem live_jail_not_orphaned_witness:
  "let s = (beat_init 0)\<lparr>hb_now := 2000000000, hb_beat := Sleeping 1000000000, hb_misses := 1\<rparr>
   in beat_reach 1000000000 1000000000 (beat_init 0) s \<and> \<not> canary_stale 10000000000 (hb_now s) 0"
proof -
  let ?s1 = "(beat_init 0)\<lparr>hb_beat := Touching\<rparr>"
  let ?s2 = "(beat_init 0)\<lparr>hb_beat := Sleeping 1000000000, hb_misses := 1\<rparr>"
  let ?s3 = "(beat_init 0)\<lparr>hb_now := 2000000000, hb_beat := Sleeping 1000000000, hb_misses := 1\<rparr>"
  have "beat_step 1000000000 1000000000 (beat_init 0) ?s1" by (rule beat_step.check_go) (simp_all add: beat_init_def)
  moreover have "beat_step 1000000000 1000000000 ?s1 ?s2"
    using beat_step.touch_fails [of ?s1 1000000000 1000000000] by (simp add: beat_init_def)
  moreover have "beat_step 1000000000 1000000000 ?s2 ?s3"
    using beat_step.tick [of ?s2 2000000000 1000000000 1000000000] by (simp add: beat_init_def due_def)
  ultimately have r: "beat_reach 1000000000 1000000000 (beat_init 0) ?s3" by simp
  with live_jail_not_orphaned [OF r, of 10000000000] show ?thesis by (simp add: beat_init_def)
qed

text \<open>
  (C20) Joining the heartbeat thread does not block for ever: from every reachable state in which the
  stop flag is set, the thread can run to its end without any step of the owner, touching the canary at
  most once more.
\<close>

theorem heartbeat_stops:
  assumes "beat_reach interval slack (beat_init t) s" and "hb_stop s"
  shows "\<exists>s'. beat_reach interval slack s s' \<and> hb_beat s' = Ended \<and> hb_owner s' = hb_owner s \<and>
    (hb_mtime s' = hb_mtime s \<or> hb_beat s = Touching \<and> hb_mtime s' = Some (hb_now s))"
proof -
  have late: "hb_now s \<le> due s + slack" if "hb_beat s \<noteq> Ended"
    using timely_reach [OF assms(1)] that by (simp add: timely_def)
  have check: "beat_reach interval slack q (q\<lparr>hb_beat := Ended\<rparr>)" if "hb_beat q = Checking" "hb_stop q" for q
    using beat_step.check_stop [OF that] by blast
  have sleep: "\<exists>s'. beat_reach interval slack q s' \<and> hb_beat s' = Ended \<and> hb_owner s' = hb_owner q \<and> hb_mtime s' = hb_mtime q"
    if "hb_beat q = Sleeping u" "hb_stop q" "hb_now q \<le> u + slack" for q u
  proof -
    let ?q = "q\<lparr>hb_now := max u (hb_now q)\<rparr>"
    let ?e = "?q\<lparr>hb_beat := Checking, hb_due := u\<rparr>"
    have "beat_step interval slack q ?q" using that by (intro beat_step.tick) (auto simp: due_def)
    moreover have "beat_step interval slack ?q ?e" using that by (intro beat_step.wake) auto
    moreover have "beat_reach interval slack ?e (?e\<lparr>hb_beat := Ended\<rparr>)" using that by (intro check) auto
    ultimately have "beat_reach interval slack q (?e\<lparr>hb_beat := Ended\<rparr>)"
      by (meson converse_rtranclp_into_rtranclp)
    then show ?thesis by (intro exI [of _ "?e\<lparr>hb_beat := Ended\<rparr>"]) simp
  qed
  show ?thesis
  proof (cases "hb_beat s")
    case Checking
    with check [of s] assms(2) show ?thesis by (intro exI [of _ "s\<lparr>hb_beat := Ended\<rparr>"]) simp
  next
    case Touching
    let ?q = "s\<lparr>hb_mtime := Some (hb_now s), hb_beat := Sleeping (hb_now s + interval), hb_misses := 0\<rparr>"
    have "beat_step interval slack s ?q" using Touching by (rule beat_step.touch)
    with sleep [of ?q "hb_now s + interval"] assms(2) Touching show ?thesis
      by (auto intro: converse_rtranclp_into_rtranclp)
  next
    case (Sleeping u)
    with sleep [of s u] assms(2) late show ?thesis by (auto simp: due_def)
  next
    case Ended
    then show ?thesis by (intro exI [of _ s]) simp
  qed
qed

lemma touching_reach: "beat_reach interval slack (beat_init t) ((beat_init t)\<lparr>hb_beat := Touching\<rparr>)"
  by (rule r_into_rtranclp, rule beat_step.check_go) (simp_all add: beat_init_def)

lemma signalled_reach:
  "beat_reach interval slack (beat_init t) ((beat_init t)\<lparr>hb_beat := Touching, hb_stop := True, hb_owner := StopSent\<rparr>)"
  by (rule rtranclp.rtrancl_into_rtrancl [OF touching_reach], rule beat_step.signal) (simp add: beat_init_def)

theorem heartbeat_stops_witness:
  "\<exists>s'. beat_reach 1 0 ((beat_init 0)\<lparr>hb_beat := Touching, hb_stop := True, hb_owner := StopSent\<rparr>) s' \<and>
     hb_beat s' = Ended \<and> hb_mtime s' = Some 0"
proof -
  have h: "hb_stop ((beat_init 0)\<lparr>hb_beat := Touching, hb_stop := True, hb_owner := StopSent\<rparr>)" by simp
  from heartbeat_stops [OF signalled_reach [of 1 0 0] h] show ?thesis by (auto simp: beat_init_def)
qed

text \<open>
  How far the thread is from its end once the flag is set, and until when it can still be running: the pass
  that is under way can touch the canary once more and then sleeps.
\<close>

fun beats_left :: "beat_pc \<Rightarrow> nat" where
  "beats_left Touching = 3"
| "beats_left (Sleeping _) = 2"
| "beats_left Checking = 1"
| "beats_left Ended = 0"

definition latest_end :: "nat \<Rightarrow> nat \<Rightarrow> beat_state \<Rightarrow> nat" where
  "latest_end interval slack s =
     (if hb_beat s = Touching then due s + slack + interval + slack else due s + slack)"

lemma stop_kept: "beat_step interval slack s s' \<Longrightarrow> hb_stop s \<Longrightarrow> hb_stop s'"
  by (auto elim!: beat_stepE)

lemma beats_left_step:
  "beat_step interval slack s s' \<Longrightarrow> hb_stop s \<Longrightarrow>
     (if hb_beat s \<noteq> hb_beat s' then 1 else 0) + beats_left (hb_beat s') \<le> beats_left (hb_beat s)"
  by (auto elim!: beat_stepE)

lemma latest_end_step:
  "beat_step interval slack s s' \<Longrightarrow> hb_stop s \<Longrightarrow> timely interval slack s \<Longrightarrow> hb_beat s' \<noteq> Ended \<Longrightarrow>
     latest_end interval slack s' \<le> latest_end interval slack s"
  by (induction rule: beat_step.induct) (auto simp: latest_end_def timely_def due_def split: beat_pc.splits)

lemma latest_end_reach:
  assumes "beat_reach interval slack s s'" and "beat_reach interval slack (beat_init t) s"
    and "hb_stop s" and "hb_beat s' \<noteq> Ended"
  shows "hb_stop s' \<and> latest_end interval slack s' \<le> latest_end interval slack s"
  using assms(1,4)
proof (induction rule: rtranclp_induct)
  case (step q q')
  from step.hyps(2) step.prems have "hb_beat q \<noteq> Ended" by (auto elim!: beat_stepE)
  moreover have "beat_reach interval slack (beat_init t) q" using assms(2) step.hyps(1) by simp
  ultimately show ?case
    using step.IH stop_kept [OF step.hyps(2)] latest_end_step [OF step.hyps(2)] timely_reach step.prems
    by (meson le_trans)
qed (use assms(3) in simp)

lemma bounded_changes:
  assumes "\<And>n. card (S \<inter> {..<n}) \<le> k"
  shows "finite (S :: nat set) \<and> card S \<le> k"
proof -
  have "finite S"
  proof (rule ccontr)
    assume "infinite S"
    then obtain F where F: "F \<subseteq> S" "finite F" "card F = Suc k" using infinite_arbitrarily_large by blast
    then obtain n where "F \<subseteq> {..<n}" by (auto simp: finite_nat_set_iff_bounded)
    with F card_mono [of "S \<inter> {..<n}" F] assms [of n] show False by auto
  qed
  then obtain n where "S \<subseteq> {..<n}" by (auto simp: finite_nat_set_iff_bounded)
  with assms [of n] \<open>finite S\<close> show ?thesis by (simp add: Int_absorb2)
qed

lemma changes_bounded:
  assumes "\<And>i. beat_step interval slack (f i) (f (Suc i))" and "hb_stop (f 0)"
  shows "hb_stop (f n) \<and>
    card ({i. hb_beat (f i) \<noteq> hb_beat (f (Suc i))} \<inter> {..<n}) + beats_left (hb_beat (f n)) \<le> beats_left (hb_beat (f 0))"
proof (induction n)
  case (Suc n)
  have "{i. hb_beat (f i) \<noteq> hb_beat (f (Suc i))} \<inter> {..<Suc n} =
      (if hb_beat (f n) \<noteq> hb_beat (f (Suc n)) then insert n else id)
        ({i. hb_beat (f i) \<noteq> hb_beat (f (Suc i))} \<inter> {..<n})"
    by (auto simp: less_Suc_eq)
  with Suc.IH beats_left_step [OF assms(1) [of n]] stop_kept [OF assms(1) [of n]] show ?case by (auto split: if_splits)
qed (use assms(2) in simp)

text \<open>
  (C21) The heartbeat thread terminates: in every infinite run of the thread and its owner that starts in a reachable
  state with the stop flag set, the thread makes at most three more steps, and it has ended once more than the
  interval, which it can still sleep through once, and twice the scheduling delay has passed.
\<close>

theorem heartbeat_terminates:
  assumes "beat_reach interval slack (beat_init t) (f 0)" and "hb_stop (f 0)"
    and "\<forall>i. beat_step interval slack (f i) (f (Suc i))"
  shows "finite {i. hb_beat (f i) \<noteq> hb_beat (f (Suc i))} \<and> card {i. hb_beat (f i) \<noteq> hb_beat (f (Suc i))} \<le> 3 \<and>
    (hb_now (f n) > hb_now (f 0) + interval + 2 * slack \<longrightarrow> hb_beat (f n) = Ended)"
proof -
  have "beats_left pc \<le> 3" for pc by (cases pc) simp_all
  then have "card ({i. hb_beat (f i) \<noteq> hb_beat (f (Suc i))} \<inter> {..<k}) \<le> 3" for k
    using changes_bounded [of interval slack f k] assms(2,3) by (meson add_leD1 le_trans)
  note c = bounded_changes [OF this]
  have r: "beat_reach interval slack (f 0) (f k)" for k
    by (induction k) (use assms(3) in \<open>auto intro: rtranclp.rtrancl_into_rtrancl\<close>)
  have "hb_now (f n) \<le> hb_now (f 0) + interval + 2 * slack" if "hb_beat (f n) \<noteq> Ended"
  proof -
    have z: "hb_beat (f 0) \<noteq> Ended"
      using r [of n] that by (induction rule: converse_rtranclp_induct) (auto elim!: beat_stepE)
    have "beat_reach interval slack (beat_init t) (f n)" using assms(1) r by (rule rtranclp_trans)
    from timely_reach [OF this] that have "hb_now (f n) \<le> latest_end interval slack (f n)"
      by (simp add: latest_end_def timely_def)
    also have "\<dots> \<le> latest_end interval slack (f 0)" using latest_end_reach [OF r assms(1,2) that] by simp
    also have "\<dots> \<le> hb_now (f 0) + interval + 2 * slack"
      using timely_reach [OF assms(1)] z by (auto simp: latest_end_def timely_def due_def)
    finally show ?thesis .
  qed
  with c show ?thesis by linarith
qed

text \<open>The thread touches when the flag is set, sleeps for an interval, wakes, ends, and the time goes on.\<close>

definition stopped_run :: "nat \<Rightarrow> beat_state" where
  "stopped_run i =
     (let s = (beat_init 0)\<lparr>hb_beat := Touching, hb_stop := True, hb_owner := StopSent\<rparr>;
          z = s\<lparr>hb_mtime := Some 0, hb_beat := Sleeping 1\<rparr>
      in if i = 0 then s else if i = 1 then z else if i = 2 then z\<lparr>hb_now := 1\<rparr>
         else if i = 3 then z\<lparr>hb_now := 1, hb_beat := Checking, hb_due := 1\<rparr>
         else z\<lparr>hb_beat := Ended, hb_due := 1, hb_now := i - 3\<rparr>)"

lemma stopped_run_steps: "beat_step 1 0 (stopped_run i) (stopped_run (Suc i))"
proof -
  consider "i = 0" | "i = 1" | "i = 2" | "i = 3" | "4 \<le> i" by linarith
  then show ?thesis
  proof cases
    case 1
    have "beat_step 1 0 (stopped_run 0) ((stopped_run 0)\<lparr>hb_mtime := Some (hb_now (stopped_run 0)),
        hb_beat := Sleeping (hb_now (stopped_run 0) + 1), hb_misses := 0\<rparr>)"
      by (rule beat_step.touch) (simp add: stopped_run_def)
    with 1 show ?thesis by (simp add: stopped_run_def beat_init_def)
  next
    case 2
    have "beat_step 1 0 (stopped_run 1) ((stopped_run 1)\<lparr>hb_now := 1\<rparr>)"
      by (rule beat_step.tick) (simp_all add: stopped_run_def beat_init_def due_def)
    with 2 show ?thesis by (simp add: stopped_run_def)
  next
    case 3
    have "beat_step 1 0 (stopped_run 2) ((stopped_run 2)\<lparr>hb_beat := Checking, hb_due := 1\<rparr>)"
      by (rule beat_step.wake [of _ 1]) (simp_all add: stopped_run_def)
    with 3 show ?thesis by (simp add: stopped_run_def)
  next
    case 4
    have "beat_step 1 0 (stopped_run 3) ((stopped_run 3)\<lparr>hb_beat := Ended\<rparr>)"
      by (rule beat_step.check_stop) (simp_all add: stopped_run_def)
    with 4 show ?thesis by (simp add: stopped_run_def beat_init_def)
  next
    case 5
    then have "beat_step 1 0 (stopped_run i) ((stopped_run i)\<lparr>hb_now := Suc i - 3\<rparr>)"
      by (intro beat_step.tick) (simp_all add: stopped_run_def)
    with 5 show ?thesis by (simp add: stopped_run_def)
  qed
qed

theorem heartbeat_terminates_witness:
  "card {i. hb_beat (stopped_run i) \<noteq> hb_beat (stopped_run (Suc i))} \<le> 3 \<and>
   hb_now (stopped_run 9) > hb_now (stopped_run 0) + 1 \<and> hb_beat (stopped_run 9) = Ended"
proof -
  have r: "beat_reach 1 0 (beat_init 0) (stopped_run 0)"
    using signalled_reach [of 1 0 0] by (simp add: stopped_run_def)
  have s: "hb_stop (stopped_run 0)" by (simp add: stopped_run_def)
  have "\<forall>i. beat_step 1 0 (stopped_run i) (stopped_run (Suc i))" using stopped_run_steps by blast
  from heartbeat_terminates [OF r s this, of 9] show ?thesis by (simp add: stopped_run_def beat_init_def)
qed

text \<open>
  The cleanup operation only signals the thread: it can be between the check of the flag and its touch, and
  then creates the canary again after the cleanup has removed it.
\<close>

lemma cleanup_race:
  "\<exists>s s' u. beat_reach interval slack (beat_init t) s \<and> hb_owner s = CleanedUp \<and> hb_mtime s = None \<and>
     beat_step interval slack s s' \<and> hb_mtime s' = Some u"
proof -
  let ?a = "(beat_init t)\<lparr>hb_beat := Touching, hb_stop := True, hb_owner := StopSent\<rparr>"
  let ?b = "?a\<lparr>hb_mtime := None, hb_owner := CleanedUp\<rparr>"
  have "beat_step interval slack ?a ?b" by (rule beat_step.cleanup) simp_all
  with signalled_reach [of interval slack t] have "beat_reach interval slack (beat_init t) ?b"
    by (rule rtranclp.rtrancl_into_rtrancl)
  moreover have "beat_step interval slack ?b (?b\<lparr>hb_mtime := Some (hb_now ?b),
      hb_beat := Sleeping (hb_now ?b + interval), hb_misses := 0\<rparr>)"
    by (rule beat_step.touch) simp
  ultimately show ?thesis by (intro exI conjI) (assumption | simp)+
qed

section \<open>The contract of a jail\<close>

text \<open>
  What the life cycle relies on: the cleanup of a jail, and the cleanup of an orphan with the same
  identifier, clean up the jail's resources, where \<open>cleaned jid w w'\<close> says what that means of the world
  before and after.
\<close>

locale jail_contract =
  fixes J :: "('j, 'w) jail_ops" and cleaned :: "string \<Rightarrow> 'w \<Rightarrow> 'w \<Rightarrow> bool"
  assumes cleanup_cleans: "cleaned (jail_ident J j) w (snd (jail_cleanup J j w))"
    and orphan_cleans: "cleaned jid w (snd (jail_cleanup_orphaned J jid w))"

text \<open>The weak jail has no resources, and its cleanup changes nothing.\<close>

interpretation weak: jail_contract "weak_jail run env_var" "\<lambda>_ w w'. w' = w" for run env_var
  by unfold_locales (simp_all add: weak_jail_def)

text \<open>Managing a jail keeps its contract, given files and threads that do not touch its resources.\<close>

locale managed_contract = jail_contract J cleaned
  for J :: "('j, 'w) jail_ops" and cleaned +
  fixes F :: "'w canary_ops"
  assumes remove_quiet: "cleaned jid w (snd (fs_remove_file F p w')) = cleaned jid w w'"
    and stop_quiet: "cleaned jid (set_stop_flag F w) w' = cleaned jid w w'"
begin

lemma delete_canary_quiet: "cleaned jid w (snd (delete_canary F m w')) = cleaned jid w w'"
  by (simp add: delete_canary_def with_ctx_def remove_quiet)

lemma signal_stop_quiet: "cleaned jid (signal_stop_heartbeat F m w) w' = cleaned jid w w'"
  by (simp add: signal_stop_heartbeat_def stop_quiet)

lemma managed_cleanup_cleans: "cleaned (jail_ident J (mj_jail m)) w (snd (managed_cleanup F J m w))"
proof -
  obtain r w1 where c: "jail_cleanup J (mj_jail m) (signal_stop_heartbeat F m w) = (r, w1)" by fastforce
  obtain r2 w2 where d: "delete_canary F m w1 = (r2, w2)" by fastforce
  have "cleaned (jail_ident J (mj_jail m)) w w1"
    using cleanup_cleans [of "mj_jail m" "signal_stop_heartbeat F m w"] c by (simp add: signal_stop_quiet)
  moreover have "cleaned (jail_ident J (mj_jail m)) w w2 = cleaned (jail_ident J (mj_jail m)) w w1"
    using delete_canary_quiet [of "jail_ident J (mj_jail m)" w m w1] d by simp
  ultimately show ?thesis by (cases r2) (simp_all add: managed_cleanup_def c d)
qed

end

sublocale managed_contract \<subseteq> managed: jail_contract "managed_jail_ops F J" cleaned
  by unfold_locales (simp_all add: managed_jail_ops_def managed_cleanup_cleans orphan_cleans)

end
