(* ===== verification/Jail_Lifecycle.thy ===== *)
theory Jail_Lifecycle
  imports Docker Managed_Jail
begin

text \<open>
  The jails that \<open>create_jail\<close> returns, put together: the Linux jail and the Docker jail meet the contract
  of \<^theory_text>\<open>jail_contract\<close> for the resources of the Linux jail, and so do the managed jails around them.
\<close>

text \<open>
  A jail's resources are cleaned up: after the events in between, a resource that is still held is one whose deletion
  the operating system refused among these events.
\<close>

definition cleaned_linux :: "string \<Rightarrow> 'w \<times> sys_event list \<Rightarrow> 'w \<times> sys_event list \<Rightarrow> bool" where
  "cleaned_linux jid st st' =
     (\<exists>es. snd st' = snd st @ es \<and> held jid (snd st') \<subseteq> refusals jid es)"

lemma clears_cleaned: "clears jid UNIV (snd st) (snd st') \<Longrightarrow> cleaned_linux jid st st'"
  by (auto simp: cleaned_linux_def elim!: clears_held)

text \<open>The files and threads of the life cycle do not appear in the account of the jail's resources.\<close>

definition lift_canary :: "'w canary_ops \<Rightarrow> ('w \<times> 'e) canary_ops" where
  "lift_canary F =
     \<lparr>fs_exists = (\<lambda>p st. fs_exists F p (fst st)),
      fs_is_file = (\<lambda>p st. fs_is_file F p (fst st)),
      fs_create_dir_all = (\<lambda>p st. case fs_create_dir_all F p (fst st) of (r, w) \<Rightarrow> (r, w, snd st)),
      fs_read_dir = (\<lambda>p st. case fs_read_dir F p (fst st) of (r, w) \<Rightarrow> (r, w, snd st)),
      fs_metadata = (\<lambda>p st. case fs_metadata F p (fst st) of (r, w) \<Rightarrow> (r, w, snd st)),
      fs_write_empty = (\<lambda>p st. case fs_write_empty F p (fst st) of (r, w) \<Rightarrow> (r, w, snd st)),
      fs_remove_file = (\<lambda>p st. case fs_remove_file F p (fst st) of (r, w) \<Rightarrow> (r, w, snd st)),
      fs_set_times = (\<lambda>p a m st. case fs_set_times F p a m (fst st) of (r, w) \<Rightarrow> (r, w, snd st)),
      time_now = (\<lambda>st. case time_now F (fst st) of (r, w) \<Rightarrow> (r, w, snd st)),
      set_stop_flag = (\<lambda>st. (set_stop_flag F (fst st), snd st)),
      spawn_heartbeat = (\<lambda>p i st. (spawn_heartbeat F p i (fst st), snd st)),
      join_heartbeat = (\<lambda>st. case join_heartbeat F (fst st) of (r, w) \<Rightarrow> (r, w, snd st))\<rparr>"

interpretation linux: jail_contract "linux_jail_ops uid env_var (watch_sys S) (watch_dns D)" cleaned_linux
  for uid env_var S D
proof unfold_locales
  fix j :: linux_jail and jid and st :: "'a \<times> sys_event list"
  show "cleaned_linux (jail_ident (linux_jail_ops uid env_var (watch_sys S) (watch_dns D)) j) st
      (snd (jail_cleanup (linux_jail_ops uid env_var (watch_sys S) (watch_dns D)) j st))"
    using linux_cleanup_clears [of j "snd st" S "fst st"] by (simp add: linux_jail_ops_def clears_cleaned)
  show "cleaned_linux jid st (snd (jail_cleanup_orphaned (linux_jail_ops uid env_var (watch_sys S) (watch_dns D)) jid st))"
    using linux_orphan_clears(2) [of jid "snd st" S "fst st"] by (simp add: linux_jail_ops_def clears_cleaned)
qed

interpretation docker: jail_contract "docker_jail_ops hash uid (watch_sys S) (watch_dns D) exists dir" cleaned_linux
  for hash uid S D exists dir
proof unfold_locales
  fix j :: docker_jail and jid and st :: "'a \<times> sys_event list"
  show "cleaned_linux (jail_ident (docker_jail_ops hash uid (watch_sys S) (watch_dns D) exists dir) j) st
      (snd (jail_cleanup (docker_jail_ops hash uid (watch_sys S) (watch_dns D) exists dir) j st))"
    using linux_cleanup_clears [of "dk_inner j" "snd st" S "fst st"]
    by (simp add: docker_jail_ops_def docker_cleanup_def clears_cleaned)
  show "cleaned_linux jid st
      (snd (jail_cleanup_orphaned (docker_jail_ops hash uid (watch_sys S) (watch_dns D) exists dir) jid st))"
    using docker_orphan_clears [of jid "snd st" hash S "fst st"] by (simp add: docker_jail_ops_def clears_cleaned)
qed

interpretation managed_linux: managed_contract
  "linux_jail_ops uid env_var (watch_sys S) (watch_dns D)" cleaned_linux "lift_canary F"
  for uid env_var S D F
  by unfold_locales (simp_all add: cleaned_linux_def lift_canary_def split: prod.splits)

interpretation managed_docker: managed_contract
  "docker_jail_ops hash uid (watch_sys S) (watch_dns D) exists dir" cleaned_linux "lift_canary F"
  for hash uid S D exists dir F
  by unfold_locales (simp_all add: cleaned_linux_def lift_canary_def split: prod.splits)

text \<open>
  (C9) The cleanup of the jail that runs on Linux, a managed Linux jail, and the cleanup of its identifier as an
  orphan ask the operating system to delete every network resource the jail holds, whatever happened before: what is
  still held afterwards is a resource whose deletion the operating system refused during this cleanup, so that nothing
  is held if it refuses nothing. The same is true of the Linux part of a managed Docker jail.
\<close>

theorem managed_cleanup_leaves_only_refused:
  "cleaned_linux (lj_id (mj_jail m)) (w, tr) (snd (jail_cleanup
     (managed_jail_ops (lift_canary F) (linux_jail_ops uid env_var (watch_sys S) (watch_dns D))) m (w, tr))) \<and>
   cleaned_linux jid (w, tr) (snd (jail_cleanup_orphaned
     (managed_jail_ops (lift_canary F) (linux_jail_ops uid env_var (watch_sys S) (watch_dns D))) jid (w, tr))) \<and>
   cleaned_linux (lj_id (dk_inner (mj_jail d))) (w, tr) (snd (jail_cleanup
     (managed_jail_ops (lift_canary F) (docker_jail_ops hash uid (watch_sys S) (watch_dns D) exists dir)) d (w, tr))) \<and>
   cleaned_linux jid (w, tr) (snd (jail_cleanup_orphaned
     (managed_jail_ops (lift_canary F) (docker_jail_ops hash uid (watch_sys S) (watch_dns D) exists dir)) jid (w, tr)))"
proof -
  let ?L = "linux_jail_ops uid env_var (watch_sys S) (watch_dns D)"
  let ?D = "docker_jail_ops hash uid (watch_sys S) (watch_dns D) exists dir"
  have id: "jail_ident (managed_jail_ops (lift_canary F) ?L) m = lj_id (mj_jail m)"
    "jail_ident (managed_jail_ops (lift_canary F) ?D) d = lj_id (dk_inner (mj_jail d))"
    by (simp_all add: managed_jail_ops_def linux_jail_ops_def docker_jail_ops_def)
  show ?thesis
    using managed_linux.managed.cleanup_cleans [of F uid env_var S D m "(w, tr)"]
      managed_linux.managed.orphan_cleans [of jid "(w, tr)" F uid env_var S D]
      managed_docker.managed.cleanup_cleans [of F hash uid S D exists dir d "(w, tr)"]
      managed_docker.managed.orphan_cleans [of jid "(w, tr)" F hash uid S D exists dir]
    by (simp only: id simp_thms)
qed

end
