(* ===== verification/Net_Addr.thy ===== *)
theory Net_Addr
  imports Proxy Linux_Net
begin

text \<open>
  The parser of \<open>std::net\<close> for IP addresses and socket addresses, which the start-up code applies to the
  bind variables of the environment: a reader takes what it can from the front of a text, and a parse
  succeeds if nothing is left. With it, what it reads back of the addresses that the program prints.
\<close>

section \<open>Readers\<close>

type_synonym 'a reader = "string \<Rightarrow> ('a \<times> string) option"

definition radix_digit :: "nat \<Rightarrow> char \<Rightarrow> nat option" where
  "radix_digit radix c =
     (let n = of_char c :: nat;
          d = (if 48 \<le> n \<and> n \<le> 57 then n - 48
               else if 97 \<le> n \<and> n \<le> 122 then n - 87
               else if 65 \<le> n \<and> n \<le> 90 then n - 55 else radix)
      in if d < radix then Some d else None)"

text \<open>
  \<open>read_number\<close>: the value stays below \<open>bound\<close>, at most \<open>max_digits\<close> digits are taken and a zero in
  front of other digits may be forbidden.
\<close>

fun read_digits :: "nat \<Rightarrow> nat \<Rightarrow> nat option \<Rightarrow> nat \<Rightarrow> nat \<Rightarrow> string \<Rightarrow> (nat \<times> nat \<times> string) option" where
  "read_digits radix bound max_digits acc count [] = Some (acc, count, [])"
| "read_digits radix bound max_digits acc count (c # cs) =
     (case radix_digit radix c of
        None \<Rightarrow> Some (acc, count, c # cs)
      | Some d \<Rightarrow>
          (if bound \<le> acc * radix + d then None
           else if (case max_digits of Some m \<Rightarrow> m < count + 1 | None \<Rightarrow> False) then None
           else read_digits radix bound max_digits (acc * radix + d) (count + 1) cs))"

definition read_number :: "nat \<Rightarrow> nat option \<Rightarrow> bool \<Rightarrow> nat \<Rightarrow> nat reader" where
  "read_number radix max_digits allow_zero_prefix bound s =
     (case read_digits radix bound max_digits 0 0 s of
        None \<Rightarrow> None
      | Some (n, count, rest) \<Rightarrow>
          (if count = 0 \<or> (\<not> allow_zero_prefix \<and> hd s = CHR ''0'' \<and> 1 < count) then None else Some (n, rest)))"

definition read_given_char :: "char \<Rightarrow> unit reader" where
  "read_given_char c s = (case s of d # ds \<Rightarrow> (if d = c then Some ((), ds) else None) | [] \<Rightarrow> None)"

definition read_separator :: "char \<Rightarrow> nat \<Rightarrow> 'a reader \<Rightarrow> 'a reader" where
  "read_separator sep index inner_reader s =
     (if 0 < index
      then (case read_given_char sep s of Some (_, rest) \<Rightarrow> inner_reader rest | None \<Rightarrow> None)
      else inner_reader s)"

definition octet :: "nat reader" where
  "octet = read_number 10 (Some 3) False 256"

definition read_ipv4_addr :: "nat list reader" where
  "read_ipv4_addr s =
     (case octet s of None \<Rightarrow> None | Some (a, s) \<Rightarrow>
      case read_separator (CHR ''.'') 1 octet s of None \<Rightarrow> None | Some (b, s) \<Rightarrow>
      case read_separator (CHR ''.'') 2 octet s of None \<Rightarrow> None | Some (c, s) \<Rightarrow>
      case read_separator (CHR ''.'') 3 octet s of None \<Rightarrow> None | Some (d, s) \<Rightarrow>
        Some ([a, b, c, d], s))"

text \<open>
  The groups of an IPv6 address from index \<open>i\<close> up to \<open>limit\<close>: the groups read, whether they end with an
  embedded IPv4 address, and the rest.
\<close>

function read_groups :: "nat \<Rightarrow> nat \<Rightarrow> string \<Rightarrow> nat list \<times> bool \<times> string" where
  "read_groups limit i s =
     (if limit \<le> i then ([], False, s)
      else case (if i + 1 < limit then read_separator (CHR '':'') i read_ipv4_addr s else None) of
             Some (q, rest) \<Rightarrow> ([256 * q ! 0 + q ! 1, 256 * q ! 2 + q ! 3], True, rest)
           | None \<Rightarrow>
               (case read_separator (CHR '':'') i (read_number 16 (Some 4) True 65536) s of
                  None \<Rightarrow> ([], False, s)
                | Some (g, rest) \<Rightarrow> (case read_groups limit (i + 1) rest of (gs, v4, rest) \<Rightarrow> (g # gs, v4, rest))))"
  by pat_completeness auto
termination by (relation "measure (\<lambda>(limit, i, s). limit - i)") auto

declare read_groups.simps [simp del]

definition read_ipv6_addr :: "nat list reader" where
  "read_ipv6_addr s =
     (case read_groups 8 0 s of (head, head_ipv4, s) \<Rightarrow>
        if length head = 8 then Some (head, s)
        else if head_ipv4 then None
        else case read_given_char (CHR '':'') s of None \<Rightarrow> None | Some (_, s) \<Rightarrow>
             case read_given_char (CHR '':'') s of None \<Rightarrow> None | Some (_, s) \<Rightarrow>
             case read_groups (8 - (length head + 1)) 0 s of (tail, _, s) \<Rightarrow>
               Some (head @ replicate (8 - length head - length tail) 0 @ tail, s))"

definition octets_word :: "nat list \<Rightarrow> u32" where
  "octets_word q = of_nat (foldl (\<lambda>n b. 256 * n + b) 0 q)"

definition groups_word :: "nat list \<Rightarrow> 128 word" where
  "groups_word gs = of_nat (foldl (\<lambda>n g. 65536 * n + g) 0 gs)"

definition read_ip_addr :: "ip_addr reader" where
  "read_ip_addr s =
     (case read_ipv4_addr s of
        Some (q, rest) \<Rightarrow> Some (V4 (octets_word q), rest)
      | None \<Rightarrow> map_option (\<lambda>(gs, rest). (V6 (groups_word gs), rest)) (read_ipv6_addr s))"

definition read_port :: "u16 reader" where
  "read_port s =
     (case read_given_char (CHR '':'') s of
        None \<Rightarrow> None
      | Some (_, s) \<Rightarrow> map_option (\<lambda>(n, rest). (of_nat n, rest)) (read_number 10 None True 65536 s))"

definition read_socket_addr_v4 :: "socket_addr reader" where
  "read_socket_addr_v4 s =
     (case read_ipv4_addr s of None \<Rightarrow> None | Some (q, s) \<Rightarrow>
      case read_port s of None \<Rightarrow> None | Some (port, s) \<Rightarrow>
        Some (\<lparr>addr_ip = V4 (octets_word q), addr_port = port\<rparr>, s))"

definition read_scope_id :: "string \<Rightarrow> string" where
  \<comment> \<open>the scope itself is not used by the program\<close>
  "read_scope_id s =
     (case read_given_char (CHR ''%'') s of
        None \<Rightarrow> s
      | Some (_, t) \<Rightarrow> (case read_number 10 None True (2 ^ 32) t of None \<Rightarrow> s | Some (_, rest) \<Rightarrow> rest))"

definition read_socket_addr_v6 :: "socket_addr reader" where
  "read_socket_addr_v6 s =
     (case read_given_char (CHR ''['') s of None \<Rightarrow> None | Some (_, s) \<Rightarrow>
      case read_ipv6_addr s of None \<Rightarrow> None | Some (gs, s) \<Rightarrow>
      case read_given_char (CHR '']'') (read_scope_id s) of None \<Rightarrow> None | Some (_, s) \<Rightarrow>
      case read_port s of None \<Rightarrow> None | Some (port, s) \<Rightarrow>
        Some (\<lparr>addr_ip = V6 (groups_word gs), addr_port = port\<rparr>, s))"

definition parse_with :: "'a reader \<Rightarrow> string \<Rightarrow> 'a option" where
  "parse_with r s = (case r s of Some (x, []) \<Rightarrow> Some x | _ \<Rightarrow> None)"

definition parse_ip_addr :: "string \<Rightarrow> ip_addr option" where
  "parse_ip_addr = parse_with read_ip_addr"

definition parse_socket_addr :: "string \<Rightarrow> socket_addr option" where
  "parse_socket_addr =
     parse_with (\<lambda>s. case read_socket_addr_v4 s of Some r \<Rightarrow> Some r | None \<Rightarrow> read_socket_addr_v6 s)"

section \<open>Reading back what is printed\<close>

lemma radix_digit_10: "radix_digit 10 c = digit_val c"
  by (auto simp: radix_digit_def digit_val_def Let_def)

definition ends_number :: "string \<Rightarrow> bool" where
  "ends_number rest = (case rest of c # _ \<Rightarrow> digit_val c = None | [] \<Rightarrow> True)"

lemma read_digits_run:
  "parse_digits bound acc ds = Some n \<Longrightarrow> (\<forall>m. max_digits = Some m \<longrightarrow> count + length ds \<le> m) \<Longrightarrow>
   read_digits 10 bound max_digits acc count (ds @ rest) = read_digits 10 bound max_digits n (count + length ds) rest"
proof (induction ds arbitrary: acc count)
  case (Cons c ds)
  then show ?case
    by (cases "digit_val c") (auto simp: radix_digit_10 split: if_splits option.splits)
qed simp

lemma read_digits_end: "ends_number rest \<Longrightarrow> read_digits 10 bound max_digits acc count rest = Some (acc, count, rest)"
  by (cases rest) (auto simp: ends_number_def radix_digit_10)

lemma dec_length_le: "n < 10 ^ k \<Longrightarrow> 0 < k \<Longrightarrow> length (dec n) \<le> k"
proof (induction n arbitrary: k rule: dec.induct)
  case (1 n)
  show ?case
  proof (cases "n < 10")
    case True
    with "1.prems" show ?thesis by (subst dec.simps) simp
  next
    case False
    then obtain k' where k: "k = Suc k'" "0 < k'"
      using "1.prems" by (cases k; cases "k - 1") auto
    then have "n div 10 < 10 ^ k'" using "1.prems" by (simp add: less_mult_imp_div_less mult.commute)
    with "1.IH" False k have "length (dec (n div 10)) \<le> k'" by simp
    with False k show ?thesis by (subst dec.simps) simp
  qed
qed

lemma hd_dec: "0 < n \<Longrightarrow> hd (dec n) \<noteq> CHR ''0''"
proof (induction n rule: dec.induct)
  case (1 n)
  show ?case
  proof (cases "n < 10")
    case True
    have "digit_char n \<noteq> CHR ''0''"
    proof
      assume "digit_char n = CHR ''0''"
      then have "48 + n = (of_char (CHR ''0'') :: nat)" using of_char_digit_char [OF True] by simp
      with "1.prems" show False by simp
    qed
    with True show ?thesis by (subst dec.simps) simp
  next
    case False
    with "1.IH" show ?thesis by (subst dec.simps) simp
  qed
qed

lemma read_number_dec:
  assumes "n < bound" and "\<forall>m. max_digits = Some m \<longrightarrow> length (dec n) \<le> m" and "ends_number rest"
  shows "read_number 10 max_digits zero_ok bound (dec n @ rest) = Some (n, rest)"
proof -
  have d: "read_digits 10 bound max_digits 0 0 (dec n @ rest) = Some (n, length (dec n), rest)"
    using read_digits_run [OF parse_digits_dec [OF assms(1)], of max_digits 0 rest] read_digits_end [OF assms(3)] assms(2)
    by simp
  have "hd (dec n @ rest) \<noteq> CHR ''0'' \<or> length (dec n) = 1"
  proof (cases "n = 0")
    case True
    then show ?thesis by (simp add: dec.simps [of 0])
  next
    case False
    then show ?thesis using hd_dec [of n] by simp
  qed
  with d show ?thesis by (auto simp: read_number_def)
qed

lemma octet_dec:
  assumes "ends_number rest"
  shows "octet (dec (unat (b :: u8)) @ rest) = Some (unat b, rest)"
proof -
  have b: "unat b < 256" using unsigned_less [of b, where 'a = nat] by simp
  then have "length (dec (unat b)) \<le> 3" using dec_length_le [of "unat b" 3] by simp
  with b assms show ?thesis by (simp add: octet_def read_number_dec)
qed

lemma read_ipv4_format: "ends_number rest \<Longrightarrow>
  read_ipv4_addr (format_ip (a, b, c, d) @ rest) = Some ([unat a, unat b, unat c, unat d], rest)"
proof -
  assume r: "ends_number rest"
  have dot: "ends_number (CHR ''.'' # t)" for t by (simp add: ends_number_def digit_val_def)
  show ?thesis
    using octet_dec [OF r] octet_dec [OF dot]
    by (simp add: format_ip_def read_ipv4_addr_def read_separator_def read_given_char_def)
qed

lemma octets_word_addr: "octets_word [unat a, unat b, unat c, unat d] = of_nat (addr (a, b, c, d))"
  by (simp add: octets_word_def addr_def)

lemma address_parses:
  "parse_ip_addr (format_ip ip) = Some (V4 (of_nat (addr ip))) \<and>
   parse_socket_addr (format_ip ip @ '':'' @ dec (unat port)) =
     Some \<lparr>addr_ip = V4 (of_nat (addr ip)), addr_port = port\<rparr>"
proof -
  obtain a b c d where ip: "ip = (a, b, c, d)" by (metis prod.exhaust)
  have e: "ends_number []" "ends_number (CHR '':'' # t)" for t by (simp_all add: ends_number_def digit_val_def)
  have "read_number 10 None True 65536 (dec (unat port)) = Some (unat port, [])"
    using read_number_dec [of "unat port" 65536 None "[]"] unsigned_less [of port, where 'a = nat] e by simp
  then have "read_port (CHR '':'' # dec (unat port)) = Some (port, [])"
    by (simp add: read_port_def read_given_char_def)
  then show ?thesis
    using read_ipv4_format [OF e(1), of a b c d] read_ipv4_format [OF e(2), of a b c d]
    by (simp add: ip parse_ip_addr_def parse_socket_addr_def parse_with_def read_ip_addr_def read_socket_addr_v4_def
        octets_word_addr)
qed

text \<open>
  The standard library reads back the addresses that the program prints: the text of an IPv4
  address, alone or with a port behind it, parses to exactly that address and port.
\<close>

theorem printed_address_parses:
  "parse_ip_addr (format_ip ip) = Some (V4 (of_nat (addr ip))) \<and>
   parse_socket_addr (format_ip ip @ '':'' @ dec (unat port)) =
     Some \<lparr>addr_ip = V4 (of_nat (addr ip)), addr_port = port\<rparr>"
  by (rule address_parses)

end
