(* ===== verification/V8_Engine.thy ===== *)
theory V8_Engine
  imports Rule_Common
begin

text \<open>
  \<^verbatim>\<open>src/src/rules/v8_js.rs\<close>: the JavaScript engine, with automatic reloading of the rule file.

  V8 is a parameter: \<open>v8_ops\<close> holds the operations of the \<open>v8\<close> package that the source calls, over
  JavaScript values \<open>'v\<close>, global objects \<open>'g\<close> and compiled scripts \<open>'p\<close>. The file system and
  the task spawner are the parameter \<open>js_env\<close> over a state \<open>'w\<close> of the outside world, which every
  observation may change: the file can be rewritten between two of them. A modification time is a
  natural number.
\<close>

section \<open>Parameters\<close>

record ('v, 'g, 'p) v8_ops =
  string_new :: "string \<Rightarrow> bool"
  compile :: "string \<Rightarrow> 'p option"
  json_parse_fn :: "(string \<Rightarrow> 'v option) result"
  run_script :: "'p \<Rightarrow> 'v \<Rightarrow> ('v \<times> 'g) option"
  json_stringify_fn :: "'g \<Rightarrow> ('v \<Rightarrow> string option) result"
  is_object :: "'v \<Rightarrow> bool"
  is_null :: "'v \<Rightarrow> bool"
  is_undefined :: "'v \<Rightarrow> bool"
  is_boolean :: "'v \<Rightarrow> bool"
  boolean_value :: "'v \<Rightarrow> bool"
  is_string :: "'v \<Rightarrow> bool"
  value_string :: "'v \<Rightarrow> string option"

record 'w js_env =
  file_mtime :: "string \<Rightarrow> 'w \<Rightarrow> nat option \<times> 'w"
  read_to_string :: "string \<Rightarrow> 'w \<Rightarrow> string result \<times> 'w"
  task_joins :: "'w \<Rightarrow> bool \<times> 'w"

section \<open>The engine\<close>

record js_engine =
  js_code :: "string \<times> nat option"
  js_file_path :: "string option"

definition validate_js_code :: "('v, 'g, 'p) v8_ops \<Rightarrow> string \<Rightarrow> unit result" where
  "validate_js_code V code =
     (if \<not> string_new V code then Err ''Failed to create V8 string''
      else (case compile V code of
              None \<Rightarrow> Err ''Failed to compile JavaScript expression''
            | Some _ \<Rightarrow> Ok ()))"

definition new_with_file ::
  "('v, 'g, 'p) v8_ops \<Rightarrow> 'w js_env \<Rightarrow> string \<Rightarrow> string option \<Rightarrow> 'w \<Rightarrow> js_engine result \<times> 'w" where
  "new_with_file V E code path w =
     (case validate_js_code V code of
        Inl e \<Rightarrow> (Err e, w)
      | Inr _ \<Rightarrow>
          (case path of
             None \<Rightarrow> (Ok \<lparr>js_code = (code, None), js_file_path = None\<rparr>, w)
           | Some p \<Rightarrow>
               (case file_mtime E p w of
                  (initial_mtime, w') \<Rightarrow>
                    (Ok \<lparr>js_code = (code, initial_mtime), js_file_path = Some p\<rparr>, w'))))"

definition v8_new ::
  "('v, 'g, 'p) v8_ops \<Rightarrow> 'w js_env \<Rightarrow> string \<Rightarrow> 'w \<Rightarrow> js_engine result \<times> 'w" where
  "v8_new V E code w = new_with_file V E code None w"

definition value_to_response_string :: "('v, 'g, 'p) v8_ops \<Rightarrow> 'g \<Rightarrow> 'v \<Rightarrow> string result" where
  "value_to_response_string V global v =
     (if is_object V v \<and> \<not> is_null V v \<and> \<not> is_undefined V v then
        (case json_stringify_fn V global of
           Inl e \<Rightarrow> Err e
         | Inr stringify \<Rightarrow>
             (case stringify v of
                Some s \<Rightarrow> Ok s
              | None \<Rightarrow> Err ''Failed to stringify value''))
      else if is_boolean V v then Ok (if boolean_value V v then ''true'' else ''false'')
      else if is_string V v then
        (case value_string V v of Some s \<Rightarrow> Ok s | None \<Rightarrow> Err ''Failed to convert string'')
      else Ok ''false'')"

definition execute_with_code ::
  "('v, 'g, 'p) v8_ops \<Rightarrow> (request_info \<Rightarrow> string result) \<Rightarrow> json_parser \<Rightarrow> string \<Rightarrow> request_info \<Rightarrow>
     verdict result" where
  \<comment> \<open>\<open>execute_with_isolate\<close> in a fresh isolate\<close>
  "execute_with_code V to_json json_of code info =
     (case to_json info of
        Inl e \<Rightarrow> Err (''Failed to serialize request: '' @ e)
      | Inr json_request \<Rightarrow>
          if \<not> string_new V json_request then Err ''Failed to create V8 string for JSON''
          else (case json_parse_fn V of
            Inl e \<Rightarrow> Err e
          | Inr parse \<Rightarrow>
              (case parse json_request of
                 None \<Rightarrow> Err ''Failed to parse JSON''
               | Some r_obj \<Rightarrow>
                   if \<not> string_new V code then Err ''Failed to create V8 string''
                   else (case compile V code of
                     None \<Rightarrow> Err ''Failed to compile JavaScript expression''
                   | Some script \<Rightarrow>
                       (case run_script V script r_obj of
                          None \<Rightarrow> Err ''Expression evaluation failed''
                        | Some (v, global) \<Rightarrow>
                            (case value_to_response_string V global v of
                               Inl e \<Rightarrow> Err e
                             | Inr s \<Rightarrow> Ok (to_evaluation_result (from_string json_of s))))))))"

definition execute ::
  "url_parser \<Rightarrow> ('v, 'g, 'p) v8_ops \<Rightarrow> (request_info \<Rightarrow> string result) \<Rightarrow> json_parser \<Rightarrow> string \<Rightarrow>
     string \<Rightarrow> string \<Rightarrow> string \<Rightarrow> verdict" where
  "execute url_parse V to_json json_of code meth url ip =
     (case from_request url_parse meth url ip of
        Inl _ \<Rightarrow> (False, Some ''Invalid request format'', None)
      | Inr info \<Rightarrow>
          (case execute_with_code V to_json json_of code info of
             Inr v \<Rightarrow> v
           | Inl _ \<Rightarrow> (False, Some ''JavaScript execution failed'', None)))"

text \<open>The check that precedes a reload, on the recorded modification time.\<close>

definition needs_reload :: "nat option \<Rightarrow> js_engine \<Rightarrow> bool" where
  "needs_reload current_mtime self = (current_mtime \<noteq> snd (js_code self) \<and> current_mtime \<noteq> None)"

definition check_and_reload_file ::
  "('v, 'g, 'p) v8_ops \<Rightarrow> 'w js_env \<Rightarrow> js_engine \<times> 'w \<Rightarrow> js_engine \<times> 'w" where
  "check_and_reload_file V E st =
     (case st of (self, w) \<Rightarrow>
        (case js_file_path self of
           None \<Rightarrow> (self, w)
         | Some path \<Rightarrow>
             (case file_mtime E path w of (current_mtime, w) \<Rightarrow>
                if needs_reload current_mtime self then
                  (case read_to_string E path w of
                     (Inr new_code, w) \<Rightarrow>
                       (case validate_js_code V new_code of
                          Inl _ \<Rightarrow> (self, w)
                        | Inr _ \<Rightarrow> (self\<lparr>js_code := (new_code, current_mtime)\<rparr>, w))
                   | (Inl _, w) \<Rightarrow> (self, w))
                else (self, w))))"

definition load_js_code :: "js_engine \<Rightarrow> string" where
  "load_js_code self = fst (js_code self)"

definition execute_js_blocking ::
  "url_parser \<Rightarrow> ('v, 'g, 'p) v8_ops \<Rightarrow> (request_info \<Rightarrow> string result) \<Rightarrow> json_parser \<Rightarrow> 'w js_env \<Rightarrow>
     string \<Rightarrow> string \<Rightarrow> string \<Rightarrow> string \<Rightarrow> 'w \<Rightarrow> verdict \<times> 'w" where
  "execute_js_blocking url_parse V to_json json_of E code meth url ip w =
     (case task_joins E w of
        (True, w) \<Rightarrow> (execute url_parse V to_json json_of code meth url ip, w)
      | (False, w) \<Rightarrow> ((False, Some ''Evaluation failed'', None), w))"

definition build_evaluation_result :: "bool \<Rightarrow> string option \<Rightarrow> u64 option \<Rightarrow> evaluation_result" where
  "build_evaluation_result allowed ctx bytes =
     (let result = (if allowed then allow else deny);
          result = (case ctx of Some c \<Rightarrow> with_context result c | None \<Rightarrow> result)
      in if allowed then (case bytes of Some n \<Rightarrow> with_max_tx_bytes result n | None \<Rightarrow> result)
         else result)"

definition v8_evaluate ::
  "url_parser \<Rightarrow> ('v, 'g, 'p) v8_ops \<Rightarrow> (request_info \<Rightarrow> string result) \<Rightarrow> json_parser \<Rightarrow> 'w js_env \<Rightarrow>
     (js_engine \<times> 'w) evaluator" where
  "v8_evaluate url_parse V to_json json_of E meth url ip st =
     (case check_and_reload_file V E st of (self, w) \<Rightarrow>
        case execute_js_blocking url_parse V to_json json_of E (load_js_code self) meth url ip w of
          ((allowed, ctx, bytes), w) \<Rightarrow> (build_evaluation_result allowed ctx bytes, (self, w)))"

definition v8_rule_engine ::
  "url_parser \<Rightarrow> ('v, 'g, 'p) v8_ops \<Rightarrow> (request_info \<Rightarrow> string result) \<Rightarrow> json_parser \<Rightarrow> 'w js_env \<Rightarrow>
     (js_engine \<times> 'w) rule_engine_trait" where
  "v8_rule_engine url_parse V to_json json_of E =
     \<lparr>evaluate = v8_evaluate url_parse V to_json json_of E, engine_name = ''v8_js''\<rparr>"

section \<open>The engine contract\<close>

lemma build_result_action: "action (build_evaluation_result a c b) = (if a then Allow else Deny)"
  by (auto simp: build_evaluation_result_def engine_simps Let_def split: option.splits)

lemma build_result_limit: "limit_only_on_allow (build_evaluation_result a c b)"
  by (auto simp: build_evaluation_result_def engine_simps Let_def limit_only_on_allow_def
      split: option.splits)

lemma execute_unparsable: "\<not> is_ok (url_parse u) \<Longrightarrow> \<not> fst (execute url_parse V tj jo code m u ip)"
  using from_request_ok_iff [of url_parse m u ip]
  by (auto simp: execute_def is_ok_def split: sum.splits)

interpretation v8: rule_engine "v8_rule_engine url_parse V to_json json_of E" "\<lambda>u. is_ok (url_parse u)"
  for url_parse V to_json json_of E
proof unfold_locales
  fix m u ip s
  show "limit_only_on_allow (fst (evaluate (v8_rule_engine url_parse V to_json json_of E) m u ip s))"
    by (simp add: v8_rule_engine_def v8_evaluate_def build_result_limit split: prod.splits)
  assume "\<not> is_ok (url_parse u)"
  then have "\<not> fst (execute url_parse V to_json json_of code m u ip)" for code
    by (rule execute_unparsable)
  then have "execute url_parse V to_json json_of code m u ip \<noteq> (True, c, b)" for code c b
    by (metis fst_conv)
  then show "action (fst (evaluate (v8_rule_engine url_parse V to_json json_of E) m u ip s)) = Deny"
    by (auto simp: v8_rule_engine_def v8_evaluate_def execute_js_blocking_def build_result_action
        split: prod.splits bool.splits)
qed

section \<open>Concurrent requests\<close>

text \<open>
  Requests are evaluated by concurrent tasks that share the code cell and the reload lock. One
  task's way through \<open>check_and_reload_file\<close> and \<open>load_js_code\<close> is a sequence of atomic steps:
  it reads the modification time, compares it (fast path), waits for the lock, compares again, reads
  the file, validates and stores, releases the lock, and loads the code. The rule file may change
  between any two steps.
\<close>

datatype task =
    Idle
  | Stated "nat option"
  | Waiting "nat option"
  | Locked "nat option"
  | Reading "nat option"
  | Loaded "nat option" string
  | Checked
  | Running string

record reload_sys =
  cell :: "string \<times> nat option"
  lock_holder :: "nat option"
  rule_file :: "(nat \<times> string) option"
  tasks :: "nat \<Rightarrow> task"

definition stale :: "nat option \<Rightarrow> reload_sys \<Rightarrow> bool" where
  "stale m s = (m \<noteq> snd (cell s) \<and> m \<noteq> None)"

abbreviation set_task :: "nat \<Rightarrow> task \<Rightarrow> reload_sys \<Rightarrow> reload_sys" where
  "set_task i t s \<equiv> s\<lparr>tasks := (tasks s)(i := t)\<rparr>"

inductive reload_step :: "(string \<Rightarrow> bool) \<Rightarrow> reload_sys \<Rightarrow> reload_sys \<Rightarrow> bool"
  for valid :: "string \<Rightarrow> bool" where
  edit: "reload_step valid s (s\<lparr>rule_file := f\<rparr>)"
| stat: "tasks s i = Idle \<Longrightarrow> reload_step valid s (set_task i (Stated (map_option fst (rule_file s))) s)"
| fast: "tasks s i = Stated m \<Longrightarrow> \<not> stale m s \<Longrightarrow> reload_step valid s (set_task i Checked s)"
| slow: "tasks s i = Stated m \<Longrightarrow> stale m s \<Longrightarrow> reload_step valid s (set_task i (Waiting m) s)"
| acquire: "tasks s i = Waiting m \<Longrightarrow> lock_holder s = None \<Longrightarrow>
     reload_step valid s (set_task i (Locked m) (s\<lparr>lock_holder := Some i\<rparr>))"
| recheck_stale: "tasks s i = Locked m \<Longrightarrow> stale m s \<Longrightarrow>
     reload_step valid s (set_task i (Reading m) s)"
| recheck_fresh: "tasks s i = Locked m \<Longrightarrow> \<not> stale m s \<Longrightarrow>
     reload_step valid s (set_task i Checked (s\<lparr>lock_holder := None\<rparr>))"
| read_ok: "tasks s i = Reading m \<Longrightarrow> rule_file s = Some (t, c) \<Longrightarrow>
     reload_step valid s (set_task i (Loaded m c) s)"
| read_fails: "tasks s i = Reading m \<Longrightarrow>
     reload_step valid s (set_task i Checked (s\<lparr>lock_holder := None\<rparr>))"
| store: "tasks s i = Loaded m c \<Longrightarrow> valid c \<Longrightarrow>
     reload_step valid s (set_task i Checked (s\<lparr>cell := (c, m), lock_holder := None\<rparr>))"
| reject: "tasks s i = Loaded m c \<Longrightarrow> \<not> valid c \<Longrightarrow>
     reload_step valid s (set_task i Checked (s\<lparr>lock_holder := None\<rparr>))"
| load: "tasks s i = Checked \<Longrightarrow> reload_step valid s (set_task i (Running (fst (cell s))) s)"
| finish: "tasks s i = Running c \<Longrightarrow> reload_step valid s (set_task i Idle s)"

definition reload_init :: "string \<Rightarrow> nat option \<Rightarrow> (nat \<times> string) option \<Rightarrow> reload_sys" where
  "reload_init code m f = \<lparr>cell = (code, m), lock_holder = None, rule_file = f, tasks = (\<lambda>_. Idle)\<rparr>"

inductive reload_reachable :: "(string \<Rightarrow> bool) \<Rightarrow> reload_sys \<Rightarrow> bool" for valid where
  init: "valid code \<Longrightarrow> reload_reachable valid (reload_init code m f)"
| step: "reload_reachable valid s \<Longrightarrow> reload_step valid s t \<Longrightarrow> reload_reachable valid t"

fun in_critical :: "task \<Rightarrow> bool" where
  "in_critical (Locked _) = True"
| "in_critical (Reading _) = True"
| "in_critical (Loaded _ _) = True"
| "in_critical _ = False"

fun runs_valid :: "(string \<Rightarrow> bool) \<Rightarrow> task \<Rightarrow> bool" where
  "runs_valid valid (Running c) = valid c"
| "runs_valid valid _ = True"

definition reload_inv :: "(string \<Rightarrow> bool) \<Rightarrow> reload_sys \<Rightarrow> bool" where
  "reload_inv valid s =
     (valid (fst (cell s)) \<and> (\<forall>i. runs_valid valid (tasks s i)) \<and>
      (\<forall>i. in_critical (tasks s i) \<longleftrightarrow> lock_holder s = Some i))"

lemma reload_inv_set:
  assumes "reload_inv valid s" and "valid (fst (cell s'))" and "runs_valid valid t"
    and "tasks s' = (tasks s)(i := t)"
    and "lock_holder s' = lock_holder s \<and> in_critical t = in_critical (tasks s i) \<or>
         lock_holder s = None \<and> lock_holder s' = Some i \<and> in_critical t \<or>
         in_critical (tasks s i) \<and> lock_holder s' = None \<and> \<not> in_critical t"
  shows "reload_inv valid s'"
  using assms unfolding reload_inv_def by (auto split: if_splits)

lemma reload_step_inv: "reload_step valid s t \<Longrightarrow> reload_inv valid s \<Longrightarrow> reload_inv valid t"
proof (induction rule: reload_step.induct)
  case (edit s f)
  then show ?case by (simp add: reload_inv_def)
qed (rule reload_inv_set, assumption, auto simp: reload_inv_def, (metis in_critical.simps)+)

lemma reload_reachable_inv: "reload_reachable valid s \<Longrightarrow> reload_inv valid s"
proof (induction rule: reload_reachable.induct)
  case (init code m f)
  then show ?case by (simp add: reload_inv_def reload_init_def)
next
  case (step s t)
  then show ?case by (blast intro: reload_step_inv)
qed

lemma reload_mutex:
  "reload_inv valid s \<Longrightarrow> in_critical (tasks s i) \<Longrightarrow> in_critical (tasks s j) \<Longrightarrow> i = j"
  by (auto simp: reload_inv_def)

section \<open>Properties\<close>

text \<open>
  (C23) Reloading is safe under any interleaving of requests and edits of the rule file: in every
  reachable state the shared code is code that V8 compiled, every running evaluation uses such code,
  and no two tasks are between taking and releasing the reload lock.
\<close>

theorem reload_concurrent_safe:
  assumes "reload_reachable (\<lambda>c. is_ok (validate_js_code V c)) s"
  shows "is_ok (validate_js_code V (fst (cell s))) \<and>
         (\<forall>i c. tasks s i = Running c \<longrightarrow> is_ok (validate_js_code V c)) \<and>
         (\<forall>i j. in_critical (tasks s i) \<longrightarrow> in_critical (tasks s j) \<longrightarrow> i = j)"
proof -
  have inv: "reload_inv (\<lambda>c. is_ok (validate_js_code V c)) s"
    using assms by (rule reload_reachable_inv)
  have "is_ok (validate_js_code V c)" if "tasks s i = Running c" for i c
    using inv that unfolding reload_inv_def by (metis runs_valid.simps(1))
  with inv reload_mutex [OF inv] show ?thesis by (auto simp: reload_inv_def)
qed

definition accept_all_v8 :: "(bool, unit, string) v8_ops" where
  \<comment> \<open>an engine in which every script is the constant that its text names\<close>
  "accept_all_v8 = \<lparr>string_new = (\<lambda>_. True), compile = Some, json_parse_fn = Ok (\<lambda>_. Some True),
     run_script = (\<lambda>p _. Some (p = ''true'', ())), json_stringify_fn = (\<lambda>_. Ok (\<lambda>_. None)),
     is_object = (\<lambda>_. False), is_null = (\<lambda>_. False), is_undefined = (\<lambda>_. False),
     is_boolean = (\<lambda>_. True), boolean_value = (\<lambda>b. b), is_string = (\<lambda>_. False),
     value_string = (\<lambda>_. None)\<rparr>"

theorem reload_concurrent_safe_witness:
  "is_ok (validate_js_code accept_all_v8
     (fst (cell (set_task 3 (Stated (Some 9)) (reload_init ''true'' None (Some (9, ''false'')))))))"
proof -
  let ?v = "\<lambda>c. is_ok (validate_js_code accept_all_v8 c)"
  have "reload_reachable ?v (reload_init ''true'' None (Some (9, ''false'')))"
    by (rule reload_reachable.init) (simp add: validate_js_code_def accept_all_v8_def)
  then have "reload_reachable ?v
      (set_task 3 (Stated (Some 9)) (reload_init ''true'' None (Some (9, ''false''))))"
    by (rule reload_reachable.step)
      (use reload_step.stat [of "reload_init ''true'' None (Some (9, ''false''))" 3 ?v] in
        \<open>simp add: reload_init_def\<close>)
  from reload_concurrent_safe [OF this] show ?thesis by blast
qed

text \<open>
  What a request does to the loaded code: it is replaced exactly when a rule file is
  configured, its modification time is known and differs from the recorded one, the file can be
  read, and the new text compiles; the text and the time observed before are then stored together,
  and in every other case the old rules stay in force.
\<close>

theorem reload_functional:
  "fst (check_and_reload_file V E (self, w)) =
     (case js_file_path self of
        None \<Rightarrow> self
      | Some path \<Rightarrow>
          (case file_mtime E path w of
             (m, w1) \<Rightarrow>
               (case fst (read_to_string E path w1) of
                  Inr code \<Rightarrow>
                    (if m \<noteq> None \<and> m \<noteq> snd (js_code self) \<and> is_ok (validate_js_code V code)
                     then self\<lparr>js_code := (code, m)\<rparr> else self)
                | Inl _ \<Rightarrow> self)))"
  by (auto simp: check_and_reload_file_def needs_reload_def is_ok_def
      split: option.splits prod.splits sum.splits)

text \<open>An allowance comes from a run of the code in force, and a run that allows had every step succeed.\<close>

lemma v8_allow_ran:
  assumes "action (fst (v8_evaluate url_parse V to_json json_of E meth url ip st)) = Allow"
  shows "\<exists>self w info a b. check_and_reload_file V E st = (self, w) \<and> from_request url_parse meth url ip = Ok info \<and>
    execute_with_code V to_json json_of (load_js_code self) info = Ok (True, a, b)"
proof -
  obtain self w where c: "check_and_reload_file V E st = (self, w)" by fastforce
  with assms have "fst (execute url_parse V to_json json_of (load_js_code self) meth url ip)"
    by (auto simp: v8_evaluate_def execute_js_blocking_def build_result_action
        split: prod.splits bool.splits if_splits)
  with c show ?thesis by (auto simp: execute_def split: sum.splits)
qed

lemma code_allows:
  assumes "execute_with_code V to_json json_of code info = Ok (True, a, b)"
  shows "\<exists>req parse r script v g text. to_json info = Ok req \<and> json_parse_fn V = Ok parse \<and> parse req = Some r \<and>
    compile V code = Some script \<and> run_script V script r = Some (v, g) \<and>
    value_to_response_string V g v = Ok text \<and> allows (from_string json_of text)"
  using assms
  by (auto simp: execute_with_code_def allows_def split: sum.splits option.splits if_splits prod.splits)

text \<open>
  (C10) The JavaScript engine fails closed: a request is allowed only if its URL parses, the script
  compiles and runs to a value, and the response format reads the value's text as an allowance; the
  result is then the one of that response.
\<close>

theorem v8_fails_closed:
  assumes "action (fst (v8_evaluate url_parse V to_json json_of E meth url ip st)) = Allow"
  shows "\<exists>self w info req parse r script v g text.
           check_and_reload_file V E st = (self, w) \<and>
           from_request url_parse meth url ip = Ok info \<and> to_json info = Ok req \<and>
           json_parse_fn V = Ok parse \<and> parse req = Some r \<and>
           compile V (load_js_code self) = Some script \<and> run_script V script r = Some (v, g) \<and>
           value_to_response_string V g v = Ok text \<and> allows (from_string json_of text)"
  using v8_allow_ran [OF assms] code_allows by metis

theorem v8_fails_closed_witness:
  "\<exists>text. value_to_response_string accept_all_v8 () True = Ok text \<and>
     allows (from_string (\<lambda>_. None) text)"
proof -
  let ?up = "\<lambda>_. Ok \<lparr>pu_scheme = ''http'', pu_host = None, pu_path = ''/''\<rparr> :: parsed_url result"
  let ?E = "\<lparr>file_mtime = (\<lambda>_ w. (None, w)), read_to_string = (\<lambda>_ w. (Err [], w)),
             task_joins = (\<lambda>w. (True, w))\<rparr> :: unit js_env"
  let ?st = "(\<lparr>js_code = (''true'', None), js_file_path = None\<rparr>, ())"
  have t: "trim ''true'' = ''true''" by (simp add: trim_ascii ascii_ws_def)
  have "action (fst (v8_evaluate ?up accept_all_v8 (\<lambda>_. Ok ''{}'') (\<lambda>_. None) ?E
          ''GET'' ''http://a/'' ''10.0.0.1'' ?st)) = Allow"
    by (simp add: v8_evaluate_def check_and_reload_file_def execute_js_blocking_def execute_def
        from_request_def execute_with_code_def accept_all_v8_def load_js_code_def t
        value_to_response_string_def from_string_def to_evaluation_result_def build_result_action)
  from v8_fails_closed [OF this] show ?thesis
    by (auto simp: check_and_reload_file_def load_js_code_def accept_all_v8_def
        value_to_response_string_def)
qed

text \<open>
  An edit of the rule file can be lost at start-up. The code is read first (in \<open>main\<close>) and the
  modification time is taken afterwards (in \<open>new_with_file\<close>); if the file changed in between, the
  old text is recorded with the new time, and no request reloads the file as long as its time stays
  the same.
\<close>

theorem startup_edit_lost:
  assumes "is_ok (validate_js_code V old_code)"
    and "\<forall>w. file_mtime E path w = (Some new_mtime, w)"
  shows "\<exists>self. new_with_file V E old_code (Some path) w = (Ok self, w) \<and>
           load_js_code self = old_code \<and>
           check_and_reload_file V E (self, w') = (self, w')"
  using assms
  by (auto simp: new_with_file_def check_and_reload_file_def needs_reload_def load_js_code_def is_ok_def
      split: sum.splits)

theorem startup_edit_lost_witness:
  "\<exists>self. new_with_file accept_all_v8
       \<lparr>file_mtime = (\<lambda>_ w. (Some 2, w)), read_to_string = (\<lambda>_ w. (Ok ''false'', w)),
        task_joins = (\<lambda>w. (True, w))\<rparr> ''true'' (Some ''rules.js'') () = (Ok self, ()) \<and>
     load_js_code self = ''true'' \<and>
     check_and_reload_file accept_all_v8
       \<lparr>file_mtime = (\<lambda>_ w. (Some 2, w)), read_to_string = (\<lambda>_ w. (Ok ''false'', w)),
        task_joins = (\<lambda>w. (True, w))\<rparr> (self, ()) = (self, ())"
  by (rule startup_edit_lost) (simp_all add: validate_js_code_def accept_all_v8_def)

end
