(* ===== verification/Main_Cli.thy ===== *)
theory Main_Cli
  imports Jail_Lifecycle Net_Addr V8_Engine
begin

text \<open>
  \<^verbatim>\<open>src/src/main.rs\<close>: the command line, the choice of the rule engine and of the bind addresses, the
  test mode, the direct cleanup of orphans and the run of a command in a jail. The build for Linux is
  modelled; the parser of the command line and the runtime are parameters.
\<close>

section \<open>Command line\<close>

record run_args =
  ra_sh :: "string option"
  ra_proc :: "string option"
  ra_js :: "string option"
  ra_js_file :: "string option"
  ra_request_log :: "string option"
  ra_weak :: bool
  ra_verbose :: u8
  ra_timeout :: "u64 option"
  ra_no_jail_cleanup :: bool
  ra_cleanup :: bool
  ra_server :: bool
  ra_test :: "string list option"
  ra_docker_run :: bool
  ra_exec_command :: "string list"

text \<open>The conflicts declared on the options; the parser refuses a command line that has one.\<close>

definition args_accepted :: "run_args \<Rightarrow> bool" where
  "args_accepted a =
     (length (filter (\<lambda>x. x \<noteq> None) [ra_sh a, ra_proc a, ra_js a, ra_js_file a]) \<le> 1 \<and>
      \<not> (ra_server a \<and> (ra_cleanup a \<or> ra_timeout a \<noteq> None)) \<and>
      \<not> (ra_test a \<noteq> None \<and> (ra_server a \<or> ra_cleanup a)) \<and>
      \<not> (ra_docker_run a \<and> (ra_server a \<or> ra_cleanup a \<or> ra_test a \<noteq> None \<or> ra_weak a)) \<and>
      (case ra_test a of Some vals \<Rightarrow> 1 \<le> length vals \<and> length vals \<le> 2 | None \<Rightarrow> True))"

datatype log_filter = FromEnvironment | HttpjailLevel string

definition setup_logging :: "string option \<Rightarrow> u8 \<Rightarrow> log_filter" where
  "setup_logging rust_log verbosity =
     (if rust_log \<noteq> None then FromEnvironment
      else HttpjailLevel (if verbosity = 0 then ''warn'' else if verbosity = 1 then ''info''
                          else if verbosity = 2 then ''debug'' else ''trace''))"

definition effective_verbosity :: "run_args \<Rightarrow> u8" where
  "effective_verbosity a = max (ra_verbose a) (if ra_server a then 1 else 0)"

section \<open>Direct cleanup of orphans\<close>

definition direct_orphan_timeout :: nat where
  "direct_orphan_timeout = from_secs 5"

fun direct_scan ::
  "'w canary_ops \<Rightarrow> (string \<Rightarrow> ('w, unit) fallible) \<Rightarrow> string \<Rightarrow> string result list \<Rightarrow> string list \<Rightarrow>
     ('w, string list) fallible" where
  "direct_scan F cleanup_orphaned dir [] cleaned w = (Ok cleaned, w)"
| "direct_scan F cleanup_orphaned dir (entry # entries) cleaned w =
     (case entry of
        Inl e \<Rightarrow> (Err e, w)
      | Inr name \<Rightarrow>
          (if \<not> fs_is_file F (path_join dir name) w then direct_scan F cleanup_orphaned dir entries cleaned w
           else case fs_metadata F (path_join dir name) w of
             (Inl e, w) \<Rightarrow> (Err e, w)
           | (Inr metadata, w) \<Rightarrow>
               (case err_context ''Failed to get file modification time'' (modified metadata) of
                  Inl e \<Rightarrow> (Err e, w)
                | Inr mtime \<Rightarrow>
                    (case time_now F w of (t, w) \<Rightarrow>
                       if canary_stale direct_orphan_timeout t mtime then
                         (case cleanup_orphaned (canary_jail_id name) w of
                            (Inl e, w) \<Rightarrow> (Err e, w)
                          | (Inr _, w) \<Rightarrow>
                              direct_scan F cleanup_orphaned dir entries (canary_jail_id name # cleaned)
                                (snd (fs_remove_file F (path_join dir name) w)))
                       else direct_scan F cleanup_orphaned dir entries cleaned w))))"

fun netns_scan ::
  "(string \<Rightarrow> ('w, unit) fallible) \<Rightarrow> string result list \<Rightarrow> string list \<Rightarrow> ('w, string list) fallible" where
  "netns_scan cleanup_orphaned [] cleaned w = (Ok cleaned, w)"
| "netns_scan cleanup_orphaned (entry # entries) cleaned w =
     (case entry of
        Inl e \<Rightarrow> (Err e, w)
      | Inr file_name \<Rightarrow>
          (let name = (case str_from_utf8 file_name of Some s \<Rightarrow> s | None \<Rightarrow> [])
           in if starts_with name ''httpjail_'' \<and> name \<notin> set cleaned then
                (case cleanup_orphaned name w of
                   (Inl e, w) \<Rightarrow> (Err e, w)
                 | (Inr _, w) \<Rightarrow> netns_scan cleanup_orphaned entries (name # cleaned) w)
              else netns_scan cleanup_orphaned entries cleaned w))"

definition direct_cleanup_orphans ::
  "'w canary_ops \<Rightarrow> (string \<Rightarrow> ('w, unit) fallible) \<Rightarrow> string \<Rightarrow> ('w, unit) fallible" where
  "direct_cleanup_orphans F cleanup_orphaned canary_dir =
     and_then (\<lambda>w. if fs_exists F canary_dir w
                   then and_then (fs_read_dir F canary_dir)
                          (\<lambda>entries. direct_scan F cleanup_orphaned canary_dir entries []) w
                   else (Ok [], w)) (\<lambda>cleaned.
     and_then (\<lambda>w. if fs_exists F ''/etc/netns'' w
                   then and_then (fs_read_dir F ''/etc/netns'')
                          (\<lambda>entries. netns_scan cleanup_orphaned entries cleaned) w
                   else (Ok cleaned, w)) (\<lambda>_.
       return_ok ()))"

section \<open>Choice of the rule engine\<close>

datatype rule_source = ShellScript string | LineProcessor string | JavaScript js_engine

datatype 'a startup = Started 'a | Exited nat | Aborted string

definition js_started :: "js_engine result \<times> 'w \<Rightarrow> rule_source startup \<times> 'w" where
  "js_started r = (case r of (Inr engine, w) \<Rightarrow> (Started (JavaScript engine), w) | (Inl _, w) \<Rightarrow> (Exited 1, w))"

definition select_engine ::
  "('v, 'g, 'p) v8_ops \<Rightarrow> 'w js_env \<Rightarrow> run_args \<Rightarrow> 'w \<Rightarrow> rule_source startup \<times> 'w" where
  "select_engine V E a w =
     (case ra_sh a of Some script \<Rightarrow> (Started (ShellScript script), w) | None \<Rightarrow>
     (case ra_proc a of Some program \<Rightarrow> (Started (LineProcessor program), w) | None \<Rightarrow>
     (case ra_js a of Some code \<Rightarrow> js_started (v8_new V E code w) | None \<Rightarrow>
     (case ra_js_file a of
        Some file \<Rightarrow>
          (case read_to_string E file w of
             (Inl e, w) \<Rightarrow> (Aborted (''Failed to read JS file: '' @ file @ '': '' @ e), w)
           | (Inr code, w) \<Rightarrow> js_started (new_with_file V E code (Some file) w))
      | None \<Rightarrow> js_started (v8_new V E ''false'' w)))))"

section \<open>Test mode\<close>

definition to_ascii_uppercase :: "string \<Rightarrow> string" where
  "to_ascii_uppercase s =
     map (\<lambda>c. let n = of_char c :: nat in if 97 \<le> n \<and> n \<le> 122 then char_of (n - 32) else c) s"

definition method_or_get :: "(string \<Rightarrow> string option) \<Rightarrow> string \<Rightarrow> string" where
  \<comment> \<open>the parser of methods belongs to the \<open>http\<close> package\<close>
  "method_or_get parse_method m =
     (case parse_method (to_ascii_uppercase m) of Some x \<Rightarrow> x | None \<Rightarrow> ''GET'')"

definition test_request :: "(string \<Rightarrow> string option) \<Rightarrow> string list \<Rightarrow> string \<times> string" where
  "test_request parse_method vals =
     (if length vals = 1 then
        (case split_whitespace (vals ! 0) of
           m # u # _ \<Rightarrow> (method_or_get parse_method m, u)
         | _ \<Rightarrow> (''GET'', vals ! 0))
      else (method_or_get parse_method (vals ! 0), vals ! 1))"

definition run_test ::
  "(string \<Rightarrow> string option) \<Rightarrow> 's rule_engine_trait \<Rightarrow> string list \<Rightarrow> 's \<Rightarrow> (string list \<times> nat) \<times> 's" where
  \<comment> \<open>the printed lines and the exit code\<close>
  "run_test parse_method engine vals s =
     (case test_request parse_method vals of (meth, url) \<Rightarrow>
        case evaluate_with_context engine meth url s of (eval, s) \<Rightarrow>
          (let ctx = (case eval_context eval of Some c \<Rightarrow> [c] | None \<Rightarrow> [])
           in case action eval of
                Allow \<Rightarrow> ((''ALLOW '' @ meth @ '' '' @ url) # ctx, 0)
              | Deny \<Rightarrow> ((''DENY '' @ meth @ '' '' @ url) # ctx, 1), s))"

section \<open>Bind addresses\<close>

definition any_address :: "u16 \<Rightarrow> socket_addr" where
  "any_address port = \<lparr>addr_ip = V4 0, addr_port = port\<rparr>"

definition parse_bind_config :: "(string \<Rightarrow> string option) \<Rightarrow> string \<Rightarrow> socket_addr option" where
  "parse_bind_config env name =
     (case env name of
        None \<Rightarrow> None
      | Some raw \<Rightarrow>
          (let val = trim raw
           in case parse_socket_addr val of
                Some a \<Rightarrow> Some a
              | None \<Rightarrow>
                  (case Option.bind (strip_prefix '':'' val) parse_u16 of
                     Some port \<Rightarrow> Some (any_address port)
                   | None \<Rightarrow> map_option any_address (parse_u16 val))))"

definition parse_ip_from_env :: "(string \<Rightarrow> string option) \<Rightarrow> string \<Rightarrow> ip_addr option" where
  "parse_ip_from_env env name = Option.bind (env name) parse_ip_addr"

definition resolve_bind_with_default ::
  "(string \<Rightarrow> string option) \<Rightarrow> socket_addr option \<Rightarrow> string \<Rightarrow> ip_addr \<Rightarrow> u16 \<Rightarrow> socket_addr option" where
  "resolve_bind_with_default env parsed name default_ip default_port =
     (case parsed of
        Some a \<Rightarrow> Some a
      | None \<Rightarrow>
          (case parse_ip_from_env env name of
             Some ip \<Rightarrow> Some \<lparr>addr_ip = ip, addr_port = default_port\<rparr>
           | None \<Rightarrow> Some \<lparr>addr_ip = default_ip, addr_port = default_port\<rparr>))"

definition weak_bind :: "(string \<Rightarrow> string option) \<Rightarrow> socket_addr option \<Rightarrow> string \<Rightarrow> socket_addr option" where
  "weak_bind env parsed name =
     (case parsed of
        Some a \<Rightarrow> Some a
      | None \<Rightarrow> map_option (\<lambda>ip. \<lparr>addr_ip = ip, addr_port = 0\<rparr>) (parse_ip_from_env env name))"

definition jail_bind :: "ip4 \<Rightarrow> socket_addr option \<Rightarrow> socket_addr option" where
  "jail_bind jail_ip parsed =
     Some \<lparr>addr_ip = V4 (of_nat (addr jail_ip)),
           addr_port = (case parsed of Some a \<Rightarrow> addr_port a | None \<Rightarrow> 0)\<rparr>"

definition bind_addresses ::
  "(string \<Rightarrow> u64) \<Rightarrow> (string \<Rightarrow> string option) \<Rightarrow> run_args \<Rightarrow> jail_config \<Rightarrow>
     socket_addr option \<times> socket_addr option" where
  "bind_addresses hash env a config =
     (let http = parse_bind_config env ''HTTPJAIL_HTTP_BIND'';
          https = parse_bind_config env ''HTTPJAIL_HTTPS_BIND'';
          localhost = LOCALHOST4
      in if ra_server a then
           (resolve_bind_with_default env http ''HTTPJAIL_HTTP_BIND'' localhost 8080,
            resolve_bind_with_default env https ''HTTPJAIL_HTTPS_BIND'' localhost 8443)
         else if ra_weak a then
           (weak_bind env http ''HTTPJAIL_HTTP_BIND'', weak_bind env https ''HTTPJAIL_HTTPS_BIND'')
         else
           (let jail_ip = compute_host_ip_for_jail_id hash (jail_id config)
            in (jail_bind jail_ip http, jail_bind jail_ip https)))"

section \<open>The run of a command\<close>

definition command_env ::
  "(string \<times> string) list result \<Rightarrow> string option \<Rightarrow> (string \<times> string) list" where
  \<comment> \<open>the variables for the CA certificate, if there are any, and the options of the resolver\<close>
  "command_env ca_env res_options =
     (let extra_env = (case ca_env of Inr vars \<Rightarrow> vars | Inl _ \<Rightarrow> [])
      in if res_options = None \<and> \<not> list_ex (\<lambda>(k, _). k = ''RES_OPTIONS'') extra_env
         then extra_env @ [(''RES_OPTIONS'', ''timeout:2 attempts:1'')] else extra_env)"

text \<open>
  How the wait for a command with a time limit ends, and the world at that moment: the command has returned, or its
  task has failed, or the time is up while the command is still running. What it has done until then belongs to
  that world, and the program goes on from there without waiting for the command.
\<close>

datatype wait = Returned | TaskFailed string | TimedOut

definition run_with_timeout ::
  "('w \<Rightarrow> wait \<times> 'w) \<Rightarrow> u64 option \<Rightarrow> ('w, exit_status) fallible \<Rightarrow> ('w, exit_status) fallible" where
  \<comment> \<open>the status of a command whose time is up is that of \<open>timeout\<close>\<close>
  "run_with_timeout wait_for limit exec w =
     (case limit of
        None \<Rightarrow> exec w
      | Some _ \<Rightarrow>
          (case wait_for w of
             (Returned, w) \<Rightarrow> exec w
           | (TaskFailed e, w) \<Rightarrow> (Err (''Task execution failed: '' @ e), w)
           | (TimedOut, w) \<Rightarrow> (Ok (ExitCode 124), w)))"

datatype outcome = Finished_ok | Process_exit int | Main_error string

definition exit_outcome :: "exit_status \<Rightarrow> outcome" where
  "exit_outcome status =
     (case status of
        ExitCode c \<Rightarrow> (if c = 0 then Finished_ok else Process_exit c)
      | Signalled \<Rightarrow> Process_exit 1)"

definition run_in_jail ::
  "('j, 'w) jail_ops \<Rightarrow> ('w \<Rightarrow> wait \<times> 'w) \<Rightarrow> run_args \<Rightarrow> ('w \<Rightarrow> (string \<times> string) list) \<Rightarrow> 'j \<Rightarrow> 'w \<Rightarrow> outcome \<times> 'w" where
  \<comment> \<open>the environment is read after the setup; once the jail is shared with the signal handler it is never dropped\<close>
  "run_in_jail J wait_for a extra_env jail w =
     (case jail_setup J 0 jail w of
        (Inl e, jail, w) \<Rightarrow> (Main_error e, jail_drop J jail w)
      | (Inr _, jail, w) \<Rightarrow>
          (case run_with_timeout wait_for (ra_timeout a) (jail_execute J jail (ra_exec_command a) (extra_env w)) w of
             (Inl e, w) \<Rightarrow> (Main_error e, w)
           | (Inr status, w) \<Rightarrow>
               (if ra_no_jail_cleanup a then (exit_outcome status, w)
                else case jail_cleanup J jail w of
                       (Inl e, w) \<Rightarrow> (Main_error e, w)
                     | (Inr _, w) \<Rightarrow> (exit_outcome status, w))))"

definition signal_handler :: "('j, 'w) jail_ops \<Rightarrow> run_args \<Rightarrow> 'j \<Rightarrow> bool \<Rightarrow> 'w \<Rightarrow> bool \<times> outcome option \<times> 'w" where
  \<comment> \<open>the flag tells that a signal has been received before\<close>
  "signal_handler J a jail shutdown w =
     (if shutdown then (shutdown, None, w)
      else (True, Some (Process_exit 130), if ra_no_jail_cleanup a then w else snd (jail_cleanup J jail w)))"

section \<open>Properties\<close>

lemma dropWhile_none: "\<forall>x \<in> set xs. \<not> P x \<Longrightarrow> dropWhile P xs = xs"
  by (cases xs) auto

lemma read_digits_all:
  "\<forall>c \<in> set ds. digit_val c \<noteq> None \<Longrightarrow> read_digits 10 bound max_digits acc count ds = Some (n, k, rest) \<Longrightarrow> rest = []"
  by (induction ds arbitrary: acc count) (auto simp: radix_digit_10 split: option.splits if_splits)

lemma trim_printed:
  assumes "\<forall>c \<in> set s. 46 \<le> (of_char c :: nat) \<and> (of_char c :: nat) \<le> 58"
  shows "trim s = s"
proof -
  have "is_ascii s" using assms by (fastforce simp: is_ascii_def list_all_iff)
  moreover have ws: "\<forall>c \<in> set s. \<not> ascii_ws c" using assms by (auto simp: ascii_ws_def)
  then have "dropWhile ascii_ws s = s" "dropWhile ascii_ws (rev s) = rev s" by (simp_all add: dropWhile_none)
  ultimately show ?thesis by (simp add: trim_ascii)
qed

lemma dec_printed: "c \<in> set (dec n) \<Longrightarrow> 46 \<le> (of_char c :: nat) \<and> (of_char c :: nat) \<le> 58"
  using dec_digits [of n] of_char_digit_char by force

lemma digit_char_not_colon: "d < 10 \<Longrightarrow> digit_char d \<noteq> CHR '':''"
proof
  assume "d < 10" and "digit_char d = CHR '':''"
  with of_char_digit_char [of d] have "48 + d = (of_char (CHR '':'') :: nat)" by simp
  with \<open>d < 10\<close> show False by simp
qed

lemma format_ip_printed: "c \<in> set (format_ip ip) \<Longrightarrow> 46 \<le> (of_char c :: nat) \<and> (of_char c :: nat) \<le> 58"
  using dec_printed by (cases ip) (auto simp: format_ip_def)

lemma parse_u16_dec: "parse_u16 (dec (unat (port :: u16))) = Some port"
  using parse_unsigned_dec [of "unat port" "2 ^ 16"] unsigned_less [of port, where 'a = nat] by (simp add: parse_u16_def)

lemma no_socket_addr: "read_ipv4_addr s = None \<Longrightarrow> \<not> starts_with s ''['' \<Longrightarrow> parse_socket_addr s = None"
  by (cases s) (auto simp: parse_socket_addr_def parse_with_def read_socket_addr_v4_def read_socket_addr_v6_def
      read_given_char_def starts_with_def)

lemma port_not_address: "parse_socket_addr (dec n) = None" "parse_socket_addr (CHR '':'' # dec n) = None"
proof -
  have first: "starts_with (dec n) ''['' = False"
    using dec_printed [of "hd (dec n)" n] hd_in_set [OF dec_nonempty, of n]
    by (cases "dec n") (auto simp: starts_with_def)
  have "read_separator (CHR ''.'') 1 octet [] = None" by (simp add: read_separator_def read_given_char_def)
  moreover have "\<forall>c \<in> set (dec n). digit_val c \<noteq> None" using dec_digits [of n] by fastforce
  from read_digits_all [OF this, of 256 "Some 3" 0 0]
  have "octet (dec n) = None \<or> (\<exists>a. octet (dec n) = Some (a, []))"
    by (auto simp: octet_def read_number_def split: option.splits)
  ultimately have "read_ipv4_addr (dec n) = None" by (auto simp: read_ipv4_addr_def)
  then show "parse_socket_addr (dec n) = None" using first by (simp add: no_socket_addr)
  have "read_ipv4_addr (CHR '':'' # dec n) = None"
    by (simp add: read_ipv4_addr_def octet_def read_number_def radix_digit_10 digit_val_def)
  then show "parse_socket_addr (CHR '':'' # dec n) = None" by (simp add: no_socket_addr starts_with_def)
qed

text \<open>
  The bind variables mean what their documentation says: a port, with or without a colon in front
  of it, selects that port on all interfaces, and an IPv4 address with a port selects exactly these; an
  address without a port is left to the defaults.
\<close>

theorem bind_config_forms:
  "parse_bind_config (\<lambda>_. Some (dec (unat port))) name = Some (any_address port) \<and>
   parse_bind_config (\<lambda>_. Some ('':'' @ dec (unat port))) name = Some (any_address port) \<and>
   parse_bind_config (\<lambda>_. Some (format_ip ip @ '':'' @ dec (unat port))) name =
     Some \<lparr>addr_ip = V4 (of_nat (addr ip)), addr_port = port\<rparr> \<and>
   parse_ip_from_env (\<lambda>_. Some (format_ip ip)) name = Some (V4 (of_nat (addr ip)))"
proof -
  have t: "trim (dec (unat port)) = dec (unat port)"
    "trim (CHR '':'' # dec (unat port)) = CHR '':'' # dec (unat port)"
    "trim (format_ip ip @ '':'' @ dec (unat port)) = format_ip ip @ '':'' @ dec (unat port)"
    using dec_printed [of _ "unat port"] format_ip_printed [of _ ip] by (auto intro!: trim_printed)
  have "strip_prefix '':'' (dec (unat port)) = None"
    using dec_digits [of "unat port"] digit_char_not_colon by (fastforce simp: strip_prefix_def prefix_def)
  then show ?thesis
    using t port_not_address [of "unat port"] address_parses [of ip port]
    by (simp add: parse_bind_config_def parse_ip_from_env_def parse_u16_dec strip_prefix_append [of "'':''", simplified])
qed

text \<open>
  The proxy of a strong jail listens on the jail's own host address and nowhere else, whatever the
  bind variables say: they can only choose the port. A server without configuration listens on the
  loopback address, ports 8080 and 8443.
\<close>

theorem bind_addresses_confined:
  "(\<not> ra_server a \<longrightarrow> \<not> ra_weak a \<longrightarrow>
      (\<exists>p q. bind_addresses hash env a config =
         (Some \<lparr>addr_ip = V4 (of_nat (addr (compute_host_ip_for_jail_id hash (jail_id config)))), addr_port = p\<rparr>,
          Some \<lparr>addr_ip = V4 (of_nat (addr (compute_host_ip_for_jail_id hash (jail_id config)))), addr_port = q\<rparr>))) \<and>
   (ra_server a \<longrightarrow> env ''HTTPJAIL_HTTP_BIND'' = None \<longrightarrow> env ''HTTPJAIL_HTTPS_BIND'' = None \<longrightarrow>
      bind_addresses hash env a config =
        (Some \<lparr>addr_ip = LOCALHOST4, addr_port = 8080\<rparr>, Some \<lparr>addr_ip = LOCALHOST4, addr_port = 8443\<rparr>))"
  by (auto simp: bind_addresses_def jail_bind_def resolve_bind_with_default_def parse_bind_config_def
      parse_ip_from_env_def Let_def)

definition no_args :: run_args where
  "no_args = \<lparr>ra_sh = None, ra_proc = None, ra_js = None, ra_js_file = None, ra_request_log = None, ra_weak = False,
     ra_verbose = 0, ra_timeout = None, ra_no_jail_cleanup = False, ra_cleanup = False, ra_server = False,
     ra_test = None, ra_docker_run = False, ra_exec_command = [''true'']\<rparr>"

theorem bind_addresses_confined_witness:
  "bind_addresses (\<lambda>_. 7) (\<lambda>_. None) (no_args\<lparr>ra_server := True\<rparr>) sample_config =
     (Some \<lparr>addr_ip = LOCALHOST4, addr_port = 8080\<rparr>, Some \<lparr>addr_ip = LOCALHOST4, addr_port = 8443\<rparr>)"
  using bind_addresses_confined [of "no_args\<lparr>ra_server := True\<rparr>" "\<lambda>_. 7" "\<lambda>_. None" sample_config] by simp

text \<open>What the package V8 is relied on for: the script \<^verbatim>\<open>false\<close> has the value false.\<close>

definition false_is_false :: "('v, 'g, 'p) v8_ops \<Rightarrow> bool" where
  "false_is_false V =
     (\<forall>s r v g. compile V ''false'' = Some s \<longrightarrow> run_script V s r = Some (v, g) \<longrightarrow>
        \<not> is_object V v \<and> is_boolean V v \<and> \<not> boolean_value V v)"

lemma trim_false: "trim ''false'' = ''false''"
  by (simp add: trim_ascii ascii_ws_def)

lemma false_denied:
  assumes "false_is_false V"
  shows "\<not> fst (execute url_parse V to_json json_of ''false'' meth url ip)"
proof -
  have "\<not> fst r" if x: "execute_with_code V to_json json_of ''false'' info = Inr r" for info r
  proof -
    from x obtain script robj v g where s: "compile V ''false'' = Some script" "run_script V script robj = Some (v, g)"
      and t: "(case value_to_response_string V g v of Inl e \<Rightarrow> Err e
        | Inr t \<Rightarrow> Ok (to_evaluation_result (from_string json_of t))) = Inr r"
      by (auto simp: execute_with_code_def split: sum.splits if_splits option.splits)
    from assms s have "\<not> is_object V v" "is_boolean V v" "\<not> boolean_value V v"
      unfolding false_is_false_def by blast+
    then have "value_to_response_string V g v = Ok ''false''" by (simp add: value_to_response_string_def)
    with t have "r = to_evaluation_result (from_string json_of ''false'')" by simp
    then show ?thesis by (simp add: from_string_def trim_false to_evaluation_result_def)
  qed
  then show ?thesis by (auto simp: execute_def split: sum.splits)
qed

definition default_engine :: js_engine where
  "default_engine = \<lparr>js_code = (''false'', None), js_file_path = None\<rparr>"

lemma default_engine_selected:
  assumes "select_engine V E a w = (Started (JavaScript engine), w')"
    and "ra_sh a = None" and "ra_proc a = None" and "ra_js a = None" and "ra_js_file a = None"
  shows "engine = default_engine"
  using assms
  by (auto simp: select_engine_def js_started_def v8_new_def new_with_file_def default_engine_def split: sum.splits)

lemma default_engine_denies:
  assumes "false_is_false V" and "v8_evaluate url_parse V to_json json_of E meth url ip (default_engine, v) = (r, st)"
  shows "action r = Deny \<and> fst st = default_engine"
proof -
  obtain ok w1 where j: "task_joins E v = (ok, w1)" by fastforce
  obtain b c n where x: "execute url_parse V to_json json_of ''false'' meth url ip = (b, c, n)" by (metis prod.exhaust)
  with false_denied [OF assms(1), of url_parse to_json json_of meth url ip] have "\<not> b" by simp
  with x j assms(2) show ?thesis
    by (cases ok) (auto simp: v8_evaluate_def check_and_reload_file_def default_engine_def execute_js_blocking_def
        load_js_code_def build_result_action)
qed

text \<open>
  Without any rule option the program denies every request: the engine it starts runs the script
  \<^verbatim>\<open>false\<close>, and for every V8 that gives the boolean false for this script, the engine's verdict on every
  request is to deny, whatever the file system and the scheduler do.
\<close>

theorem default_denies_all:
  assumes "select_engine V E a w = (Started (JavaScript engine), w')"
    and "ra_sh a = None" and "ra_proc a = None" and "ra_js a = None" and "ra_js_file a = None"
    and "false_is_false V"
  shows "action (fst (v8_evaluate url_parse V to_json json_of E meth url ip (engine, v))) = Deny"
  using default_engine_denies [OF assms(6)] default_engine_selected [OF assms(1-5)] by (metis prod.collapse)

theorem default_denies_all_witness:
  "\<exists>engine. select_engine accept_all_v8 \<lparr>file_mtime = (\<lambda>_ w. (None, w)), read_to_string = (\<lambda>_ w. (Ok [], w)),
       task_joins = (\<lambda>w. (True, w))\<rparr> no_args () = (Started (JavaScript engine), ()) \<and>
     action (fst (v8_evaluate (\<lambda>_. Err ''bad'') accept_all_v8 (\<lambda>_. Ok []) (\<lambda>_. None)
       \<lparr>file_mtime = (\<lambda>_ w. (None, w)), read_to_string = (\<lambda>_ w. (Ok [], w)), task_joins = (\<lambda>w. (True, w))\<rparr>
       ''GET'' ''http://a/'' ''::1'' (engine, ()))) = Deny"
proof -
  let ?E = "\<lparr>file_mtime = (\<lambda>_ w. (None, w)), read_to_string = (\<lambda>_ w. (Ok [], w)), task_joins = (\<lambda>w. (True, w))\<rparr>"
  have s: "select_engine accept_all_v8 ?E no_args () =
      (Started (JavaScript \<lparr>js_code = (''false'', None), js_file_path = None\<rparr>), ())"
    by (simp add: select_engine_def no_args_def js_started_def v8_new_def new_with_file_def validate_js_code_def
        accept_all_v8_def)
  have f: "false_is_false accept_all_v8" by (simp add: false_is_false_def accept_all_v8_def)
  show ?thesis
    using default_denies_all [OF s _ _ _ _ f, of "\<lambda>_. Err ''bad''" "\<lambda>_. Ok []" "\<lambda>_. None" "''GET''" "''http://a/''" "''::1''" "()"] s
    by (auto simp: no_args_def)
qed

section \<open>The order of a run\<close>

lemma run_with_timeout_trace:
  assumes "\<forall>v. snd (snd (wait_for v)) = snd v" and "\<And>v. snd (snd (exec v)) = snd v @ [e]"
    and "run_with_timeout wait_for limit exec (w, tr) = (r, w', tr')"
  shows "tr' = tr @ [e] \<or> (tr' = tr \<and> (\<not> is_ok r \<or> limit \<noteq> None \<and> r = Ok (ExitCode 124)))"
proof (cases limit)
  case None
  with assms(3) have "exec (w, tr) = (r, w', tr')" by (simp add: run_with_timeout_def)
  with assms(2) [of "(w, tr)"] show ?thesis by simp
next
  case (Some n)
  obtain x w1 t1 where x: "wait_for (w, tr) = (x, w1, t1)" by (metis prod.exhaust)
  with assms(1) have "t1 = tr" by (metis snd_conv)
  with x Some assms(3) have "(case x of Returned \<Rightarrow> exec (w1, tr) | TaskFailed e \<Rightarrow> (Err (''Task execution failed: '' @ e), w1, tr)
      | TimedOut \<Rightarrow> (Ok (ExitCode 124), w1, tr)) = (r, w', tr')"
    by (cases x) (simp_all add: run_with_timeout_def)
  with assms(2) [of "(w1, tr)"] Some show ?thesis by (cases x) auto
qed

text \<open>
  A command is executed only in a jail that was set up successfully, at most once, and the jail is
  cleaned up after it unless that is disabled: the run is a setup, then the command, then the cleanup, and
  it breaks off at the first of them that fails. Only a command whose time is up may still run during the cleanup.
  The program ends with the command's own exit code (1 for a command killed by a signal, 124 after the time
  limit), and with an error otherwise.
\<close>

theorem run_order:
  assumes "\<forall>v. snd (snd (wait_for v)) = snd v"
    and "run_in_jail (watch_jail J) wait_for a extra_env jail (w, []) = (out, w', tr)"
  shows "tr = [InnerSetup False] \<and> (\<exists>e. out = Main_error e) \<or>
    (\<exists>e. tr = [InnerSetup True] \<and> out = Main_error e) \<or>
    (\<exists>e. tr = [InnerSetup True, InnerExec (ra_exec_command a)] \<and> out = Main_error e) \<or>
    (\<exists>status. tr = [InnerSetup True, InnerExec (ra_exec_command a)] \<and> ra_no_jail_cleanup a \<and> out = exit_outcome status) \<or>
    (\<exists>e. tr = [InnerSetup True, InnerExec (ra_exec_command a), InnerCleanup False] \<and> out = Main_error e) \<or>
    (\<exists>status. tr = [InnerSetup True, InnerExec (ra_exec_command a), InnerCleanup True] \<and> out = exit_outcome status) \<or>
    (ra_timeout a \<noteq> None \<and>
      (tr = [InnerSetup True] \<and> ra_no_jail_cleanup a \<and> out = exit_outcome (ExitCode 124) \<or>
       (\<exists>e. tr = [InnerSetup True, InnerCleanup False] \<and> out = Main_error e) \<or>
       tr = [InnerSetup True, InnerCleanup True] \<and> out = exit_outcome (ExitCode 124)))"
proof -
  obtain r1 j1 w1 where s: "jail_setup J 0 jail w = (r1, j1, w1)" by (metis prod.exhaust)
  show ?thesis
  proof (cases r1)
    case (Inl e)
    with assms(2) s have "tr = [InnerSetup False] \<and> out = Main_error e" by (simp add: run_in_jail_def watch_jail_ops)
    then show ?thesis by simp
  next
    case (Inr u)
    let ?exec = "jail_execute (watch_jail J) j1 (ra_exec_command a) (extra_env (w1, [InnerSetup True]))"
    have ex: "snd (snd (?exec v)) = snd v @ [InnerExec (ra_exec_command a)]" for v
      by (simp add: watch_jail_def split: prod.splits)
    obtain r2 w2 tr2 where x: "run_with_timeout wait_for (ra_timeout a) ?exec (w1, [InnerSetup True]) = (r2, w2, tr2)"
      by (metis prod.exhaust)
    have t: "tr2 = [InnerSetup True, InnerExec (ra_exec_command a)] \<or>
        (tr2 = [InnerSetup True] \<and> (\<not> is_ok r2 \<or> ra_timeout a \<noteq> None \<and> r2 = Ok (ExitCode 124)))"
      using run_with_timeout_trace [OF assms(1) ex x] by simp
    have run: "run_in_jail (watch_jail J) wait_for a extra_env jail (w, []) =
        (case r2 of Inl e \<Rightarrow> (Main_error e, w2, tr2)
         | Inr status \<Rightarrow> if ra_no_jail_cleanup a then (exit_outcome status, w2, tr2)
             else case jail_cleanup (watch_jail J) j1 (w2, tr2) of
                    (Inl e, w) \<Rightarrow> (Main_error e, w) | (Inr _, w) \<Rightarrow> (exit_outcome status, w))"
      using Inr s x by (simp add: run_in_jail_def watch_jail_ops split: sum.splits)
    obtain r3 w3 where c: "jail_cleanup J j1 w2 = (r3, w3)" by fastforce
    show ?thesis
    proof (cases r2)
      case (Inl e)
      with assms(2) run have "tr = tr2 \<and> out = Main_error e" by simp
      with t show ?thesis by auto
    next
      case (Inr status)
      with assms(2) run have o: "(if ra_no_jail_cleanup a then (exit_outcome status, w2, tr2)
          else case jail_cleanup (watch_jail J) j1 (w2, tr2) of
                 (Inl e, w) \<Rightarrow> (Main_error e, w) | (Inr _, w) \<Rightarrow> (exit_outcome status, w)) = (out, w', tr)" by simp
      have "tr = tr2 \<and> ra_no_jail_cleanup a \<and> out = exit_outcome status \<or>
          tr = tr2 @ [InnerCleanup True] \<and> out = exit_outcome status \<or>
          tr = tr2 @ [InnerCleanup False] \<and> (\<exists>e. out = Main_error e)"
        using o c by (cases r3) (auto simp: watch_jail_ops split: if_splits)
      moreover have "tr2 = [InnerSetup True, InnerExec (ra_exec_command a)] \<or>
          tr2 = [InnerSetup True] \<and> ra_timeout a \<noteq> None \<and> status = ExitCode 124"
        using t Inr by simp
      ultimately show ?thesis by (elim disjE conjE exE) (simp_all, blast+)
    qed
  qed
qed

theorem run_order_witness:
  "\<exists>w'. run_in_jail (watch_jail (weak_jail (\<lambda>_ w. (Ok (ExitCode 3), w)) (\<lambda>_. None))) (\<lambda>v. (Returned, v)) no_args (\<lambda>_. [])
     sample_config ((), []) = (Process_exit 3, w', [InnerSetup True, InnerExec [''true''], InnerCleanup True])"
proof -
  let ?J = "weak_jail (\<lambda>_ w. (Ok (ExitCode 3), w)) (\<lambda>_. None) :: (jail_config, unit) jail_ops"
  obtain out w' tr where r: "run_in_jail (watch_jail ?J) (\<lambda>v. (Returned, v)) no_args (\<lambda>_. []) sample_config ((), []) = (out, w', tr)"
    by (metis prod.exhaust)
  have o: "out = Process_exit 3"
    using r by (auto simp: run_in_jail_def watch_jail_def weak_jail_def weak_setup_def weak_execute_def no_args_def
        run_with_timeout_def exit_outcome_def)
  have "\<forall>v. snd (snd (Returned, v :: unit \<times> life_event list)) = snd v" by simp
  from run_order [OF this r] o r show ?thesis by (auto simp: no_args_def)
qed

text \<open>
  The scan of \<^verbatim>\<open>/etc/netns\<close> hands the whole directory name to the cleanup, which puts the prefix in front of
  it once more: the jail whose directory was found keeps all its resources.
\<close>

lemma netns_scan_misses:
  "held jid (snd (snd (linux_cleanup_orphaned (watch_sys S) (''httpjail_'' @ jid) (w, tr)))) = held jid tr"
proof -
  have "length jid \<noteq> length (''httpjail_'' @ jid)" by simp
  then have "jid \<noteq> ''httpjail_'' @ jid" by metis
  then show ?thesis by (rule cleanup_other_jail)
qed

text \<open>
  The test mode reports the engine's own verdict: it asks the engine once, for the address
  127.0.0.1, exits with 0 exactly if the request is allowed and with 1 otherwise, and prints the verdict
  with the method and the URL that it evaluated, then the engine's message if there is one.
\<close>

theorem test_mode_reports:
  "case test_request parse_method vals of (meth, url) \<Rightarrow>
     case evaluate engine meth url ''127.0.0.1'' s of (eval, s') \<Rightarrow>
       case run_test parse_method engine vals s of ((ls, code), s'') \<Rightarrow>
         s'' = s' \<and> (code = 0 \<longleftrightarrow> action eval = Allow) \<and> code \<le> 1 \<and>
         hd ls = (if code = 0 then ''ALLOW '' else ''DENY '') @ meth @ '' '' @ url \<and>
         tl ls = (case eval_context eval of Some c \<Rightarrow> [c] | None \<Rightarrow> [])"
  by (auto simp: run_test_def evaluate_with_context_def Let_def split: prod.splits action.splits option.splits)

end
