(* ===== verification/Engine_Box.thy ===== *)
theory Engine_Box
  imports Shell_Engine Proc_Engine Main_Cli Proxy_TLS
begin

text \<open>
  The engine that \<open>main\<close> hands to the proxy: the boxed trait object that it builds from the options
  (\<^verbatim>\<open>src/src/main.rs\<close>), wrapped with the request log (\<^verbatim>\<open>src/src/rules.rs\<close>). The state of the boxed engine is part of the
  state of the program; the three engines are those of the other theories.
\<close>

section \<open>The boxed engine\<close>

text \<open>What the three engines use of the outside.\<close>

record ('v, 'g, 'p, 'c, 'w) engine_env =
  en_url_parse :: url_parser
  en_to_json :: "request_info \<Rightarrow> string result"
  en_json_of :: json_parser
  en_run :: "'w runner"
  en_proc :: "('c, 'w) proc_ops"
  en_v8 :: "('v, 'g, 'p) v8_ops"
  en_js :: "'w js_env"

datatype 'c engine_box = ShellBox string | ProcBox string "'c option" | JsBox js_engine

definition box_of_source :: "rule_source \<Rightarrow> 'c engine_box" where
  "box_of_source source =
     (case source of
        ShellScript script \<Rightarrow> ShellBox script
      | LineProcessor program \<Rightarrow> ProcBox program None
      | JavaScript engine \<Rightarrow> JsBox engine)"

fun boxed_evaluate :: "('v, 'g, 'p, 'c, 'w) engine_env \<Rightarrow> ('c engine_box \<times> 'w) evaluator" where
  "boxed_evaluate B meth url ip (ShellBox script, w) =
     (case evaluate (shell_rule_engine (en_url_parse B) (en_run B) script) meth url ip w of
        (r, w) \<Rightarrow> (r, (ShellBox script, w)))"
| "boxed_evaluate B meth url ip (ProcBox program child, w) =
     (case evaluate (proc_rule_engine (en_url_parse B) (en_to_json B) (en_json_of B) (en_proc B) program) meth url ip
             \<lparr>process = child, world = w\<rparr> of
        (r, st) \<Rightarrow> (r, (ProcBox program (process st), world st)))"
| "boxed_evaluate B meth url ip (JsBox engine, w) =
     (case evaluate (v8_rule_engine (en_url_parse B) (en_v8 B) (en_to_json B) (en_json_of B) (en_js B)) meth url ip
             (engine, w) of
        (r, (engine, w)) \<Rightarrow> (r, (JsBox engine, w)))"

definition boxed_engine :: "('v, 'g, 'p, 'c, 'w) engine_env \<Rightarrow> rule_source \<Rightarrow> ('c engine_box \<times> 'w) rule_engine_trait" where
  "boxed_engine B source =
     \<lparr>evaluate = boxed_evaluate B,
      engine_name = (case source of ShellScript _ \<Rightarrow> ''shell'' | LineProcessor _ \<Rightarrow> ''proc'' | JavaScript _ \<Rightarrow> ''v8_js'')\<rparr>"

text \<open>\<open>RuleEngine::from_trait\<close> on the boxed engine, with the log file that the options name.\<close>

definition program_engine ::
  "('v, 'g, 'p, 'c, 'w) engine_env \<Rightarrow> rule_source \<Rightarrow> 'f log_ops \<Rightarrow> 'f option \<Rightarrow> (('c engine_box \<times> 'w) \<times> 'f option) rule_engine_trait" where
  "program_engine B source L log = from_trait L (boxed_engine B source) log"

section \<open>The engine contract\<close>

text \<open>The boxed engine has the contract of an engine because each of the three has it.\<close>

interpretation boxed: rule_engine "boxed_engine B source" "\<lambda>u. is_ok (en_url_parse B u)"
  for B :: "('v, 'g, 'p, 'c, 'w) engine_env" and source
proof unfold_locales
  fix m u ip and s :: "'c engine_box \<times> 'w"
  note l = shell.limit_allow line_proc.limit_allow v8.limit_allow
  note d = shell.unparsable_denied line_proc.unparsable_denied v8.unparsable_denied
  obtain box w where s: "s = (box, w)" by fastforce
  show "limit_only_on_allow (fst (evaluate (boxed_engine B source) m u ip s))"
    by (cases box) (simp_all add: s boxed_engine_def case_prod_beta l)
  assume "\<not> is_ok (en_url_parse B u)"
  then show "action (fst (evaluate (boxed_engine B source) m u ip s)) = Deny"
    by (cases box) (simp_all add: s boxed_engine_def case_prod_beta d)
qed

section \<open>What a rule permits\<close>

text \<open>
  The specification: a script permits a request if it is run with the request's variables and exits
  successfully; a line processor if the child that then runs takes the request and answers a line that reads as an
  allowance, at the first attempt or after one that failed; a JavaScript rule if the script in force runs to a
  value that reads as one.
\<close>

definition answered :: "('c, 'w) proc_ops \<Rightarrow> string \<Rightarrow> string \<Rightarrow> ('c, 'w) proc_state \<Rightarrow> string \<Rightarrow> bool" where
  "answered ops program req st l \<longleftrightarrow>
     (\<exists>st1 c w1 w2 w3. ensure_process_running ops program st = (Ok (), st1) \<and> process st1 = Some c \<and>
        write_all ops c (req @ newline) (world st1) = (True, w1) \<and> flush ops c w1 = (True, w2) \<and>
        read_line ops c w2 = (Line l, w3))"

fun permits :: "('v, 'g, 'p, 'c, 'w) engine_env \<Rightarrow> 'c engine_box \<Rightarrow> 'w \<Rightarrow> string \<Rightarrow> string \<Rightarrow> string \<Rightarrow> bool" where
  "permits B (ShellBox script) w meth url ip \<longleftrightarrow>
     (\<exists>p out err. en_url_parse B url = Ok p \<and>
        fst (en_run B (script_command script url meth (pu_scheme p) (case pu_host p of Some h \<Rightarrow> h | None \<Rightarrow> []) (pu_path p) ip) w) =
          Completed True out err)"
| "permits B (ProcBox program child) w meth url ip \<longleftrightarrow>
     (\<exists>info req st l. from_request (en_url_parse B) meth url ip = Ok info \<and> en_to_json B info = Ok req \<and>
        (st = \<lparr>process = child, world = w\<rparr> \<or>
         (\<exists>e. send_request_to_process (en_proc B) (en_json_of B) program req \<lparr>process = child, world = w\<rparr> = (Err e, st))) \<and>
        answered (en_proc B) program req st l \<and> trim l \<noteq> [] \<and> allows (from_string (en_json_of B) (trim l)))"
| "permits B (JsBox engine) w meth url ip \<longleftrightarrow>
     (\<exists>self w1 info req parse r script v g text.
        check_and_reload_file (en_v8 B) (en_js B) (engine, w) = (self, w1) \<and>
        from_request (en_url_parse B) meth url ip = Ok info \<and> en_to_json B info = Ok req \<and>
        json_parse_fn (en_v8 B) = Ok parse \<and> parse req = Some r \<and>
        compile (en_v8 B) (load_js_code self) = Some script \<and> run_script (en_v8 B) script r = Some (v, g) \<and>
        value_to_response_string (en_v8 B) g v = Ok text \<and> allows (from_string (en_json_of B) text))"

lemma send_answer:
  assumes "send_request_to_process ops json_of program req st = (Ok v, st')" and "fst v"
  shows "\<exists>l. answered ops program req st l \<and> trim l \<noteq> [] \<and> allows (from_string json_of (trim l))"
proof -
  obtain x st1 where e: "ensure_process_running ops program st = (x, st1)" by fastforce
  with assms(1) obtain c where c: "x = Ok ()" "process st1 = Some c"
    by (auto simp: send_request_to_process_def split: sum.splits option.splits)
  obtain a w1 where w: "write_all ops c (req @ newline) (world st1) = (a, w1)" by fastforce
  obtain b w2 where f: "flush ops c w1 = (b, w2)" by fastforce
  obtain y w3 where l: "read_line ops c w2 = (y, w3)" by fastforce
  have ab: "a" "b" and r: "read_response ops json_of c (st1\<lparr>world := w2\<rparr>) = (Ok v, st')"
    using assms(1) e c w f by (auto simp: send_request_to_process_def split: bool.splits)
  then obtain t where "y = Line t" "trim t \<noteq> []" "v = to_evaluation_result (from_string json_of (trim t))"
    using l by (auto simp: read_response_def Let_def split: line_read.splits if_splits)
  with e c w f l ab assms(2) show ?thesis unfolding answered_def by (auto simp: allows_def)
qed

lemma attempts_answer:
  assumes "attempts 2 ops json_of program req st = (r, st')" and "action r = Allow"
  shows "\<exists>st1 l. (st1 = st \<or> (\<exists>e. send_request_to_process ops json_of program req st = (Err e, st1))) \<and>
    answered ops program req st1 l \<and> trim l \<noteq> [] \<and> allows (from_string json_of (trim l))"
proof -
  obtain x st1 where x: "send_request_to_process ops json_of program req st = (x, st1)" by fastforce
  obtain y st2 where y: "send_request_to_process ops json_of program req st1 = (y, st2)" by fastforce
  show ?thesis
  proof (cases x)
    case (Inr v)
    with x assms have "fst v" by (auto simp: numeral_2_eq_2 verdict_result_action split: if_splits)
    with send_answer [OF x [unfolded Inr]] show ?thesis by auto
  next
    case (Inl e)
    with x y assms obtain v where "y = Ok v" "fst v"
      by (cases y) (auto simp: numeral_2_eq_2 engine_simps verdict_result_action split: if_splits)
    with send_answer [of ops json_of program req st1 v st2] x y Inl show ?thesis by auto
  qed
qed

lemma boxed_allow_permits:
  assumes "action (fst (evaluate (boxed_engine B source) meth url ip (box, w))) = Allow"
  shows "permits B box w meth url ip"
proof (cases box)
  case (ShellBox script)
  with assms show ?thesis
    by (auto simp: boxed_engine_def engine_simps Let_def split: prod.splits sum.splits script_outcome.splits if_splits)
next
  case (ProcBox program child)
  let ?st = "\<lparr>process = child, world = w\<rparr>"
  obtain r st' where e: "execute_program (en_url_parse B) (en_to_json B) (en_json_of B) (en_proc B) program meth url ip ?st = (r, st')"
    by fastforce
  with assms ProcBox have a: "action r = Allow" by (simp add: boxed_engine_def proc_rule_engine_def)
  with e obtain info req where i: "from_request (en_url_parse B) meth url ip = Ok info" "en_to_json B info = Ok req"
    and t: "attempts 2 (en_proc B) (en_json_of B) program req ?st = (r, st')"
    by (auto simp: execute_program_def engine_simps split: sum.splits)
  from attempts_answer [OF t a] i show ?thesis unfolding ProcBox permits.simps by metis
next
  case (JsBox engine)
  with assms have "action (fst (v8_evaluate (en_url_parse B) (en_v8 B) (en_to_json B) (en_json_of B) (en_js B) meth url ip (engine, w))) = Allow"
    by (simp add: boxed_engine_def v8_rule_engine_def case_prod_beta)
  from v8_allow_ran [OF this] code_allows show ?thesis unfolding JsBox permits.simps by metis
qed

section \<open>Property\<close>

text \<open>
  (C13) From the options to the wire: with the engine that the program builds from any of its rule options, with or without
  a request log, a request that the HTTP handler or the handler of decrypted requests hands to the upstream client was
  permitted, for its own method and its full URL, by the rule of that option in the state that the engine had:
  by the successful exit of the script, by a line of the child process, or by the value of the script.
\<close>

theorem sent_only_if_permitted:
  assumes "ctx_engine C = program_engine B source L log"
    and "SentUp q \<in> set (snd (snd (handle_http_request (watch C) req ip (((box, w), f), [])))) \<and>
        url = http_full_url C req \<or>
      SentUp q \<in> set (snd (snd (handle_decrypted_https_request (watch C) req host ip (((box, w), f), [])))) \<and>
        url = https_url host req"
  shows "permits B box w (req_method q) url ip \<and> uri_parse C url = Ok (req_uri q)"
proof -
  let ?r = "fst (evaluate (ctx_engine C) (req_method req) url ip ((box, w), f))"
  have "SentUp q \<in> set (allowed_trace C req url ?r)"
    using assms(2) by (auto simp: handle_http_request_trace decrypted_trace Let_def split: if_splits)
  then obtain t where "action ?r = Allow" "uri_parse C url = Ok t"
    "upstream_request (hdr C) (loop_nonce C) req t (max_tx_bytes ?r) = WithinLimit q"
    using allowed_trace_cases [of C req url ?r] by auto
  moreover from this(1) have "permits B box w (req_method req) url ip"
    by (intro boxed_allow_permits) (simp add: assms(1) program_engine_def from_trait_fst)
  ultimately show ?thesis by (simp add: upstream_request_parts)
qed

definition yes_env :: "(bool, unit, string, unit, unit) engine_env" where
  \<comment> \<open>every script exits successfully\<close>
  "yes_env =
     \<lparr>en_url_parse = (\<lambda>_. Ok \<lparr>pu_scheme = ''http'', pu_host = None, pu_path = ''/''\<rparr>), en_to_json = (\<lambda>_. Ok ''{}''),
      en_json_of = (\<lambda>_. None), en_run = (\<lambda>_ w. (Completed True [] [], w)), en_proc = echo_ops ''true'', en_v8 = accept_all_v8,
      en_js = \<lparr>file_mtime = (\<lambda>_ w. (None, w)), read_to_string = (\<lambda>_ w. (Ok [], w)), task_joins = (\<lambda>w. (True, w))\<rparr>\<rparr>"

definition yes_proxy :: "(header_list, unit, unit, (unit engine_box \<times> unit) \<times> string option) proxy_ctx" where
  "yes_proxy =
     \<lparr>hdr = list_headers, uri_to_string = (\<lambda>u. ''http://'' @ the (uri_authority u)), uri_parse = (\<lambda>u. Ok (sample_uri u)),
      ctx_engine = program_engine yes_env (ShellScript ''rule'') (append_file ''now'') None,
      client_request = (\<lambda>q w. (Err ''down'', w)), loop_nonce = ''7''\<rparr>"

theorem sent_only_if_permitted_witness:
  "permits yes_env (box_of_source (ShellScript ''rule'')) () ''GET'' ''http://a'' ''::1''"
proof -
  let ?req = "sample_request ''a'' [] ()"
  let ?q = "prepare_upstream_request list_headers ?req (sample_uri ''http://a'') ''7''"
  have e: "ctx_engine yes_proxy = program_engine yes_env (ShellScript ''rule'') (append_file ''now'') None" by (simp add: yes_proxy_def)
  have u: "http_full_url yes_proxy ?req = ''http://a''" by (simp add: yes_proxy_def sample_defs Let_def)
  have v: "action (fst (evaluate (ctx_engine yes_proxy) m x i ((ShellBox ''rule'', ()), None))) = Allow"
    "max_tx_bytes (fst (evaluate (ctx_engine yes_proxy) m x i ((ShellBox ''rule'', ()), None))) = None" for m x i
    by (simp_all add: e program_engine_def from_trait_fst boxed_engine_def yes_env_def engine_simps trim_def Let_def)
  have "SentUp ?q \<in> set (snd (snd (handle_http_request (watch yes_proxy) ?req ''::1'' (((ShellBox ''rule'', ()), None), []))))"
    by (simp add: handle_http_request_trace allowed_trace_def upstream_request_def v u Let_def)
      (simp add: yes_proxy_def sample_defs)
  with u have "SentUp ?q \<in> set (snd (snd (handle_http_request (watch yes_proxy) ?req ''::1'' (((ShellBox ''rule'', ()), None), [])))) \<and>
      ''http://a'' = http_full_url yes_proxy ?req \<or>
    SentUp ?q \<in> set (snd (snd (handle_decrypted_https_request (watch yes_proxy) ?req [] ''::1'' (((ShellBox ''rule'', ()), None), [])))) \<and>
      ''http://a'' = https_url [] ?req" by simp
  from sent_only_if_permitted [OF e this] show ?thesis
    by (simp only: box_of_source_def rule_source.case prepared_parts) (simp add: sample_request_def)
qed

end
