(* ===== verification/Main_Run.thy ===== *)
theory Main_Run
  imports Engine_Box Cert_Manager
begin

text \<open>
  The body of \<open>main\<close> in \<^verbatim>\<open>src/src/main.rs\<close> on Linux, over the parts modelled in the other theories, and the
  boxed jail that \<open>create_jail\<close> in \<^verbatim>\<open>src/src/jail/mod.rs\<close> returns.
\<close>

section \<open>Boxed jails\<close>

text \<open>What the jails use of the host.\<close>

record 'w host =
  host_sys :: "'w sys_ops"
  host_dns :: "'w dns_ops"
  host_canary :: "'w canary_ops"
  host_run :: "sys_command \<Rightarrow> ('w, exit_status) fallible"
  host_uid :: nat
  host_env :: "string \<Rightarrow> string option"
  host_hash :: "string \<Rightarrow> u64"
  host_data_dir :: "string option"

datatype boxed_jail =
    WeakBox jail_config
  | LinuxBox "linux_jail managed_jail"
  | DockerBox "docker_jail managed_jail"

definition weak_ops :: "'w host \<Rightarrow> (jail_config, 'w) jail_ops" where
  "weak_ops H = weak_jail (host_run H) (host_env H)"

definition linux_ops :: "'w host \<Rightarrow> (linux_jail managed_jail, 'w) jail_ops" where
  "linux_ops H = managed_jail_ops (host_canary H) (linux_jail_ops (host_uid H) (host_env H) (host_sys H) (host_dns H))"

definition docker_ops :: "'w host \<Rightarrow> (docker_jail managed_jail, 'w) jail_ops" where
  "docker_ops H =
     managed_jail_ops (host_canary H)
       (docker_jail_ops (host_hash H) (host_uid H) (host_sys H) (host_dns H) (fs_exists (host_canary H))
          (get_canary_dir (host_data_dir H)))"

definition boxed_new :: "'w host \<Rightarrow> jail_choice \<Rightarrow> jail_config \<Rightarrow> boxed_jail" where
  "boxed_new H choice config =
     (case choice of
        UseWeak \<Rightarrow> WeakBox config
      | UseManagedDocker \<Rightarrow> DockerBox (managed_new (host_data_dir H) (docker_new (host_hash H) config) config)
      | UseManagedLinux \<Rightarrow> LinuxBox (managed_new (host_data_dir H) (linux_new (host_hash H) config) config))"

definition rebox :: "('a \<Rightarrow> boxed_jail) \<Rightarrow> unit result \<times> 'a \<times> 'w \<Rightarrow> unit result \<times> boxed_jail \<times> 'w" where
  "rebox f r = (case r of (x, j, w) \<Rightarrow> (x, f j, w))"

fun box_setup :: "'w host \<Rightarrow> u16 \<Rightarrow> boxed_jail \<Rightarrow> 'w \<Rightarrow> unit result \<times> boxed_jail \<times> 'w" where
  "box_setup H port (WeakBox j) w = rebox WeakBox (jail_setup (weak_ops H) port j w)"
| "box_setup H port (LinuxBox j) w = rebox LinuxBox (jail_setup (linux_ops H) port j w)"
| "box_setup H port (DockerBox j) w = rebox DockerBox (jail_setup (docker_ops H) port j w)"

fun box_execute :: "'w host \<Rightarrow> boxed_jail \<Rightarrow> string list \<Rightarrow> (string \<times> string) list \<Rightarrow> ('w, exit_status) fallible" where
  "box_execute H (WeakBox j) = jail_execute (weak_ops H) j"
| "box_execute H (LinuxBox j) = jail_execute (linux_ops H) j"
| "box_execute H (DockerBox j) = jail_execute (docker_ops H) j"

fun box_cleanup :: "'w host \<Rightarrow> boxed_jail \<Rightarrow> ('w, unit) fallible" where
  "box_cleanup H (WeakBox j) = jail_cleanup (weak_ops H) j"
| "box_cleanup H (LinuxBox j) = jail_cleanup (linux_ops H) j"
| "box_cleanup H (DockerBox j) = jail_cleanup (docker_ops H) j"

fun box_ident :: "'w host \<Rightarrow> boxed_jail \<Rightarrow> string" where
  "box_ident H (WeakBox j) = jail_ident (weak_ops H) j"
| "box_ident H (LinuxBox j) = jail_ident (linux_ops H) j"
| "box_ident H (DockerBox j) = jail_ident (docker_ops H) j"

fun box_drop :: "'w host \<Rightarrow> boxed_jail \<Rightarrow> 'w \<Rightarrow> 'w" where
  "box_drop H (WeakBox j) = jail_drop (weak_ops H) j"
| "box_drop H (LinuxBox j) = jail_drop (linux_ops H) j"
| "box_drop H (DockerBox j) = jail_drop (docker_ops H) j"

text \<open>The cleanup of an orphan belongs to a type of jails, not to a boxed jail; main uses the one of the Linux jail.\<close>

definition boxed_ops :: "'w host \<Rightarrow> (boxed_jail, 'w) jail_ops" where
  "boxed_ops H =
     \<lparr>jail_setup = box_setup H, jail_execute = box_execute H, jail_cleanup = box_cleanup H, jail_ident = box_ident H,
      jail_cleanup_orphaned = linux_cleanup_orphaned (host_sys H), jail_drop = box_drop H\<rparr>"

section \<open>main\<close>

text \<open>
  What the proxy uses: keys, certificates and files of the authority, the directories of the user, the TLS
  configuration, sockets, the task spawner of the runtime and the random number of the loop nonce.
\<close>

record ('k, 'c, 'l, 'w) proxy_env =
  pe_rcgen :: "('k, 'c, 'w) rcgen_ops"
  pe_files :: "'w ca_files"
  pe_new_cache :: "nat \<Rightarrow> 'l"
  pe_config_dir :: "string option"
  pe_home_dir :: "string option"
  pe_tls :: "string tls_env"
  pe_net :: "'w net_ops"
  pe_show_ip :: "ip_addr \<Rightarrow> string"
  pe_spawn :: "rule_source \<Rightarrow> string client option \<Rightarrow> proto \<Rightarrow> nat \<Rightarrow> 'w \<Rightarrow> 'w"
  pe_nonce :: "'w \<Rightarrow> u64 \<times> 'w"

text \<open>
  The rest of what \<open>main\<close> calls: random numbers, the file of the request log (\<open>'f\<close>), what the engines use, standard
  output and the wait for a command with a time limit.
\<close>

record ('v, 'g, 'p, 'ch, 'f, 'k, 'c, 'l, 'w) main_env =
  me_random :: "nat \<Rightarrow> 'w \<Rightarrow> nat \<times> 'w"
  me_open_log :: "string \<Rightarrow> ('w, 'f) fallible"
  me_log :: "'f log_ops"
  me_engines :: "('v, 'g, 'p, 'ch, 'w) engine_env"
  me_parse_method :: "string \<Rightarrow> string option"
  me_print :: "string list \<Rightarrow> 'w \<Rightarrow> 'w"
  me_proxy :: "('k, 'c, 'l, 'w) proxy_env"
  me_wait :: "'w \<Rightarrow> wait \<times> 'w"

datatype main_end = Ended_with outcome | Serving

definition open_request_log :: "('v, 'g, 'p, 'ch, 'f, 'k, 'c, 'l, 'w) main_env \<Rightarrow> run_args \<Rightarrow> ('w, 'f option) fallible" where
  "open_request_log M a =
     (case ra_request_log a of
        Some path \<Rightarrow>
          and_then (with_ctx (''Failed to open request log file: '' @ path) (me_open_log M path)) (\<lambda>f. return_ok (Some f))
      | None \<Rightarrow> return_ok None)"

text \<open>\<open>ProxyServer::new\<close> and \<open>start\<close>; no result is a panic, in which the program ends with the exit code 101.\<close>

definition start_proxy ::
  "('k, 'c, 'l, 'w) proxy_env \<Rightarrow> 'w host \<Rightarrow> rule_source \<Rightarrow> socket_addr option \<Rightarrow> socket_addr option \<Rightarrow> 'w \<Rightarrow>
     (u16 \<times> u16) result option \<times> 'w" where
  "start_proxy P H source http https w =
     (case cert_manager_new (pe_rcgen P) (pe_files P) (pe_new_cache P) (pe_config_dir P) w of (manager, w) \<Rightarrow>
        case pe_nonce P w of (rnd, w') \<Rightarrow>
          (case proxy_server_new manager (get_ca_cert_der (pe_rcgen P)) (pe_tls P)
                  (host_env H ''HTTPJAIL_DANGER_DISABLE_CERT_VALIDATION'' \<noteq> None) rnd http https source None of
             None \<Rightarrow> (None, w)
           | Some (server, client) \<Rightarrow>
               (case proxy_server_start (pe_net P) (pe_show_ip P) (pe_spawn P source client) server w' of
                  (ports, w) \<Rightarrow> (Some ports, w))))"

definition main_ca_env ::
  "('v, 'g, 'p, 'ch, 'f, 'k, 'c, 'l, 'w) main_env \<Rightarrow> 'w host \<Rightarrow> 'w \<Rightarrow> (string \<times> string) list result" where
  "main_ca_env M H w =
     get_ca_env_vars (\<lambda>p. ca_exists (pe_files (me_proxy M)) p w) (pe_config_dir (me_proxy M)) (host_env H ''SUDO_USER'')
       (pe_home_dir (me_proxy M))"

definition main_jail ::
  "('v, 'g, 'p, 'ch, 'f, 'k, 'c, 'l, 'w) main_env \<Rightarrow> 'w host \<Rightarrow> run_args \<Rightarrow> jail_config \<Rightarrow> u16 \<times> u16 \<Rightarrow> 'w \<Rightarrow> outcome \<times> 'w" where
  "main_jail M H a config ports w =
     (let w = snd (fs_create_dir_all (host_canary H) (get_canary_dir (host_data_dir H)) w);
          config = config\<lparr>http_proxy_port := fst ports, https_proxy_port := snd ports\<rparr>
      in case create_jail Linux (ra_weak a) (ra_docker_run a) of
           Inl e \<Rightarrow> (Main_error e, w)
         | Inr choice \<Rightarrow>
             run_in_jail (boxed_ops H) (me_wait M) a (\<lambda>w. command_env (main_ca_env M H w) (host_env H ''RES_OPTIONS''))
               (boxed_new H choice config) w)"

definition main_engine ::
  "('v, 'g, 'p, 'ch, 'f, 'k, 'c, 'l, 'w) main_env \<Rightarrow> 'w host \<Rightarrow> run_args \<Rightarrow> jail_config \<Rightarrow> 'f option \<Rightarrow> rule_source \<Rightarrow> 'w \<Rightarrow>
     main_end \<times> 'w" where
  "main_engine M H a config request_log source w =
     (case ra_test a of
        Some vals \<Rightarrow>
          (case run_test (me_parse_method M) (program_engine (me_engines M) source (me_log M) request_log) vals
                  ((box_of_source source, w), request_log) of
             ((printed, code), ((_, w), _)) \<Rightarrow> (Ended_with (Process_exit (int code)), me_print M printed w))
      | None \<Rightarrow>
          (case bind_addresses (host_hash H) (host_env H) a config of
             (http, https) \<Rightarrow>
               (case start_proxy (me_proxy M) H source http https w of
                  (None, w) \<Rightarrow> (Ended_with (Process_exit 101), w)
                | (Some (Inl e), w) \<Rightarrow> (Ended_with (Main_error e), w)
                | (Some (Inr ports), w) \<Rightarrow>
                    (if ra_server a then (Serving, w)
                     else case main_jail M H a config ports w of (out, w) \<Rightarrow> (Ended_with out, w)))))"

definition httpjail_main :: "('v, 'g, 'p, 'ch, 'f, 'k, 'c, 'l, 'w) main_env \<Rightarrow> 'w host \<Rightarrow> run_args \<Rightarrow> 'w \<Rightarrow> main_end \<times> 'w" where
  "httpjail_main M H a w =
     (if ra_cleanup a then
        (case direct_cleanup_orphans (host_canary H) (linux_cleanup_orphaned (host_sys H))
                (get_canary_dir (host_data_dir H)) w of
           (Inl e, w) \<Rightarrow> (Ended_with (Main_error e), w)
         | (Inr _, w) \<Rightarrow> (Ended_with Finished_ok, w))
      else case jail_config_new (me_random M) w of
        (config, w) \<Rightarrow>
          (case open_request_log M a w of
             (Inl e, w) \<Rightarrow> (Ended_with (Main_error e), w)
           | (Inr request_log, w) \<Rightarrow>
               (case select_engine (en_v8 (me_engines M)) (en_js (me_engines M)) a w of
                  (Started source, w) \<Rightarrow> main_engine M H a config request_log source w
                | (Exited code, w) \<Rightarrow> (Ended_with (Process_exit (int code)), w)
                | (Aborted e, w) \<Rightarrow> (Ended_with (Main_error e), w))))"

section \<open>Lemmas\<close>

lemma lift_canary_quiet:
  "snd (snd (fs_create_dir_all (lift_canary F) p st)) = snd st"
  "snd (snd (fs_write_empty (lift_canary F) p st)) = snd st"
  "snd (spawn_heartbeat (lift_canary F) p i st) = snd st"
  by (simp_all add: lift_canary_def split: prod.splits)

lemma create_canary_quiet: "snd (snd (create_canary (lift_canary F) m st)) = snd st"
proof -
  have 1: "snd (snd (with_ctx c (fs_write_empty (lift_canary F) p) s)) = snd s" for c p s
    by (simp add: with_ctx_def lift_canary_quiet)
  have 2: "snd (snd (with_ctx c (fs_create_dir_all (lift_canary F) p) s)) = snd s" for c p s
    by (simp add: with_ctx_def lift_canary_quiet)
  show ?thesis
    using 2 [of "''Failed to create canary directory''" "mj_canary_dir m" st]
    by (auto simp: create_canary_def 1 split: prod.splits sum.splits)
qed

lemma start_heartbeat_quiet:
  "start_heartbeat (lift_canary F) m st = (r, m', st') \<Longrightarrow> snd st' = snd st \<and> mj_jail m' = mj_jail m"
  using create_canary_quiet [of F m st]
  by (auto simp: start_heartbeat_def lift_canary_quiet split: prod.splits sum.splits if_splits)

lemma managed_setup_inner:
  assumes "managed_setup (lift_canary F) J port m st = (Ok u, m', w', tr')" and "mj_enable_heartbeat m"
  shows "\<exists>w1 tr1 w2. jail_setup J port (mj_jail m) (w1, tr1) = (Ok (), mj_jail m', w2, tr')"
proof -
  obtain r0 w1 tr1 where p: "managed_prepare (lift_canary F) J m st = (r0, w1, tr1)" by (metis prod.exhaust)
  obtain r j w2 tr2 where s: "jail_setup J port (mj_jail m) (w1, tr1) = (r, j, w2, tr2)" by (metis prod.exhaust)
  have "is_ok r0 \<and> is_ok r \<and> start_heartbeat (lift_canary F) (m\<lparr>mj_jail := j\<rparr>) (w2, tr2) = (Ok u, m', w', tr')"
    using assms p s by (cases r0; cases r) (auto simp: managed_setup_def Let_def)
  then show ?thesis
    using start_heartbeat_quiet [of F "m\<lparr>mj_jail := j\<rparr>" "(w2, tr2)" "Ok u" m' "(w', tr')"] s by (cases r) auto
qed

text \<open>The configuration that the jail is created with: the ports are those that the proxy listens on.\<close>

definition with_ports :: "u16 \<times> u16 \<Rightarrow> jail_config \<Rightarrow> jail_config" where
  "with_ports ports config = config\<lparr>http_proxy_port := fst ports, https_proxy_port := snd ports\<rparr>"

definition jail_host_ip :: "'w host \<Rightarrow> jail_config \<Rightarrow> ip4" where
  "jail_host_ip H config = compute_host_ip_for_jail_id (host_hash H) (jail_id config)"

lemma subnet_host_ip: "fst (compute_subnet_for_jail hash jid) = compute_host_ip_for_jail_id hash jid"
  using subnet_addresses [of hash jid] by auto

lemma linux_box_confined:
  assumes "host_sys H = watch_sys S" and "host_dns H = watch_dns D" and "host_canary H = lift_canary F"
    and "enable_heartbeat config"
    and "jail_setup (linux_ops H) 0 (managed_new dir (linux_new (host_hash H) config) config) st = (Ok u, m, w', tr')"
  shows "host_uid H = 0 \<and> tr' \<noteq> [] \<and> last tr' = Piped (filter_command config (jail_host_ip H config)) True"
proof -
  let ?j = "linux_new (host_hash H) config" and ?ip = "jail_host_ip H config"
  have "managed_setup (lift_canary F) (linux_jail_ops (host_uid H) (host_env H) (watch_sys S) (watch_dns D)) 0
      (managed_new dir ?j config) st = (Ok u, m, w', tr')"
    using assms(1-3,5) by (simp add: linux_ops_def managed_jail_ops_def)
  moreover have "mj_enable_heartbeat (managed_new dir ?j config)" "mj_jail (managed_new dir ?j config) = ?j"
    using assms(4) by (simp_all add: managed_new_def Let_def)
  ultimately obtain w1 tr1 w2 where s:
      "linux_setup (host_uid H) (watch_sys S) (watch_dns D) 0 ?j (w1, tr1) = (Ok (), mj_jail m, w2, tr')"
    using managed_setup_inner [of F _ 0 "managed_new dir ?j config" st u m w' tr'] by (force simp: linux_jail_ops_def)
  have "configured config ?ip ?j tr1"
    by (simp add: configured_def linux_new_def jail_host_ip_def subnet_host_ip [symmetric] split: prod.splits)
  then have "tr' \<noteq> [] \<and> last tr' = Piped (filter_command config ?ip) True"
    using linux_setup_installs [of config ?ip "host_uid H" S D 0] s unfolding meets_def
    by (metis (no_types, lifting) is_ok_simps(1))
  moreover have "host_uid H = 0"
    using s by (auto simp: linux_setup_def then_step_def keep_jail_def check_root_def split: if_splits)
  ultimately show ?thesis by simp
qed

lemma run_in_jail_cases:
  assumes "run_in_jail J wait_for a extra_env jail w = (out, w')"
  obtains (error) e where "out = Main_error e"
  | (ran) j w1 status w2 where "jail_setup J 0 jail w = (Ok (), j, w1)"
      "run_with_timeout wait_for (ra_timeout a) (jail_execute J j (ra_exec_command a) (extra_env w1)) w1 = (Ok status, w2)"
      "out = exit_outcome status"
proof -
  obtain r j w1 where s: "jail_setup J 0 jail w = (r, j, w1)" by (metis prod.exhaust)
  obtain r2 w2 where x: "run_with_timeout wait_for (ra_timeout a)
      (jail_execute J j (ra_exec_command a) (extra_env w1)) w1 = (r2, w2)" by fastforce
  show ?thesis
    using assms s x error ran [of j w1 _ w2]
    by (cases r; cases r2) (auto simp: run_in_jail_def split: if_splits sum.splits prod.splits)
qed

lemma jail_config_new_heartbeat: "enable_heartbeat (fst (jail_config_new gen w))"
  by (simp add: jail_config_new_def split: prod.splits)

text \<open>
  A managed Linux jail whose setup loaded the filter for this configuration as its last action, and in which the
  command was then executed.
\<close>

definition confined_run ::
  "('v, 'g, 'p, 'ch, 'f, 'k, 'c, 'l, 'w \<times> sys_event list) main_env \<Rightarrow> ('w \<times> sys_event list) host \<Rightarrow> run_args \<Rightarrow> jail_config \<Rightarrow> exit_status \<Rightarrow> bool" where
  "confined_run M H a config status \<longleftrightarrow>
     (\<exists>w m w' tr env w''.
        jail_setup (linux_ops H) 0 (managed_new (host_data_dir H) (linux_new (host_hash H) config) config) w =
          (Ok (), m, w', tr) \<and>
        host_uid H = 0 \<and> tr \<noteq> [] \<and> last tr = Piped (filter_command config (jail_host_ip H config)) True \<and>
        run_with_timeout (me_wait M) (ra_timeout a) (jail_execute (linux_ops H) m (ra_exec_command a) env) (w', tr) =
          (Ok status, w''))"

lemma main_jail_confined:
  assumes "\<not> ra_weak a" and "\<not> ra_docker_run a" and "enable_heartbeat config"
    and "host_sys H = watch_sys S" and "host_dns H = watch_dns D" and "host_canary H = lift_canary F"
    and "main_jail M H a config ports w = (out, w')"
  shows "(\<exists>e. out = Main_error e) \<or>
    (\<exists>status. out = exit_outcome status \<and> confined_run M H a (with_ports ports config) status)"
proof -
  let ?w = "snd (fs_create_dir_all (host_canary H) (get_canary_dir (host_data_dir H)) w)"
  let ?config = "with_ports ports config"
  let ?jail = "managed_new (host_data_dir H) (linux_new (host_hash H) ?config) ?config"
  let ?env = "\<lambda>w. command_env (main_ca_env M H w) (host_env H ''RES_OPTIONS'')"
  have "run_in_jail (boxed_ops H) (me_wait M) a ?env (LinuxBox ?jail) ?w = (out, w')"
    using assms(1,2,7) by (simp add: main_jail_def create_jail_def boxed_new_def with_ports_def Let_def)
  then show ?thesis
  proof (cases rule: run_in_jail_cases)
    case (ran j w1 status w2)
    then obtain m where m: "jail_setup (linux_ops H) 0 ?jail ?w = (Ok (), m, w1)" "j = LinuxBox m"
      by (auto simp: boxed_ops_def rebox_def split: prod.splits)
    obtain w3 tr where w1: "w1 = (w3, tr)" by (cases w1)
    have "enable_heartbeat ?config" using assms(3) by (simp add: with_ports_def)
    note f = linux_box_confined [OF assms(4-6) this m(1) [unfolded w1]]
    have "run_with_timeout (me_wait M) (ra_timeout a)
        (jail_execute (linux_ops H) m (ra_exec_command a) (?env w1)) (w3, tr) = (Ok status, w2)"
      using ran(2) m(2) w1 by (simp add: boxed_ops_def)
    then have "confined_run M H a ?config status"
      using f m(1) w1 unfolding confined_run_def by blast
    with ran(3) show ?thesis by blast
  qed blast
qed

text \<open>
  The chains that the loaded text is the print of, and what they mean for the packets of the command: under the
  evaluation of nftables, an IPv4 packet that opens a flow leaves the namespace only for the jail's name server
  and for the ports that the proxy listens on.
\<close>

definition loaded_chains :: "'w host \<Rightarrow> jail_config \<Rightarrow> u16 \<times> u16 \<Rightarrow> nft_chain \<times> nft_chain" where
  "loaded_chains H config ports =
     (let ip = format_ip (jail_host_ip H config)
      in (nat_output ip (fst ports) (snd ports), filter_output ip (fst ports) (snd ports)))"

definition table_text :: "nft_chain \<times> nft_chain \<Rightarrow> string" where
  "table_text cs =
     lines_text ([''table ip httpjail {'', ''    # NAT output chain: redirect HTTP/HTTPS to host proxy''] @ show_chain (fst cs) @
       [[], ''    # FILTER output chain: block non-HTTP/HTTPS egress''] @ show_chain (snd cs) @ [''}''])"

definition only_to_proxy ::
  "(nft_chain list \<Rightarrow> packet \<Rightarrow> packet option) \<Rightarrow> 'w host \<Rightarrow> jail_config \<Rightarrow> u16 \<times> u16 \<Rightarrow> bool" where
  "only_to_proxy hook H config ports =
     (\<forall>p q. pkt_family p = IPv4 \<and> \<not> pkt_established p \<and>
        hook [fst (loaded_chains H config ports), snd (loaded_chains H config ports)] p = Some q \<longrightarrow>
        pkt_daddr q = format_ip (jail_host_ip H config) \<and>
        (pkt_proto q = ''udp'' \<and> pkt_dport q = 53 \<or> pkt_proto q = ''tcp'' \<and> pkt_dport q \<in> {unat (fst ports), unat (snd ports)}))"

lemma loaded_text:
  "cmd_stdin (filter_command (with_ports ports config) (jail_host_ip H config)) = Some (table_text (loaded_chains H config ports))"
  by (simp add: filter_command_def namespace_ruleset_chains table_text_def loaded_chains_def with_ports_def Let_def)

lemma loaded_chains_confine: "nft_semantics eval_rules hook \<Longrightarrow> only_to_proxy hook H config ports"
  unfolding only_to_proxy_def
  by (auto simp: loaded_chains_def Let_def nft_semantics.namespace_hook split: if_splits)

section \<open>The program\<close>

text \<open>
  (C32) The default mode, end to end. A run of the program on Linux without \<^verbatim>\<open>--weak\<close>, \<^verbatim>\<open>--docker-run\<close>,
  \<^verbatim>\<open>--server\<close>, \<^verbatim>\<open>--test\<close> and \<^verbatim>\<open>--cleanup\<close> ends in one of four ways: with an error; with the exit code of
  an engine that could not be built; with the exit code 101 of a panic, when the proxy cannot set up its
  authority; or with the exit status of the command. In the last case the proxy was
  listening on the jail's own host address before the jail was set up, the program ran as root, and the command
  was executed in a jail whose setup had, as its last action, loaded the egress filter for that address and
  for the two ports that the proxy listens on: the print of two chains that, in the evaluation order of nftables,
  let an IPv4 packet that opens a flow leave only for the name server at that address and for these two ports.
\<close>

theorem main_runs_confined:
  assumes "\<not> ra_cleanup a" and "ra_test a = None" and "\<not> ra_server a" and "\<not> ra_weak a" and "\<not> ra_docker_run a"
    and "host_sys H = watch_sys S" and "host_dns H = watch_dns D" and "host_canary H = lift_canary F"
    and "nft_semantics eval_rules hook"
    and "httpjail_main M H a st = (end, st')"
  shows "(\<exists>e. end = Ended_with (Main_error e)) \<or>
    (\<exists>n w w'. select_engine (en_v8 (me_engines M)) (en_js (me_engines M)) a w = (Exited n, w') \<and> end = Ended_with (Process_exit (int n))) \<or>
    (\<exists>source b b' w w'. start_proxy (me_proxy M) H source b b' w = (None, w') \<and> end = Ended_with (Process_exit 101)) \<or>
    (\<exists>source p q w ports w' config status.
       start_proxy (me_proxy M) H source (Some \<lparr>addr_ip = V4 (of_nat (addr (jail_host_ip H config))), addr_port = p\<rparr>)
         (Some \<lparr>addr_ip = V4 (of_nat (addr (jail_host_ip H config))), addr_port = q\<rparr>) w = (Some (Ok ports), w') \<and>
       confined_run M H a (with_ports ports config) status \<and>
       cmd_stdin (filter_command (with_ports ports config) (jail_host_ip H config)) =
         Some (table_text (loaded_chains H config ports)) \<and>
       only_to_proxy hook H config ports \<and> end = Ended_with (exit_outcome status))"
proof -
  obtain config w1 where c: "jail_config_new (me_random M) st = (config, w1)" by (meson surj_pair)
  obtain r2 w2 where l: "open_request_log M a w1 = (r2, w2)" by (meson surj_pair)
  obtain e3 w3 where s: "select_engine (en_v8 (me_engines M)) (en_js (me_engines M)) a w2 = (e3, w3)" by (meson surj_pair)
  let ?ip = "\<lambda>port. Some \<lparr>addr_ip = V4 (of_nat (addr (jail_host_ip H config))), addr_port = port\<rparr>"
  obtain p q where b: "bind_addresses (host_hash H) (host_env H) a config = (?ip p, ?ip q)"
    using assms(3,4) by (auto simp: bind_addresses_def jail_bind_def jail_host_ip_def Let_def)
  have h: "enable_heartbeat config" using jail_config_new_heartbeat [of "me_random M" st] c by simp
  show ?thesis
  proof (cases "(\<exists>f. r2 = Ok f) \<and> (\<exists>source. e3 = Started source)")
    case False
    then have "(\<exists>e. end = Ended_with (Main_error e)) \<or> (\<exists>n. e3 = Exited n \<and> end = Ended_with (Process_exit (int n)))"
      using assms(1,10) c l s by (cases r2; cases e3) (auto simp: httpjail_main_def)
    with s show ?thesis by blast
  next
    case True
    then obtain f source where e3: "r2 = Ok f" "e3 = Started source" by blast
    obtain r4 w4 where t: "start_proxy (me_proxy M) H source (?ip p) (?ip q) w3 = (r4, w4)" by (meson surj_pair)
    have main: "(end, st') = (case r4 of None \<Rightarrow> (Ended_with (Process_exit 101), w4)
        | Some (Inl e) \<Rightarrow> (Ended_with (Main_error e), w4)
        | Some (Inr ports) \<Rightarrow> (case main_jail M H a config ports w4 of (out, w) \<Rightarrow> (Ended_with out, w)))"
      using assms(1-3,10) c l s e3 b t by (auto simp: httpjail_main_def main_engine_def split: sum.splits option.splits)
    show ?thesis
    proof (cases "\<exists>ports. r4 = Some (Ok ports)")
      case True
      then obtain ports where Inr: "r4 = Some (Ok ports)" by blast
      obtain out w5 where j: "main_jail M H a config ports w4 = (out, w5)" by (meson surj_pair)
      then have "end = Ended_with out" using main Inr by simp
      with main_jail_confined [OF assms(4,5) h assms(6-8) j] t Inr loaded_text [of ports config H]
        loaded_chains_confine [OF assms(9), of H config ports]
      show ?thesis by blast
    next
      case False
      then consider "r4 = None" | e where "r4 = Some (Err e)" by (metis not_None_eq sum.exhaust)
      then show ?thesis
      proof cases
        case 1
        then have "end = Ended_with (Process_exit 101)" using main by simp
        with t 1 show ?thesis by blast
      qed (use main in simp)
    qed
  qed
qed

section \<open>Test mode\<close>

lemma select_engine_exit: "select_engine V E a w = (Exited n, w') \<Longrightarrow> n = 1"
  by (auto simp: select_engine_def js_started_def split: option.splits sum.splits prod.splits)

lemma run_test_code:
  "run_test parse engine vals s = ((printed, 0), s') \<Longrightarrow> test_request parse vals = (meth, url) \<Longrightarrow>
     action (fst (evaluate engine meth url ''127.0.0.1'' s)) = Allow"
  by (auto simp: run_test_def evaluate_with_context_def Let_def split: prod.splits action.splits)

text \<open>
  (C33) The dry run is sound: if a run with \<^verbatim>\<open>--test\<close> ends with the exit code 0, then an engine was built from the rule
  options, and the rule of that option permits the tested method and URL for a client on the local host, in the
  state in which the engine was built.
\<close>

theorem test_mode_sound:
  assumes "\<not> ra_cleanup a" and "ra_test a = Some vals"
    and "httpjail_main M H a st = (Ended_with (Process_exit 0), st')"
  shows "\<exists>source w w' meth url.
    select_engine (en_v8 (me_engines M)) (en_js (me_engines M)) a w = (Started source, w') \<and>
    test_request (me_parse_method M) vals = (meth, url) \<and>
    permits (me_engines M) (box_of_source source) w' meth url ''127.0.0.1''"
proof -
  obtain config w1 where c: "jail_config_new (me_random M) st = (config, w1)" by (meson surj_pair)
  obtain r2 w2 where l: "open_request_log M a w1 = (r2, w2)" by (meson surj_pair)
  obtain e w3 where e: "select_engine (en_v8 (me_engines M)) (en_js (me_engines M)) a w2 = (e, w3)" by (meson surj_pair)
  obtain meth url where t: "test_request (me_parse_method M) vals = (meth, url)" by (meson surj_pair)
  have h: "(case r2 of Inl e \<Rightarrow> (Ended_with (Main_error e), w2)
      | Inr f \<Rightarrow> (case e of Started source \<Rightarrow> main_engine M H a config f source w3
                        | Exited code \<Rightarrow> (Ended_with (Process_exit (int code)), w3)
                        | Aborted e \<Rightarrow> (Ended_with (Main_error e), w3))) = (Ended_with (Process_exit 0), st')"
    using assms(1,3) c l e by (simp add: httpjail_main_def split: sum.splits startup.splits)
  obtain f source where s: "e = Started source"
    and m: "main_engine M H a config f source w3 = (Ended_with (Process_exit 0), st')"
  proof (cases r2)
    case (Inr f)
    show thesis
    proof (cases e)
      case (Exited n)
      with h Inr have "n = 0" by simp
      with select_engine_exit [of _ _ a w2 n w3] e Exited show thesis by (metis zero_neq_one)
    qed (use h Inr that in simp_all)
  qed (use h in simp)
  let ?E = "program_engine (me_engines M) source (me_log M) f"
  obtain printed code s' where r: "run_test (me_parse_method M) ?E vals ((box_of_source source, w3), f) = ((printed, code), s')"
    by (metis prod.exhaust)
  moreover obtain b w4 f' where "s' = ((b, w4), f')" by (metis prod.exhaust)
  ultimately have "code = 0" using m assms(2) by (simp add: main_engine_def)
  from run_test_code [OF r [unfolded this] t]
  have "action (fst (evaluate (boxed_engine (me_engines M) source) meth url ''127.0.0.1'' (box_of_source source, w3))) = Allow"
    by (simp add: program_engine_def from_trait_fst)
  from boxed_allow_permits [OF this] e s t show ?thesis by blast
qed

section \<open>A concrete run\<close>

definition sample_host :: "(unit \<times> sys_event list) host" where
  "sample_host =
     \<lparr>host_sys = watch_sys sample_sys, host_dns = watch_dns sample_dns, host_canary = lift_canary sample_canary,
      host_run = (\<lambda>_ w. (Ok (ExitCode 0), w)), host_uid = 0, host_env = (\<lambda>_. None), host_hash = (\<lambda>_. 7),
      host_data_dir = Some ''/d''\<rparr>"

definition sample_proxy_env :: "(unit, unit, unit, unit \<times> sys_event list) proxy_env" where
  \<comment> \<open>an authority that is on disk, and listeners on the port 8040 of their addresses\<close>
  "sample_proxy_env =
     \<lparr>pe_rcgen =
        \<lparr>default_params = \<lparr>is_ca = False, subject_alt_names = [], distinguished_name = [], key_usages = [],
           server_auth = False, serial_number = None, not_before = None, not_after = None\<rparr>,
         date_time_ymd = (\<lambda>y mo d. Some (Date y mo d)), params_new = (\<lambda>_. Err ''unused''), dns_name = (\<lambda>_. Ok ()), key_generate = (\<lambda>w. (Ok (), w)),
         key_from_pem = (\<lambda>_. Ok ()), key_to_pem = (\<lambda>_. ''key''), key_der = (\<lambda>_. ''key''), private_key_der = Some,
         self_signed = (\<lambda>_ _ w. (Ok (), w)), signed_by = (\<lambda>_ _ _ _ w. (Ok (), w)), cert_pem = (\<lambda>_. ''ca''),
         cert_der = (\<lambda>_. ''ca'')\<rparr>,
      pe_files =
        \<lparr>ca_create_dir_all = (\<lambda>_ w. (Ok (), w)), ca_exists = (\<lambda>_ _. True), ca_read = (\<lambda>_ w. (Ok [], w)),
         ca_write = (\<lambda>_ _ w. (Ok (), w)), ca_permissions = (\<lambda>_ w. (Ok 384, w)),
         ca_set_permissions = (\<lambda>_ _ w. (Ok (), w))\<rparr>,
      pe_new_cache = (\<lambda>_. ()), pe_config_dir = Some ''/c'', pe_home_dir = None,
      pe_tls =
        \<lparr>root_add = (\<lambda>roots ca. Ok (roots @ [ca])), TLS_SERVER_ROOTS = [],
         webpki_verifier = (\<lambda>_. DangerousAcceptAnyVerifier), native_config = Err ''none''\<rparr>,
      pe_net = \<lparr>sock = (\<lambda>_ w. (Ok 3, w)), gen_range = (\<lambda>a _ w. (a, w)), local_port = (\<lambda>_ w. (Ok 8040, w))\<rparr>,
      pe_show_ip = (\<lambda>_. ''ip''), pe_spawn = (\<lambda>_ _ _ _ w. w), pe_nonce = (\<lambda>w. (0, w))\<rparr>"

definition sample_main :: "(bool, unit, string, unit, string, unit, unit, unit, unit \<times> sys_event list) main_env" where
  "sample_main =
     \<lparr>me_random = (\<lambda>_ w. (0, w)), me_open_log = (\<lambda>_ w. (Ok [], w)), me_log = append_file ''now'',
      me_engines =
        \<lparr>en_url_parse = (\<lambda>_. Ok \<lparr>pu_scheme = ''http'', pu_host = None, pu_path = ''/''\<rparr>), en_to_json = (\<lambda>_. Ok ''{}''), en_json_of = (\<lambda>_. None),
         en_run = (\<lambda>_ w. (Completed True [] [], w)),
         en_proc = \<lparr>try_wait = (\<lambda>c w. (wait_status.Running, w)), spawn = (\<lambda>p w. (SpawnError [], w)), write_all = (\<lambda>c l w. (True, w)),
           flush = (\<lambda>c w. (True, w)), read_line = (\<lambda>c w. (Eof, w)), kill = (\<lambda>c w. w)\<rparr>,
         en_v8 = accept_all_v8,
         en_js = \<lparr>file_mtime = (\<lambda>_ w. (None, w)), read_to_string = (\<lambda>_ w. (Ok [], w)), task_joins = (\<lambda>w. (True, w))\<rparr>\<rparr>,
      me_parse_method = Some,
      me_print = (\<lambda>_ w. w), me_proxy = sample_proxy_env,
      me_wait = (\<lambda>w. (Returned, w))\<rparr>"

lemma sample_linux_execute: "fst (linux_execute 0 (\<lambda>_. None) (watch_sys sample_sys) j [''true''] env st) = Ok (ExitCode 0)"
  by (simp add: linux_execute_def linux_command_def watch_sys_def sample_sys_def with_ctx_def err_context_def)

lemma sample_linux_cleanup: "fst (linux_cleanup (watch_sys sample_sys) j st) = Ok ()"
  by (simp add: linux_cleanup_def linux_cleanup_orphaned_def and_then_def return_ok_def Let_def split: prod.splits)

definition sample_jail :: "linux_jail managed_jail" where
  "sample_jail =
     (let config = with_ports (8040, 8040) (fst (jail_config_new (me_random sample_main) ((), [])))
      in managed_new (Some ''/d'') (linux_new (\<lambda>_. 7) config) config)"

lemma sample_jail_setup:
  "fst (jail_setup (linux_ops sample_host) 0 sample_jail st) = Ok ()"
proof -
  let ?config = "with_ports (8040, 8040) (fst (jail_config_new (me_random sample_main) ((), [])))"
  have prep: "managed_prepare (lift_canary sample_canary) J m st = (Ok (), st)" for J and m :: "linux_jail managed_jail"
    by (cases st) (simp add: managed_prepare_def cleanup_orphans_def create_canary_def and_then_def with_ctx_def
        err_context_def lift_canary_def sample_canary_def)
  have beat: "fst (start_heartbeat (lift_canary sample_canary) m s) = Ok ()" for m :: "linux_jail managed_jail" and s
    by (simp add: start_heartbeat_def create_canary_def with_ctx_def err_context_def lift_canary_def sample_canary_def)
  obtain r j s where l: "linux_setup 0 (watch_sys sample_sys) (watch_dns sample_dns) 0
      (linux_new (\<lambda>_. 7) ?config) st = (r, j, s)" by (metis prod.exhaust)
  then have "is_ok r" using sample_setup_succeeds [of 0 "\<lambda>_. 7" ?config "fst st" "snd st"] by (cases st) simp
  then show ?thesis
    using l by (simp add: linux_ops_def sample_host_def managed_jail_ops_def managed_setup_def prep linux_jail_ops_def
        sample_jail_def managed_new_def Let_def beat)
qed

abbreviation sample_args :: run_args where
  "sample_args \<equiv> no_args\<lparr>ra_sh := Some ''x''\<rparr>"

lemma sample_main_jail:
  "fst (main_jail sample_main sample_host sample_args (fst (jail_config_new (me_random sample_main) ((), []))) (8040, 8040)
     ((), [])) = Finished_ok"
proof -
  let ?J = "boxed_ops sample_host"
  obtain m w where s: "jail_setup (linux_ops sample_host) 0 sample_jail ((), []) = (Ok (), m, w)"
    using sample_jail_setup [of "((), [])"] by (metis prod.collapse)
  have x: "\<exists>u. jail_execute ?J (LinuxBox m) [''true''] env v = (Ok (ExitCode 0), u)" for env v
  proof -
    obtain u where "linux_execute 0 (\<lambda>_. None) (watch_sys sample_sys) (mj_jail m) [''true''] env v = (Ok (ExitCode 0), u)"
      using sample_linux_execute by (metis prod.collapse)
    then show ?thesis
      by (cases u) (simp add: boxed_ops_def linux_ops_def sample_host_def managed_jail_ops_def managed_execute_def linux_jail_ops_def)
  qed
  have c: "\<exists>u. jail_cleanup ?J (LinuxBox m) v = (Ok (), u)" for v
  proof -
    obtain u where "linux_cleanup (watch_sys sample_sys) (mj_jail m) (signal_stop_heartbeat (lift_canary sample_canary) m v) = (Ok (), u)"
      using sample_linux_cleanup by (metis prod.collapse)
    then show ?thesis
      by (cases u) (simp add: boxed_ops_def linux_ops_def sample_host_def managed_jail_ops_def managed_cleanup_def linux_jail_ops_def
          delete_canary_def lift_canary_def sample_canary_def with_ctx_def err_context_def)
  qed
  have j: "boxed_new sample_host UseManagedLinux
      (with_ports (8040, 8040) (fst (jail_config_new (me_random sample_main) ((), [])))) = LinuxBox sample_jail"
    by (simp add: boxed_new_def sample_jail_def sample_host_def Let_def)
  have b: "jail_setup ?J 0 (LinuxBox sample_jail) ((), []) = (Ok (), LinuxBox m, w)"
    using s by (simp add: boxed_ops_def rebox_def)
  have "fst (run_in_jail ?J wait_for sample_args env (LinuxBox sample_jail) ((), [])) = Finished_ok" for wait_for env
  proof -
    obtain u where u: "jail_execute ?J (LinuxBox m) [''true''] (env w) w = (Ok (ExitCode 0), u)" using x by blast
    obtain v where "jail_cleanup ?J (LinuxBox m) u = (Ok (), v)" using c by blast
    with u b show ?thesis by (simp add: run_in_jail_def run_with_timeout_def no_args_def exit_outcome_def)
  qed
  moreover have "snd (fs_create_dir_all (host_canary sample_host) d ((), [])) = ((), [])" for d
    by (simp add: sample_host_def lift_canary_def sample_canary_def)
  ultimately show ?thesis
    using j by (simp add: main_jail_def create_jail_def with_ports_def Let_def no_args_def)
qed

lemma sample_net:
  "sock (pe_net sample_proxy_env) c w = (Ok 3, w)" "gen_range (pe_net sample_proxy_env) x y w = (x, w)"
  "local_port (pe_net sample_proxy_env) n w = (Ok 8040, w)" "pe_nonce sample_proxy_env w = (0, w)"
  "pe_spawn sample_proxy_env source client proto n w = w"
  by (simp_all add: sample_proxy_env_def)

lemma sample_bind: "bind_or_search (pe_net sample_proxy_env) f x w = (Ok 3, w)"
proof -
  have l: "bind_listener (pe_net sample_proxy_env) x w = (Ok 3, w)" for x w
    by (simp add: bind_listener_def and_then_def sample_net)
  have "bind_attempts (Suc n) (pe_net sample_proxy_env) f p q ip w = (Ok 3, w)" for n p q ip
    by (simp add: sample_net l)
  from this [of 15] show ?thesis
    by (cases x) (simp_all add: bind_or_search_def l bind_to_available_port_def del: bind_attempts.simps)
qed

lemma sample_manager_new:
  "cert_manager_new (pe_rcgen sample_proxy_env) (pe_files sample_proxy_env) (pe_new_cache sample_proxy_env) (pe_config_dir sample_proxy_env) w =
     (Ok \<lparr>ca_cert = (), ca_key_pair = (), server_key_pair = (), server_key_der = ''key'', cert_cache = (), custom_dir = None\<rparr>, w)"
proof -
  have "httpjail_config_dir (Some ''/c'') = Ok (path_join ''/c'' ''httpjail'')"
    by (simp add: httpjail_config_dir_def path_join_def valid_utf8_ascii is_ascii_def starts_with_def)
  then show ?thesis
    by (simp add: cert_manager_new_def with_config_dir_def load_or_generate_ca_with_dir_def load_ca_def sample_proxy_env_def
        and_then_def with_ctx_def err_context_def return_ok_def Let_def)
qed

lemma sample_start_proxy: "start_proxy sample_proxy_env sample_host source b b' v = (Some (Ok (8040, 8040)), v)"
proof -
  have "\<exists>c. init_client_with_ca (pe_tls sample_proxy_env) False ca None = Some c" for ca
    by (simp add: init_client_with_ca_def create_client_config_with_ca_def sample_proxy_env_def)
  moreover have "host_env sample_host x = None" for x by (simp add: sample_host_def)
  ultimately show ?thesis
    by (auto simp: start_proxy_def sample_manager_new sample_net proxy_server_new_def proxy_server_start_def sample_bind
        and_then_def Let_def split: option.splits)
qed

lemma sample_main_ends: "fst (httpjail_main sample_main sample_host sample_args ((), [])) = Ended_with Finished_ok"
proof -
  have r: "me_random sample_main = (\<lambda>_ w. (0, w))" by (simp add: sample_main_def)
  have g: "generate_base36_id (\<lambda>_ w. (0, w)) n w = (replicate n (CHR ''0''), w)" for n and w :: "unit \<times> sys_event list"
    by (induction n) (simp_all add: CHARSET_def)
  obtain config where c: "jail_config_new (me_random sample_main) ((), []) = (config, (), [])"
    by (simp add: r jail_config_new_def g)
  obtain w where j: "main_jail sample_main sample_host sample_args config (8040, 8040) ((), []) = (Finished_ok, w)"
    using sample_main_jail c by (metis fst_conv prod.collapse)
  have p: "start_proxy (me_proxy sample_main) sample_host source b b' v = (Some (Ok (8040, 8040)), v)" for source b b' v
    using sample_start_proxy by (simp add: sample_main_def)
  have "main_engine sample_main sample_host sample_args config f source ((), []) = (Ended_with Finished_ok, w)" for f source
    using j p by (simp add: main_engine_def no_args_def split: prod.splits)
  then show ?thesis
    by (simp add: httpjail_main_def c open_request_log_def return_ok_def select_engine_def no_args_def)
qed

theorem main_runs_confined_witness:
  "\<exists>config status. confined_run sample_main sample_host sample_args (with_ports (8040, 8040) config) status \<and>
     exit_outcome status = Finished_ok"
proof -
  obtain st where m: "httpjail_main sample_main sample_host sample_args ((), []) = (Ended_with Finished_ok, st)"
    using sample_main_ends by (metis prod.collapse)
  have h: "host_sys sample_host = watch_sys sample_sys" "host_dns sample_host = watch_dns sample_dns"
    "host_canary sample_host = lift_canary sample_canary" by (simp_all add: sample_host_def)
  have a: "\<not> ra_cleanup sample_args" "ra_test sample_args = None" "\<not> ra_server sample_args" "\<not> ra_weak sample_args"
    "\<not> ra_docker_run sample_args" by (simp_all add: no_args_def)
  have p: "start_proxy (me_proxy sample_main) sample_host source b b' v = (Some (Ok (8040, 8040)), v)" for source b b' v
    using sample_start_proxy by (simp add: sample_main_def)
  from main_runs_confined [OF a h nft_eval.nft_semantics_axioms m] show ?thesis unfolding p by (auto dest: sym)
qed

theorem test_mode_sound_witness:
  "\<exists>w. permits (me_engines sample_main) (ShellBox ''x'') w ''GET'' ''http://a/'' ''127.0.0.1''"
proof -
  define a where "a = sample_args\<lparr>ra_test := Some [''GET'', ''http://a/'']\<rparr>"
  have t: "test_request (me_parse_method sample_main) [''GET'', ''http://a/''] = (''GET'', ''http://a/'')"
    by (simp add: test_request_def method_or_get_def sample_main_def to_ascii_uppercase_def)
  have a: "\<not> ra_cleanup a" "ra_test a = Some [''GET'', ''http://a/'']" "ra_request_log a = None" by (simp_all add: a_def no_args_def)
  have s: "select_engine (en_v8 (me_engines sample_main)) (en_js (me_engines sample_main)) a w =
      (Started (ShellScript ''x''), w)" for w
    by (simp add: a_def select_engine_def no_args_def)
  have r: "action (fst (evaluate (program_engine (me_engines sample_main) source L f) m u ip ((ShellBox ''x'', w), f'))) = Allow"
    for source L f m u ip w f'
    by (simp add: program_engine_def from_trait_fst boxed_engine_def sample_main_def engine_simps trim_def Let_def)
  have m: "fst (main_engine sample_main sample_host a config f (ShellScript ''x'') w) = Ended_with (Process_exit 0)" for config f w
  proof -
    obtain x b v f' where x: "evaluate (program_engine (me_engines sample_main) (ShellScript ''x'') (me_log sample_main) f)
        ''GET'' ''http://a/'' ''127.0.0.1'' ((ShellBox ''x'', w), f) = (x, ((b, v), f'))" by (metis prod.exhaust)
    with r [of "ShellScript ''x''" "me_log sample_main" f "''GET''" "''http://a/''" "''127.0.0.1''" w f]
    have "action x = Allow" by simp
    with a(2) t x show ?thesis
      by (simp add: main_engine_def run_test_def evaluate_with_context_def box_of_source_def Let_def)
  qed
  obtain config w where c: "jail_config_new (me_random sample_main) ((), []) = (config, w)" by (meson surj_pair)
  obtain st where "main_engine sample_main sample_host a config None (ShellScript ''x'') w = (Ended_with (Process_exit 0), st)"
    using m [of config None w] by (metis prod.collapse)
  then have "httpjail_main sample_main sample_host a ((), []) = (Ended_with (Process_exit 0), st)"
    using a c s by (simp add: httpjail_main_def open_request_log_def return_ok_def)
  from test_mode_sound [OF a(1,2) this] s t show ?thesis by (auto simp: box_of_source_def)
qed

end
