(* ===== verification/Keychain.thy ===== *)
theory Keychain
  imports Cert_Manager
begin

text \<open>
  \<^verbatim>\<open>src/src/macos_keychain.rs\<close> and the \<open>trust\<close> subcommand of \<^verbatim>\<open>src/src/main.rs\<close>: the authority in the
  user's keychain, managed through the commands \<open>security\<close> and \<open>openssl\<close>. The commands run in the
  operating system of \<^typ>\<open>'w sys_ops\<close>; texts are UTF-8 byte strings.
\<close>

section \<open>Texts\<close>

fun split_once :: "string \<Rightarrow> string \<Rightarrow> (string \<times> string) option" where
  "split_once p s =
     (if prefix p s then Some ([], drop (length p) s)
      else case s of [] \<Rightarrow> None | c # cs \<Rightarrow> map_option (\<lambda>(a, b). (c # a, b)) (split_once p cs))"

declare split_once.simps [simp del]

text \<open>\<open>s.split(p).nth(1)\<close>, the piece of a text between the first two separators.\<close>

definition split_second :: "string \<Rightarrow> string \<Rightarrow> string option" where
  "split_second p s =
     map_option (\<lambda>(_, rest). case split_once p rest of None \<Rightarrow> rest | Some (piece, _) \<Rightarrow> piece) (split_once p s)"

text \<open>\<open>s.split(c).next_back()\<close>, the piece behind the last separator.\<close>

definition split_last :: "char \<Rightarrow> string \<Rightarrow> string" where
  "split_last c s = rev (takeWhile (\<lambda>x. x \<noteq> c) (rev s))"

definition trim_quotes :: "string \<Rightarrow> string" where
  "trim_quotes s = rev (dropWhile (\<lambda>c. c = CHR 0x22) (rev (dropWhile (\<lambda>c. c = CHR 0x22) s)))"

section \<open>The keychain manager\<close>

record 'w keychain_ops =
  kc_sys :: "'w sys_ops"
  kc_println :: "string \<Rightarrow> 'w \<Rightarrow> 'w"
  kc_exists :: "string \<Rightarrow> 'w \<Rightarrow> bool"
  kc_read :: "string \<Rightarrow> ('w, string) fallible"
  kc_config_dir :: "string option"

definition CA_NAME :: string where "CA_NAME = ''httpjail CA''"

abbreviation warning_sign :: string where
  "warning_sign \<equiv> [CHR 0xE2, CHR 0x9A, CHR 0xA0, CHR 0xEF, CHR 0xB8, CHR 0x8F]"

abbreviation check_mark :: string where "check_mark \<equiv> [CHR 0xE2, CHR 0x9C, CHR 0x93]"

abbreviation ballot_x :: string where "ballot_x \<equiv> [CHR 0xE2, CHR 0x9C, CHR 0x97]"

definition security :: "string list \<Rightarrow> sys_command" where
  "security args = command ''security'' args"

definition get_user_keychain :: "'w keychain_ops \<Rightarrow> ('w, string) fallible" where
  "get_user_keychain K =
     and_then (with_ctx ''Failed to get default keychain'' (run (kc_sys K) (security [''default-keychain'', ''-d'', ''user''])))
       (\<lambda>out w.
          if \<not> out_success out then (Err ''Failed to determine default keychain'', w)
          else let keychain_path = trim_quotes (trim (from_utf8_lossy (out_stdout out)))
               in if keychain_path = [] then (Err ''Could not determine user keychain path'', w)
                  else (Ok keychain_path, w))"

text \<open>A \<open>security\<close> command whose last argument is the keychain, which is looked up first.\<close>

definition security_in_keychain :: "'w keychain_ops \<Rightarrow> string \<Rightarrow> string list \<Rightarrow> ('w, cmd_output) fallible" where
  "security_in_keychain K c args =
     and_then (get_user_keychain K) (\<lambda>keychain. with_ctx c (run (kc_sys K) (security (args @ [keychain]))))"

definition cert_info_line :: "string \<Rightarrow> string list" where
  "cert_info_line line =
     (if starts_with line ''subject='' then
        (case split_second ''CN='' line of
           Some cn \<Rightarrow> [''CN='' @ trim (takeWhile (\<lambda>c. c \<noteq> CHR '','') cn)]
         | None \<Rightarrow> [])
      else if starts_with line ''notAfter='' then
        [''expires '' @ (case strip_prefix ''notAfter='' line of Some e \<Rightarrow> e | None \<Rightarrow> [])]
      else if starts_with line ''SHA256 Fingerprint='' then
        (case split_second ''='' line of
           Some fp \<Rightarrow> [''SHA256:'' @ concat (take 16 (filter (\<lambda>c. c \<noteq> '':'') (chars fp)))]
         | None \<Rightarrow> [])
      else [])"

definition get_cert_info :: "'w keychain_ops \<Rightarrow> string \<Rightarrow> ('w, string) fallible" where
  "get_cert_info K pem w =
     (case pipe (kc_sys K)
             ((command ''openssl'' [''x509'', ''-noout'', ''-subject'', ''-issuer'', ''-dates'', ''-fingerprint'', ''-sha256''])
                \<lparr>cmd_stdin := Some pem\<rparr>) w of
        (SpawnFailed e, w) \<Rightarrow> (Err (''Failed to spawn openssl: '' @ e), w)
      | (WriteFailed e, w) \<Rightarrow> (Err (''Failed to write to openssl: '' @ e), w)
      | (WaitFailed e, w) \<Rightarrow> (Err (''Failed to read openssl output: '' @ e), w)
      | (Finished out, w) \<Rightarrow>
          (if \<not> out_success out then (Ok ''unknown certificate'', w)
           else let info_parts = concat (map cert_info_line (str_lines [] (from_utf8_lossy (out_stdout out))))
                in (Ok (if info_parts = [] then ''certificate'' else join_with '', '' info_parts), w)))"

text \<open>A panic is the value \<^const>\<open>None\<close>.\<close>

definition is_ca_trusted :: "'w keychain_ops \<Rightarrow> 'w \<Rightarrow> (bool result \<times> 'w) option" where
  "is_ca_trusted K w =
     (case security_in_keychain K ''Failed to check for CA certificate'' [''find-certificate'', ''-c'', CA_NAME, ''-p''] w of
        (Inl e, w) \<Rightarrow> Some (Err e, w)
      | (Inr found, w) \<Rightarrow>
          (if \<not> out_success found then Some (Ok False, w)
           else case kc_config_dir K of
                  None \<Rightarrow> Some (Err ''Could not find user config directory'', w)
                | Some config_dir \<Rightarrow>
                    (let ca_cert_path = path_join (path_join config_dir ''httpjail'') ''ca-cert.pem''
                     in if \<not> kc_exists K ca_cert_path w then Some (Ok False, w)
                        else if \<not> valid_utf8 ca_cert_path then None
                        else case with_ctx ''Failed to verify certificate trust''
                                (run (kc_sys K) (security [''verify-cert'', ''-c'', ca_cert_path, ''-p'', ''ssl''])) w of
                               (Inl e, w) \<Rightarrow> Some (Err e, w)
                             | (Inr out, w) \<Rightarrow> Some (Ok (out_success out), w))))"

definition hash_of_line :: "string \<Rightarrow> string option" where
  "hash_of_line line =
     (if str_contains ''SHA-256 hash:'' line \<or> str_contains ''SHA-1 hash:'' line
      then Some (trim (split_last (CHR '':'') line)) else None)"

fun delete_old_certs :: "'w keychain_ops \<Rightarrow> string list \<Rightarrow> ('w, unit) fallible" where
  "delete_old_certs K [] w = (Ok (), w)"
| "delete_old_certs K (hash # hashes) w =
     (case get_user_keychain K w of
        (Inl e, w) \<Rightarrow> (Err e, w)
      | (Inr keychain, w) \<Rightarrow>
          delete_old_certs K hashes
            (snd (run (kc_sys K) (security [''delete-certificate'', ''-Z'', hash, keychain]) w)))"

definition cleanup_old_certificates :: "'w keychain_ops \<Rightarrow> ('w, unit) fallible" where
  "cleanup_old_certificates K =
     and_then (security_in_keychain K ''Failed to find existing certificates''
         [''find-certificate'', ''-a'', ''-c'', CA_NAME, ''-Z''])
       (\<lambda>out w.
          if \<not> out_success out then (Ok (), w)
          else delete_old_certs K (List.map_filter hash_of_line (str_lines [] (from_utf8_lossy (out_stdout out)))) w)"

definition add_trusted_cert :: "string \<Rightarrow> string \<Rightarrow> sys_command" where
  "add_trusted_cert keychain cert_path =
     security [''add-trusted-cert'', ''-d'', ''-r'', ''trustRoot'', ''-p'', ''ssl'', ''-k'', keychain, cert_path]"

definition install_error :: "string \<Rightarrow> string" where
  "install_error stderr =
     (if str_contains ''User canceled'' stderr then ''Installation canceled by user''
      else if str_contains ''authorization'' stderr \<or> str_contains ''MDM'' stderr
      then ''Installation blocked by system policy or MDM restrictions''
      else ''Failed to install certificate: '' @ stderr)"

definition print_lines :: "'w keychain_ops \<Rightarrow> string list \<Rightarrow> 'w \<Rightarrow> 'w" where
  "print_lines K ls w = foldl (\<lambda>w l. kc_println K l w) w ls"

definition existing_notice :: "string list" where
  "existing_notice =
     [warning_sign @ ''  Warning: Existing '' @ CA_NAME @ '' certificate(s) found in keychain'',
      ''   These will be removed and replaced with the new certificate.'']"

definition install_notice :: "string list" where
  "install_notice =
     [newline @ warning_sign @ ''  Security Notice:'',
      ''You are about to install the '' @ CA_NAME @ '' certificate to your user keychain.'',
      ''This allows httpjail to inspect HTTPS traffic for allowed domains.'',
      ''The certificate will only be trusted for SSL connections.'',
      newline @ ''You may be prompted for your password to authorize this change.'',
      ''To uninstall later, run: httpjail trust --remove'' @ newline]"

definition show_cert_info :: "'w keychain_ops \<Rightarrow> string \<Rightarrow> 'w \<Rightarrow> 'w" where
  "show_cert_info K cert_path w =
     (case kc_read K cert_path w of
        (Inl _, w) \<Rightarrow> w
      | (Inr cert_content, w) \<Rightarrow>
          (case get_cert_info K cert_content w of
             (Inl _, w) \<Rightarrow> w
           | (Inr i, w) \<Rightarrow> kc_println K (check_mark @ '' Installed certificate: '' @ i) w))"

definition install_ca :: "'w keychain_ops \<Rightarrow> string \<Rightarrow> ('w, unit) fallible" where
  "install_ca K cert_path =
     and_then (security_in_keychain K ''Failed to check for existing certificates'' [''find-certificate'', ''-c'', CA_NAME])
       (\<lambda>found w0.
     and_then (cleanup_old_certificates K) (\<lambda>_ w1.
     and_then (get_user_keychain K) (\<lambda>keychain.
     and_then (with_ctx ''Failed to add certificate to keychain'' (run (kc_sys K) (add_trusted_cert keychain cert_path)))
       (\<lambda>out w.
          if \<not> out_success out then (Err (install_error (from_utf8_lossy (out_stderr out))), w)
          else (Ok (), show_cert_info K cert_path w)))
       (print_lines K install_notice w1))
       (if out_success found then print_lines K existing_notice w0 else w0))"

record uninstall_state =
  removed_count :: nat
  cert_info :: "string list"
  current_pem :: string
  in_cert :: bool

definition removed_notice :: "nat \<Rightarrow> string list \<Rightarrow> string \<Rightarrow> string" where
  \<comment> \<open>the count already includes the certificate that was just removed\<close>
  "removed_notice removed infos hash =
     (if infos \<noteq> [] \<and> removed - 1 < length infos then check_mark @ '' Removed certificate: '' @ infos ! (removed - 1)
      else check_mark @ '' Removed certificate with hash: '' @ hash)"

definition uninstall_line :: "'w keychain_ops \<Rightarrow> string \<Rightarrow> uninstall_state \<Rightarrow> ('w, uninstall_state) fallible" where
  "uninstall_line K line s w =
     (if line = ''-----BEGIN CERTIFICATE-----'' then (Ok (s\<lparr>in_cert := True, current_pem := line @ newline\<rparr>), w)
      else if line = ''-----END CERTIFICATE-----'' then
        (let s = s\<lparr>current_pem := current_pem s @ line, in_cert := False\<rparr>
         in case get_cert_info K (current_pem s) w of
              (Inl _, w) \<Rightarrow> (Ok s, w)
            | (Inr i, w) \<Rightarrow> (Ok (s\<lparr>cert_info := cert_info s @ [i]\<rparr>), w))
      else if in_cert s then (Ok (s\<lparr>current_pem := current_pem s @ line @ newline\<rparr>), w)
      else case hash_of_line line of
             None \<Rightarrow> (Ok s, w)
           | Some hash \<Rightarrow>
               and_then (security_in_keychain K ''Failed to delete certificate'' [''delete-certificate'', ''-Z'', hash])
                 (\<lambda>out w.
                    if out_success out
                    then (let n = removed_count s + 1
                          in (Ok (s\<lparr>removed_count := n\<rparr>), kc_println K (removed_notice n (cert_info s) hash) w))
                    else (Ok s, w)) w)"

fun uninstall_lines :: "'w keychain_ops \<Rightarrow> string list \<Rightarrow> uninstall_state \<Rightarrow> ('w, uninstall_state) fallible" where
  "uninstall_lines K [] s w = (Ok s, w)"
| "uninstall_lines K (line # ls) s w = and_then (uninstall_line K line s) (uninstall_lines K ls) w"

definition uninstall_ca :: "'w keychain_ops \<Rightarrow> ('w, unit) fallible" where
  "uninstall_ca K =
     and_then (security_in_keychain K ''Failed to find certificates''
         [''find-certificate'', ''-a'', ''-c'', CA_NAME, ''-p'', ''-Z''])
       (\<lambda>found w.
          if \<not> out_success found \<or> out_stdout found = []
          then (Ok (), kc_println K (''No '' @ CA_NAME @ '' certificates found in keychain'') w)
          else and_then (uninstall_lines K (str_lines [] (from_utf8_lossy (out_stdout found)))
                   \<lparr>removed_count = 0, cert_info = [], current_pem = [], in_cert = False\<rparr>)
                 (\<lambda>s w.
                    (Ok (),
                     kc_println K
                       (if removed_count s > 0
                        then ''Successfully removed '' @ dec (removed_count s) @ '' '' @ CA_NAME @ '' certificate(s) from keychain''
                        else ''No '' @ CA_NAME @ '' certificates were removed (may have already been removed)'') w)) w)"

definition check_keychain_unlocked :: "'w keychain_ops \<Rightarrow> ('w, bool) fallible" where
  "check_keychain_unlocked K =
     and_then (security_in_keychain K ''Failed to check keychain status'' [''show-keychain-info''])
       (\<lambda>out w. (Ok (out_success out), w))"

text \<open>The same operations on the other platforms.\<close>

definition other_is_ca_trusted :: "('w, bool) fallible" where
  "other_is_ca_trusted w = (Ok False, w)"

definition other_install_ca :: "string \<Rightarrow> ('w, unit) fallible" where
  "other_install_ca cert_path w = (Err ''Keychain integration is only available on macOS'', w)"

definition other_uninstall_ca :: "('w, unit) fallible" where
  "other_uninstall_ca w = (Err ''Keychain integration is only available on macOS'', w)"

definition other_check_keychain_unlocked :: "('w, bool) fallible" where
  "other_check_keychain_unlocked w = (Ok False, w)"

text \<open>On macOS a generated authority is offered to the keychain; a failure is only logged.\<close>

definition auto_install :: "'w keychain_ops \<Rightarrow> bool \<Rightarrow> bool \<Rightarrow> string \<Rightarrow> 'w \<Rightarrow> 'w" where
  "auto_install K skip_env is_tty cert_path w =
     (if skip_env then w else if \<not> is_tty then w else snd (install_ca K cert_path w))"

definition generate_ca_macos ::
  "('k, 'c, 'w) rcgen_ops \<Rightarrow> 'w ca_files \<Rightarrow> 'w keychain_ops \<Rightarrow> bool \<Rightarrow> bool \<Rightarrow> string \<Rightarrow> string \<Rightarrow> ('w, 'c \<times> 'k) fallible" where
  "generate_ca_macos G F K skip_env is_tty cert_path key_path =
     and_then (generate_ca G F cert_path key_path) (\<lambda>r w. (Ok r, auto_install K skip_env is_tty cert_path w))"

text \<open>\<open>CertificateManager::is_ca_trusted\<close> of \<^verbatim>\<open>src/src/tls.rs\<close>, on macOS and elsewhere; no result is a panic.\<close>

definition manager_is_ca_trusted :: "'w keychain_ops \<Rightarrow> 'w \<Rightarrow> (bool \<times> 'w) option" where
  "manager_is_ca_trusted K w =
     (case is_ca_trusted K w of
        None \<Rightarrow> None
      | Some (Inr trusted, w) \<Rightarrow> Some (trusted, w)
      | Some (Inl _, w) \<Rightarrow> Some (False, w))"

definition other_manager_is_ca_trusted :: bool where
  "other_manager_is_ca_trusted = True"

section \<open>The trust subcommand\<close>

datatype trust_end = TrustReturned "unit result" | TrustExited int | TrustPanic

text \<open>
  \<open>new_manager\<close> is \<open>CertificateManager::new()\<close>, whose result is dropped; \<open>report\<close> prints an error's outermost
  message behind \<open>Error checking trust status:\<close>.
\<close>

definition trust_command ::
  "'w keychain_ops \<Rightarrow> ('w, 'm) fallible \<Rightarrow> (string \<Rightarrow> 'w \<Rightarrow> 'w) \<Rightarrow> bool \<Rightarrow> bool \<Rightarrow> 'w \<Rightarrow> trust_end option \<times> 'w" where
  \<comment> \<open>\<^const>\<open>None\<close>: the subcommand does not end the program\<close>
  "trust_command K new_manager report install remove w =
     (if \<not> install \<and> \<not> remove then
        (case is_ca_trusted K w of
           None \<Rightarrow> (Some TrustPanic, w)
         | Some (Inr True, w) \<Rightarrow>
             (Some (TrustReturned (Ok ())), kc_println K (check_mark @ '' httpjail CA certificate is trusted in keychain'') w)
         | Some (Inr False, w) \<Rightarrow>
             (Some (TrustExited 1),
              print_lines K [ballot_x @ '' httpjail CA certificate is NOT trusted in keychain'',
                             ''Run '' @ [CHR 0x27] @ ''httpjail trust --install'' @ [CHR 0x27] @ '' to enable HTTPS interception''] w)
         | Some (Inl e, w) \<Rightarrow> (Some (TrustExited 1), report e w))
      else if install then
        (case kc_config_dir K of
           None \<Rightarrow> (Some (TrustReturned (Err ''Could not find user config directory'')), w)
         | Some config_dir \<Rightarrow>
             (let ca_cert_path = path_join (path_join config_dir ''httpjail'') ''ca-cert.pem'';
                  (r, w) = and_then (\<lambda>w. if kc_exists K ca_cert_path w then (Ok (), w)
                                          else and_then new_manager (\<lambda>_. return_ok ()) w)
                             (\<lambda>_. install_ca K ca_cert_path) w
              in case r of
                   Inl e \<Rightarrow> (Some (TrustReturned (Err e)), w)
                 | Inr _ \<Rightarrow>
                     (Some (TrustReturned (Ok ())),
                      kc_println K (check_mark @ '' httpjail CA certificate installed successfully'') w)))
      else if remove then (let (r, w) = uninstall_ca K w in (Some (TrustReturned r), w))
      else (None, w))"

section \<open>What is deleted\<close>

text \<open>
  A world that records what the manager does. The environment decides every answer, from all that happened
  before.
\<close>

datatype kc_event = Ran sys_command "cmd_output result" | Piped sys_command | Printed string

record kc_env =
  answer :: "kc_event list \<Rightarrow> sys_command \<Rightarrow> cmd_output result"
  answer_pipe :: "kc_event list \<Rightarrow> sys_command \<Rightarrow> pipe_result"
  file_exists :: "string \<Rightarrow> kc_event list \<Rightarrow> bool"
  file_text :: "string \<Rightarrow> kc_event list \<Rightarrow> string result"
  user_config :: "string option"

definition recorded_sys :: "kc_env \<Rightarrow> kc_event list sys_ops" where
  "recorded_sys E =
     \<lparr>run = (\<lambda>c es. (answer E es c, es @ [Ran c (answer E es c)])), pipe = (\<lambda>c es. (answer_pipe E es c, es @ [Piped c])),
      run_status = (\<lambda>_ es. (Err [], es)), create_dir_all = (\<lambda>_ es. (Err [], es)), write_new = (\<lambda>_ _ es. (Err [], es)),
      create_new = (\<lambda>_ es. (Err [], es)), remove_dir_all = (\<lambda>_ es. (RmNotFound, es)), read_link = (\<lambda>_ es. (Err [], es)),
      canonicalize = (\<lambda>_ es. (Err [], es))\<rparr>"

definition recorded :: "kc_env \<Rightarrow> kc_event list keychain_ops" where
  "recorded E =
     \<lparr>kc_sys = recorded_sys E, kc_println = (\<lambda>l es. es @ [Printed l]), kc_exists = file_exists E,
      kc_read = (\<lambda>p es. (file_text E p es, es)), kc_config_dir = user_config E\<rparr>"

lemma recorded_simps [simp]:
  "run (kc_sys (recorded E)) c es = (answer E es c, es @ [Ran c (answer E es c)])"
  "pipe (kc_sys (recorded E)) c es = (answer_pipe E es c, es @ [Piped c])"
  "kc_println (recorded E) l es = es @ [Printed l]"
  "kc_read (recorded E) p es = (file_text E p es, es)"
  by (simp_all add: recorded_def recorded_sys_def)

text \<open>
  The hashes of the certificates that a command deletes, and those that a listing for the name of the authority
  gives: what stands, up to white space, behind the last colon of a line with one of the two labels.
\<close>

definition deleted_by :: "kc_event \<Rightarrow> string set" where
  "deleted_by e =
     (case e of Ran c _ \<Rightarrow> (case cmd_args c of d # z # h # _ \<Rightarrow> if d = ''delete-certificate'' then {h} else {} | _ \<Rightarrow> {}) | _ \<Rightarrow> {})"

definition line_gives :: "string \<Rightarrow> string \<Rightarrow> bool" where
  "line_gives line h \<longleftrightarrow>
     (\<exists>a b. line = a @ ''SHA-256 hash:'' @ b \<or> line = a @ ''SHA-1 hash:'' @ b) \<and>
     (\<exists>front l r. line = front @ CHR '':'' # l @ h @ r \<and> blank l \<and> blank r \<and> CHR '':'' \<notin> set h)"

definition listed_hashes :: "string \<Rightarrow> string set" where
  "listed_hashes out = {h. \<exists>line \<in> set (str_lines [] (from_utf8_lossy out)). line_gives line h}"

definition listed_by :: "kc_event \<Rightarrow> string set" where
  "listed_by e =
     (case e of
        Ran c (Inr out) \<Rightarrow>
          (if cmd_program c = ''security'' \<and> take 4 (cmd_args c) = [''find-certificate'', ''-a'', ''-c'', CA_NAME]
           then listed_hashes (out_stdout out) else {})
      | _ \<Rightarrow> {})"

definition deleted :: "kc_event list \<Rightarrow> string set" where "deleted es = \<Union> (deleted_by ` set es)"
definition listed :: "kc_event list \<Rightarrow> string set" where "listed es = \<Union> (listed_by ` set es)"

text \<open>Every deletion of a trace is of a certificate of the set \<open>H\<close> or of one that was listed before.\<close>

fun listed_first :: "string set \<Rightarrow> kc_event list \<Rightarrow> bool" where
  "listed_first H [] = True"
| "listed_first H (e # es) = (deleted_by e \<subseteq> H \<and> listed_first (H \<union> listed_by e) es)"

lemma split_last_behind: "c \<in> set s \<Longrightarrow> \<exists>front. s = front @ c # split_last c s \<and> c \<notin> set (split_last c s)"
proof -
  assume "c \<in> set s"
  then have "dropWhile (\<lambda>x. x \<noteq> c) (rev s) \<noteq> []" by (simp add: dropWhile_eq_Nil_conv)
  then obtain f where "dropWhile (\<lambda>x. x \<noteq> c) (rev s) = c # f"
    by (metis (mono_tags) hd_dropWhile list.exhaust_sel)
  then have "rev s = takeWhile (\<lambda>x. x \<noteq> c) (rev s) @ c # f"
    by (metis takeWhile_dropWhile_id)
  then have "s = rev f @ c # split_last c s"
    unfolding split_last_def by (metis append.assoc append_Cons append_Nil rev.simps(2) rev_append rev_rev_ident)
  moreover have "c \<notin> set (split_last c s)"
    unfolding split_last_def by (auto dest: set_takeWhileD)
  ultimately show ?thesis by blast
qed

lemma hash_of_line_gives:
  assumes "hash_of_line line = Some h"
  shows "line_gives line h"
proof -
  have l: "str_contains ''SHA-256 hash:'' line \<or> str_contains ''SHA-1 hash:'' line"
    and h: "h = trim (split_last (CHR '':'') line)"
    using assms by (auto simp: hash_of_line_def split: if_splits)
  then have "CHR '':'' \<in> set line" by (auto simp: str_contains_iff)
  then obtain front where f: "line = front @ CHR '':'' # split_last (CHR '':'') line"
      "CHR '':'' \<notin> set (split_last (CHR '':'') line)"
    using split_last_behind by blast
  obtain a b where t: "split_last (CHR '':'') line = a @ h @ b" "blank a" "blank b"
    using trim_split unfolding h by blast
  with f have "line = front @ CHR '':'' # a @ h @ b" "CHR '':'' \<notin> set h" by (simp, metis Un_iff set_append)
  with t l show ?thesis unfolding line_gives_def str_contains_iff by blast
qed

lemma listed_hashes_lines:
  "set (List.map_filter hash_of_line (str_lines [] (from_utf8_lossy out))) \<subseteq> listed_hashes out"
  by (fastforce simp: listed_hashes_def List.map_filter_def dest: hash_of_line_gives)

lemma deleted_simps [simp]: "deleted [] = {}" "deleted (e # es) = deleted_by e \<union> deleted es"
  "deleted (es @ fs) = deleted es \<union> deleted fs"
  by (auto simp: deleted_def)

lemma listed_simps [simp]: "listed [] = {}" "listed (e # es) = listed_by e \<union> listed es"
  "listed (es @ fs) = listed es \<union> listed fs"
  by (auto simp: listed_def)

lemma deleted_by_simps [simp]: "deleted_by (Piped c) = {}" "deleted_by (Printed l) = {}"
  "deleted_by (Ran (security (x # xs)) r) =
     (if x = ''delete-certificate'' then (case xs of z # h # _ \<Rightarrow> {h} | _ \<Rightarrow> {}) else {})"
  by (auto simp: deleted_by_def security_def command_def split: list.split)

lemma listed_first_append: "listed_first H (es @ fs) \<longleftrightarrow> listed_first H es \<and> listed_first (H \<union> listed es) fs"
  by (induction es arbitrary: H) (auto simp: Un_assoc)

lemma listed_firstI: "deleted es \<subseteq> H \<Longrightarrow> listed_first H es"
  by (induction es arbitrary: H) (auto simp: le_supI1)

lemma listed_first_mono: "listed_first H es \<Longrightarrow> H \<subseteq> H' \<Longrightarrow> listed_first H' es"
  by (induction es arbitrary: H H') (fastforce, auto, meson Un_mono order_refl)

text \<open>A step that deletes only certificates of the set \<open>H\<close>.\<close>

definition deletes_in :: "string set \<Rightarrow> (kc_event list, 'a) fallible \<Rightarrow> bool" where
  "deletes_in H m \<longleftrightarrow> (\<forall>es. \<exists>new. snd (m es) = es @ new \<and> deleted new \<subseteq> H)"

lemma deletes_inI: "(\<And>es. \<exists>new. snd (m es) = es @ new \<and> deleted new \<subseteq> H) \<Longrightarrow> deletes_in H m"
  by (simp add: deletes_in_def)

lemma deletes_in_and_then:
  assumes "deletes_in H m" and "\<And>x. deletes_in H (f x)"
  shows "deletes_in H (and_then m f)"
proof (rule deletes_inI)
  fix es
  obtain new where n: "snd (m es) = es @ new" "deleted new \<subseteq> H" using assms(1) by (auto simp: deletes_in_def)
  show "\<exists>new. snd (and_then m f es) = es @ new \<and> deleted new \<subseteq> H"
  proof (cases "fst (m es)")
    case (Inr x)
    obtain new' where "snd (f x (es @ new)) = (es @ new) @ new'" "deleted new' \<subseteq> H"
      using assms(2) [of x] unfolding deletes_in_def by blast
    then show ?thesis using n Inr by (cases "m es") (auto simp: and_then_def)
  qed (use n in \<open>cases "m es"; auto simp: and_then_def\<close>)
qed

lemma deletes_in_with_ctx [simp]: "deletes_in H (with_ctx c m) = deletes_in H m"
  by (simp add: deletes_in_def with_ctx_def)

lemma deletes_in_run: "deleted_by (Ran c (Err [])) \<subseteq> H \<Longrightarrow> deletes_in H (run (kc_sys (recorded E)) c)"
  by (auto simp: deletes_in_def deleted_by_def)

lemma deletes_in_get_user_keychain: "deletes_in H (get_user_keychain (recorded E))"
  unfolding get_user_keychain_def
  by (rule deletes_in_and_then) (auto simp: deletes_in_run, auto simp: deletes_in_def Let_def)

lemma deletes_in_security:
  "x \<noteq> ''delete-certificate'' \<or> (\<exists>z h zs. xs = z # h # zs \<and> h \<in> H) \<Longrightarrow>
     deletes_in H (security_in_keychain (recorded E) c (x # xs))"
  unfolding security_in_keychain_def
  by (rule deletes_in_and_then) (auto simp: deletes_in_get_user_keychain split: if_splits intro!: deletes_in_run)

lemma deletes_in_get_cert_info: "deletes_in H (get_cert_info (recorded E) pem)"
  unfolding get_cert_info_def by (auto simp: deletes_in_def Let_def split: pipe_result.split)

lemma deletes_in_pure: "(\<And>es. \<exists>new. snd (m es) = es @ new \<and> deleted new = {}) \<Longrightarrow> deletes_in H m"
  unfolding deletes_in_def by (metis empty_subsetI)

lemma deletes_in_if:
  "(b \<Longrightarrow> deletes_in H m) \<Longrightarrow> (\<not> b \<Longrightarrow> deletes_in H m') \<Longrightarrow> deletes_in H (\<lambda>w. if b then m w else m' w)"
  by (cases b) simp_all

lemma deletes_in_cert_end:
  "deletes_in H (\<lambda>w. case get_cert_info (recorded E) pem w of (Inl _, w) \<Rightarrow> (Ok s, w) | (Inr i, w) \<Rightarrow> (Ok (f i), w))"
proof (rule deletes_inI)
  fix es
  obtain new where "snd (get_cert_info (recorded E) pem es) = es @ new" "deleted new \<subseteq> H"
    using deletes_in_get_cert_info [of H E pem] unfolding deletes_in_def by blast
  then show "\<exists>new. snd (case get_cert_info (recorded E) pem es of (Inl _, w) \<Rightarrow> (Ok s, w) | (Inr i, w) \<Rightarrow> (Ok (f i), w)) =
      es @ new \<and> deleted new \<subseteq> H"
    by (cases "get_cert_info (recorded E) pem es"; cases "fst (get_cert_info (recorded E) pem es)") auto
qed

lemma deletes_in_uninstall_line:
  assumes "\<And>h. hash_of_line line = Some h \<Longrightarrow> h \<in> H"
  shows "deletes_in H (uninstall_line (recorded E) line s)"
proof -
  have del: "deletes_in H (\<lambda>w. and_then (security_in_keychain (recorded E) c [''delete-certificate'', ''-Z'', h])
     (\<lambda>out w. if out_success out
        then (let n = removed_count s + 1
              in (Ok (s\<lparr>removed_count := n\<rparr>), kc_println (recorded E) (removed_notice n (cert_info s) h) w))
        else (Ok s, w)) w)" if "hash_of_line line = Some h" for c h
    using assms [OF that] by (intro deletes_in_and_then deletes_in_security deletes_in_pure) (auto simp: Let_def)
  have "deletes_in H (\<lambda>w. uninstall_line (recorded E) line s w)"
    unfolding uninstall_line_def Let_def
    by (cases "hash_of_line line")
      (simp_all only: option.case, (intro deletes_in_if deletes_in_cert_end | rule del [unfolded Let_def] deletes_in_pure | simp)+)
  then show ?thesis .
qed

lemma deletes_in_uninstall_lines:
  "set (List.map_filter hash_of_line ls) \<subseteq> H \<Longrightarrow> deletes_in H (uninstall_lines (recorded E) ls s)"
proof (induction ls arbitrary: s)
  case Nil
  show ?case by (simp add: deletes_in_def)
next
  case (Cons line ls)
  have "deletes_in H (and_then (uninstall_line (recorded E) line s) (uninstall_lines (recorded E) ls))"
    using Cons by (intro deletes_in_and_then deletes_in_uninstall_line) (auto simp: map_filter_simps split: option.splits)
  then show ?case by (simp add: deletes_in_def)
qed

lemma deletes_in_delete_old_certs: "set hs \<subseteq> H \<Longrightarrow> deletes_in H (delete_old_certs (recorded E) hs)"
proof (induction hs)
  case Nil
  show ?case by (simp add: deletes_in_def)
next
  case (Cons h hs)
  have "deletes_in H (and_then (get_user_keychain (recorded E)) (\<lambda>k es. delete_old_certs (recorded E) hs
      (snd (run (kc_sys (recorded E)) (security [''delete-certificate'', ''-Z'', h, k]) es))))"
  proof (rule deletes_in_and_then [OF deletes_in_get_user_keychain], rule deletes_inI)
    fix k es
    let ?e = "Ran (security [''delete-certificate'', ''-Z'', h, k]) (answer E es (security [''delete-certificate'', ''-Z'', h, k]))"
    have "deletes_in H (delete_old_certs (recorded E) hs)" using Cons by simp
    then obtain new where "snd (delete_old_certs (recorded E) hs (es @ [?e])) = (es @ [?e]) @ new" "deleted new \<subseteq> H"
      unfolding deletes_in_def by blast
    then show "\<exists>new. snd (delete_old_certs (recorded E) hs
        (snd (run (kc_sys (recorded E)) (security [''delete-certificate'', ''-Z'', h, k]) es))) = es @ new \<and> deleted new \<subseteq> H"
      using Cons.prems by (intro exI [of _ "?e # new"]) auto
  qed
  moreover have "and_then (get_user_keychain (recorded E)) (\<lambda>k es. delete_old_certs (recorded E) hs
      (snd (run (kc_sys (recorded E)) (security [''delete-certificate'', ''-Z'', h, k]) es))) = delete_old_certs (recorded E) (h # hs)"
    by (simp only: fun_eq_iff and_then_def delete_old_certs.simps) simp
  ultimately show ?case by (simp only:)
qed

text \<open>A step that deletes only certificates that it listed.\<close>

definition deletes_listed :: "(kc_event list, 'a) fallible \<Rightarrow> bool" where
  "deletes_listed m \<longleftrightarrow> (\<forall>es. \<exists>new. snd (m es) = es @ new \<and> listed_first {} new)"

lemma deletes_listed_empty: "deletes_in {} m \<Longrightarrow> deletes_listed m"
  unfolding deletes_in_def deletes_listed_def by (metis listed_firstI)

lemma deletes_listed_and_then:
  assumes "deletes_listed m" and "\<And>x. deletes_listed (f x)"
  shows "deletes_listed (and_then m f)"
  unfolding deletes_listed_def
proof
  fix es
  obtain new where n: "snd (m es) = es @ new" "listed_first {} new" using assms(1) by (auto simp: deletes_listed_def)
  show "\<exists>new. snd (and_then m f es) = es @ new \<and> listed_first {} new"
  proof (cases "fst (m es)")
    case (Inr x)
    obtain new' where "snd (f x (es @ new)) = (es @ new) @ new'" "listed_first {} new'"
      using assms(2) [of x] unfolding deletes_listed_def by blast
    then show ?thesis
      using n Inr listed_first_mono [of "{}" new' "listed new"]
      by (intro exI [of _ "new @ new'"]) (cases "m es", auto simp: and_then_def listed_first_append)
  qed (use n in \<open>cases "m es"; auto simp: and_then_def\<close>)
qed

lemma deletes_listed_find:
  assumes "\<And>out. deletes_in (listed_hashes (out_stdout out)) (f out)"
  shows "deletes_listed (and_then
    (security_in_keychain (recorded E) c (''find-certificate'' # ''-a'' # ''-c'' # CA_NAME # args)) f)"
  unfolding deletes_listed_def
proof
  fix es
  let ?find = "\<lambda>k. security (''find-certificate'' # ''-a'' # ''-c'' # CA_NAME # args @ [k])"
  let ?m = "and_then (security_in_keychain (recorded E) c (''find-certificate'' # ''-a'' # ''-c'' # CA_NAME # args)) f"
  obtain new where n: "snd (get_user_keychain (recorded E) es) = es @ new" "listed_first {} new"
    using listed_firstI deletes_in_get_user_keychain [of "{}" E] unfolding deletes_in_def by blast
  show "\<exists>new. snd (?m es) = es @ new \<and> listed_first {} new"
  proof (cases "fst (get_user_keychain (recorded E) es)")
    case (Inl e)
    then show ?thesis
      using n by (cases "get_user_keychain (recorded E) es") (auto simp: and_then_def security_in_keychain_def)
  next
    case (Inr k)
    let ?es = "es @ new" and ?r = "answer E (es @ new) (?find k)"
    have g: "get_user_keychain (recorded E) es = (Ok k, ?es)" using n Inr by (metis prod.collapse)
    show ?thesis
    proof (cases ?r)
      case (Inl e)
      then show ?thesis
        using n g
        by (auto simp: and_then_def security_in_keychain_def with_ctx_def err_context_def listed_first_append)
    next
      case (Inr out)
      obtain new' where f: "snd (f out (?es @ [Ran (?find k) ?r])) = (?es @ [Ran (?find k) ?r]) @ new'"
          "deleted new' \<subseteq> listed_hashes (out_stdout out)"
        using assms [of out] unfolding deletes_in_def by blast
      have l: "listed_by (Ran (?find k) ?r) = listed_hashes (out_stdout out)"
        unfolding listed_by_def Inr by (simp add: security_def command_def)
      have "?m es = f out (?es @ [Ran (?find k) ?r])"
        by (simp add: g Inr and_then_def security_in_keychain_def with_ctx_def err_context_def)
      then show ?thesis
        using n f l listed_firstI [of new "{}"] listed_firstI [of new' "listed new \<union> listed_hashes (out_stdout out)"]
        by (intro exI [of _ "new @ Ran (?find k) ?r # new'"]) (auto simp: listed_first_append)
    qed
  qed
qed

lemma deletes_in_println: "deletes_in H (\<lambda>w. (r, kc_println (recorded E) l w))"
  by (rule deletes_in_pure) simp

lemma deletes_listed_uninstall: "deletes_listed (uninstall_ca (recorded E))"
  unfolding uninstall_ca_def
proof (rule deletes_listed_find, rule deletes_in_if)
  fix out
  show "deletes_in (listed_hashes (out_stdout out))
     (and_then (uninstall_lines (recorded E) (str_lines [] (from_utf8_lossy (out_stdout out))) s)
       (\<lambda>s w. (Ok (), kc_println (recorded E) (f s) w)))" for s f
    by (intro deletes_in_and_then deletes_in_uninstall_lines deletes_in_println) (rule listed_hashes_lines)
qed (rule deletes_in_println)

lemma deletes_listed_cleanup: "deletes_listed (cleanup_old_certificates (recorded E))"
  unfolding cleanup_old_certificates_def
proof (rule deletes_listed_find, rule deletes_in_if)
  fix out
  show "deletes_in (listed_hashes (out_stdout out))
     (delete_old_certs (recorded E) (List.map_filter hash_of_line (str_lines [] (from_utf8_lossy (out_stdout out)))))"
    by (rule deletes_in_delete_old_certs) (rule listed_hashes_lines)
qed (rule deletes_in_pure, simp)

lemma deletes_listed_after:
  assumes "\<And>es. \<exists>new. f es = es @ new \<and> deleted new = {}" and "deletes_listed m"
  shows "deletes_listed (\<lambda>w. m (f w))"
  unfolding deletes_listed_def
proof
  fix es
  obtain a where a: "f es = es @ a" "deleted a = {}" using assms(1) by blast
  obtain b where "snd (m (es @ a)) = (es @ a) @ b" "listed_first {} b"
    using assms(2) unfolding deletes_listed_def by blast
  with a show "\<exists>new. snd (m (f es)) = es @ new \<and> listed_first {} new"
    using listed_firstI [of a "{}"] listed_first_mono [of "{}" b "listed a"]
    by (intro exI [of _ "a @ b"]) (auto simp: listed_first_append)
qed

lemma print_lines_recorded: "print_lines (recorded E) ls es = es @ map Printed ls"
  unfolding print_lines_def by (induction ls rule: rev_induct) auto

lemma printed_deletes_none [simp]: "deleted (map Printed ls) = {}"
  by (induction ls) auto

lemma show_cert_info_deletes: "\<exists>new. show_cert_info (recorded E) p es = es @ new \<and> deleted new = {}"
proof (cases "file_text E p es")
  case (Inr content)
  obtain new where n: "snd (get_cert_info (recorded E) content es) = es @ new" "deleted new = {}"
    using deletes_in_get_cert_info [of "{}" E content] unfolding deletes_in_def by blast
  then show ?thesis
    by (cases "get_cert_info (recorded E) content es"; cases "fst (get_cert_info (recorded E) content es)")
      (auto simp: show_cert_info_def Inr)
qed (simp add: show_cert_info_def)

lemma deletes_listed_install: "deletes_listed (install_ca (recorded E) p)"
proof -
  let ?last = "\<lambda>out w. if \<not> out_success out then (Err (install_error (from_utf8_lossy (out_stderr out))), w)
    else (Ok (), show_cert_info (recorded E) p w)"
  let ?add = "\<lambda>k. and_then (with_ctx ''Failed to add certificate to keychain''
    (run (kc_sys (recorded E)) (add_trusted_cert k p))) ?last"
  have 1: "deletes_listed (?last out)" for out
    using show_cert_info_deletes [of E p] by (intro deletes_listed_empty deletes_in_pure) auto
  have 2: "deletes_listed (with_ctx c (run (kc_sys (recorded E)) (add_trusted_cert k p)))" for c k
    by (intro deletes_listed_empty) (simp add: deletes_in_run add_trusted_cert_def)
  have 3: "deletes_listed (?add k)" for k
    by (rule deletes_listed_and_then [OF 2 1])
  have 4: "deletes_listed (and_then (get_user_keychain (recorded E)) ?add)"
    by (rule deletes_listed_and_then [OF deletes_listed_empty [OF deletes_in_get_user_keychain] 3])
  have 5: "deletes_listed (\<lambda>w. and_then (get_user_keychain (recorded E)) ?add (print_lines (recorded E) ls w))" for ls
    by (rule deletes_listed_after [OF _ 4]) (simp add: print_lines_recorded)
  let ?new = "and_then (cleanup_old_certificates (recorded E))
    (\<lambda>_ w. and_then (get_user_keychain (recorded E)) ?add (print_lines (recorded E) install_notice w))"
  have 6: "deletes_listed ?new"
    by (rule deletes_listed_and_then [OF deletes_listed_cleanup 5])
  have 7: "deletes_listed (\<lambda>w. ?new (if out_success out then print_lines (recorded E) existing_notice w else w))" for out
    by (rule deletes_listed_after [OF _ 6]) (simp add: print_lines_recorded)
  have 8: "deletes_listed (security_in_keychain (recorded E) c [''find-certificate'', ''-c'', CA_NAME])" for c
    by (intro deletes_listed_empty deletes_in_security) simp
  show ?thesis
    unfolding install_ca_def by (rule deletes_listed_and_then [OF 8 7])
qed

text \<open>
  (C36) Whatever \<open>security\<close> and \<open>openssl\<close> answer, removing the authority from the keychain and replacing it by a new
  one delete only certificates whose hash, up to white space, stood behind the last colon of a hash line in an
  earlier listing for the name of the authority.
\<close>

theorem keychain_deletes_own:
  "listed_first {} (snd (uninstall_ca (recorded E) [])) \<and>
   listed_first {} (snd (install_ca (recorded E) cert_path []))"
  using deletes_listed_uninstall [of E] deletes_listed_install [of E cert_path]
  unfolding deletes_listed_def by (metis append_Nil)

end
