(* ===== verification/Spec2Isabelle.thy ===== *)
theory Spec2Isabelle
  imports Console_Log Deny_All Interception Proxy_Tasks Main_Run Keychain
begin

text \<open>
  A verification development for httpjail, a program that runs a command in a network jail and lets its HTTP and
  HTTPS requests pass only if a rule allows them. All sources are under \<^verbatim>\<open>src/src/\<close>.

  \<^bold>\<open>How the program works.\<close> \<^verbatim>\<open>main.rs\<close> reads the options, chooses a rule engine (a shell script, a
  long-running line processor, JavaScript in V8, or deny-all), starts the two listeners of the proxy
  (\<^verbatim>\<open>proxy.rs\<close> for HTTP, \<^verbatim>\<open>proxy_tls.rs\<close> for HTTPS with intercepted TLS and certificates from \<^verbatim>\<open>tls.rs\<close>),
  creates a jail (\<^verbatim>\<open>jail/weak.rs\<close> sets proxy variables only, \<^verbatim>\<open>jail/linux/\<close> builds a network namespace with
  nftables rules and a dummy DNS server, \<^verbatim>\<open>jail/linux/docker.rs\<close> runs a container in that network), wraps it
  with a life cycle (\<^verbatim>\<open>jail/managed.rs\<close>: canary files, heartbeat, cleanup of orphans), runs the command and
  cleans up.

  \<^bold>\<open>Conventions.\<close> Strings are byte strings. Fallible code returns \<^typ>\<open>'a result\<close>, an error being the whole
  chain of its contexts; code with effects passes a world \<open>'w\<close> explicitly. Integers that can overflow are
  words. Third-party packages and the operating system are records of operations that the definitions take
  as arguments (header maps, V8, \<open>rcgen\<close>, \<open>lru\<close>, TLS, DNS packets, commands, files, clocks); what is relied on
  is a locale, interpreted on a concrete instance in the same theory. To state what a run does, the
  operations are wrapped so that they record a trace (\<open>watch\<close>, \<open>watch_conn\<close>, \<open>watch_sys\<close>,
  \<open>watch_canary\<close>, \<open>recorded\<close>); the wrapped operations answer as the given ones do. Log output has no
  effect in the model, apart from the request log (which is best effort: its lock and its writes may fail) and the
  console of scripts, whose records pass the filter of the log, a parameter.

  \<^bold>\<open>Theories.\<close>
  \<^item> \<open>Prelude\<close>: results, words, decimal numbers, strings, lines, UTF-8, trimming.
  \<^item> \<open>Rules\<close> (\<^verbatim>\<open>rules.rs\<close>), \<open>Rule_Common\<close> (\<^verbatim>\<open>rules/common.rs\<close>), \<open>Shell_Engine\<close>, \<open>Proc_Engine\<close>,
    \<open>V8_Engine\<close> (\<^verbatim>\<open>rules/shell.rs\<close>, \<^verbatim>\<open>rules/proc.rs\<close>, \<^verbatim>\<open>rules/v8_js.rs\<close>): the locale \<open>rule_engine\<close> is the
    contract that all three engines and the logging engine are shown to satisfy. The lemmas show that every
    engine fails closed (for responses against the specification \<open>grants\<close> of the documents that allow, for the
    line processor over traces with the outcome of every write and flush), that responses are read and written
    consistently, that the line processor accounts for its children, and that concurrent reloads of the JavaScript file are safe (a step relation).
  \<^item> \<open>Console_Log\<close> (\<^verbatim>\<open>rules/console_log.rs\<close>): the console object of a script over the locale \<open>js_objects\<close>, which
    states what is used of V8's objects; exactly the methods of the documentation's table, with their levels.
  \<^item> \<open>Upstream_TLS\<close> (\<^verbatim>\<open>dangerous_verifier.rs\<close> and the shared client of \<^verbatim>\<open>proxy.rs\<close>): which verifier the client has.
  \<^item> \<open>Limited_Body\<close> (\<^verbatim>\<open>limited_body.rs\<close>): a limited body refines \<open>take max_bytes\<close>.
  \<^item> \<open>Http_Types\<close>, \<open>Proxy\<close> (\<^verbatim>\<open>proxy.rs\<close>), \<open>Proxy_TLS\<close> (\<^verbatim>\<open>proxy_tls.rs\<close>): the locale \<open>header_map\<close> states
    what is used of the package \<open>http\<close>, the locale \<open>gated_handler\<close> is the contract of a request handler from which
    complete mediation of a connection follows; it is interpreted on the HTTP handler and on the handler of
    decrypted requests. Further: headers sent upstream, byte limits on the wire, loop detection, denials,
    protocol and SNI detection, the search for ports.
  \<^item> \<open>Proxy_Tasks\<close>: the request handlers as tasks that give up control where they wait, with all interleavings as
    a step relation; the handlers are the runs of one task alone, and mediation holds in every interleaving.
  \<^item> \<open>Deny_All\<close>: the locales \<open>deny_all\<close> and \<open>deny_all_conn\<close> of a proxy whose engine denies everything, interpreted
    below on the default engine.
  \<^item> \<open>Cert_Manager\<close> (\<^verbatim>\<open>tls.rs\<close>): the stored authority, the certificates for hosts, their cache under concurrent
    calls (a reachability predicate whose steps are the two critical sections), the variables for tools.
  \<^item> \<open>Interception\<close>: the HTTPS side with that certificate manager; the certificate shown to a client and the URLs
    that are then evaluated are for the same host.
  \<^item> \<open>Keychain\<close> (\<^verbatim>\<open>macos_keychain.rs\<close> and the \<open>trust\<close> subcommand): what is deleted from the keychain.
  \<^item> \<open>Jail\<close> (\<^verbatim>\<open>jail/mod.rs\<close>, \<^verbatim>\<open>jail/weak.rs\<close>), \<open>Sys_Resource\<close> (\<^verbatim>\<open>sys_resource.rs\<close>), \<open>Linux_Net\<close>,
    \<open>Linux_Resources\<close>, \<open>Nftables\<close>, \<open>Dns\<close>, \<open>Linux_Jail\<close> (\<^verbatim>\<open>jail/linux/\<close>), \<open>Docker\<close>: addresses and names, the
    resources with their accounting (\<open>held\<close>, the resources that a trace acquired and did not release, where only
    a deletion that succeeded releases, and \<open>refusals\<close>, those whose deletion the system refused), the rule
    sets as texts, the chains they denote and a packet semantics in the locale \<open>nft_semantics\<close>, the DNS loop
    against its specification, setup, execution, cleanup and orphans.
  \<^item> \<open>Managed_Jail\<close> (\<^verbatim>\<open>jail/managed.rs\<close>): the operations with the order of their effects, the orphan scan
    against a protocol automaton, the heartbeat thread and its owner as a step relation with a clock, in which
    touches may fail and the thread wakes within a scheduling delay of the moment its sleep ends.
  \<^item> \<open>Jail_Lifecycle\<close>: the locales \<open>jail_contract\<close> and \<open>managed_contract\<close> on the Linux and the Docker jail.
  \<^item> \<open>Net_Addr\<close>, \<open>Main_Cli\<close> (\<^verbatim>\<open>main.rs\<close>): the parser of addresses of the standard library; options, log level,
    direct orphan cleanup, choice of the engine, test mode, bind addresses, the run in the jail, signals.
  \<^item> \<open>Engine_Box\<close>: the boxed engine that \<open>main\<close> builds from its options, with the request log; the locale
    \<open>rule_engine\<close> on it, and that what goes upstream was permitted by the rule of the chosen option.
  \<^item> \<open>Main_Run\<close>: the body of \<open>main\<close> over the parts above (the boxed jails of \<open>create_jail\<close>, the start of the proxy
    with its authority and client), the confinement of every run in the default mode, down to the packets, and
    the soundness of the test mode.
  \<^item> This theory: properties of several components together.

  \<^bold>\<open>Bounds.\<close> All functions are total. The only fuel is the number of attempts of the line processor and of
  the search for a port, which are the counts of the code. Streams of requests and datagrams are finite lists,
  of any length. The scheduling delay of the heartbeat thread is bounded by the parameter \<open>slack\<close>; nothing
  is assumed on the delays of other threads.

  \<^bold>\<open>Not modelled.\<close> \<^verbatim>\<open>test_utils.rs\<close> and \<^verbatim>\<open>lib.rs\<close> (test helpers and module declarations), the time format of the
  log, read-only accessors that only tests use, and the scheduler of the asynchronous runtime: tasks are modelled
  where they share state (requests, reloads, certificates, heartbeat), as step relations with all interleavings. The evaluation of nftables
  is the documented one, not the code of the kernel; which TLS handshakes \<open>rustls\<close> accepts is not modelled.
\<close>

section \<open>Properties that span components\<close>

text \<open>
  The two engines that answer with a rule response agree: for every response, the result that
  the JavaScript engine builds from it is the result that the line processor builds from it, with the
  same verdict, the same message and the same byte limit.
\<close>

theorem engine_parity:
  "(case to_evaluation_result (from_string json_of s) of
      (allowed, ctx, bytes) \<Rightarrow> build_evaluation_result allowed ctx bytes) =
   verdict_result (to_evaluation_result (from_string json_of s))"
proof -
  obtain a c b where v: "to_evaluation_result (from_string json_of s) = (a, c, b)"
    by (metis prod.exhaust)
  from to_evaluation_result_shape [OF v] show ?thesis
    by (simp add: v build_evaluation_result_def verdict_result_def result_defs Let_def split: option.splits)
qed

lemma sent_logged:
  assumes "ctx_engine C = from_trait L engine (Some f0)"
    and "\<forall>q w. snd (snd (client_request C q w)) = snd w"
    and "SentUp q \<in> set (allowed_trace C req url (fst (evaluate (ctx_engine C) (req_method req) url ip (s, Some f))))"
  shows "action (fst (evaluate (ctx_engine C) (req_method req) url ip (s, Some f))) = Allow \<and>
    snd (snd (proxy_request C req url m (snd (evaluate (ctx_engine C) (req_method req) url ip (s, Some f))))) =
      Some (log_attempt L f (log_line (now L) Allow (req_method req) url))"
proof -
  let ?e = "evaluate (ctx_engine C) (req_method req) url ip (s, Some f)"
  have a: "action (fst ?e) = Allow" using assms(3) allowed_trace_cases [of C req url "fst ?e"] by auto
  have "snd (snd (proxy_request C req url m w)) = snd w" for w
    using assms(2)
    by (cases w) (simp add: proxy_request_def forward_world split: sum.splits byte_limit_result.splits)
  moreover have "snd (snd ?e) = Some (log_attempt L f (log_line (now L) Allow (req_method req) url))"
    using a by (simp add: assms(1) logged_evaluation from_trait_fst)
  ultimately show ?thesis using a by simp
qed

text \<open>
  (C14) The request log covers what goes upstream: if the proxy runs an engine with a request log and a
  handler, that of the HTTP port or that of decrypted HTTPS requests, hands a request to the upstream client,
  then exactly one attempt has been made to write to the log, of a line with the time, an allowed verdict, the
  request's method and the URL that was evaluated. Logging is best effort: the attempt is skipped if the mutex of
  the log is poisoned, and a write that fails neither stops the request nor is repeated.
\<close>

theorem upstream_logged:
  assumes "ctx_engine C = from_trait L engine (Some f0)"
    and "\<forall>q w. snd (snd (client_request C q w)) = snd w"
  shows "(SentUp q \<in> set (snd (snd (handle_http_request (watch C) req ip ((s, Some f), [])))) \<longrightarrow>
      snd (snd (handle_http_request C req ip (s, Some f))) =
        Some (log_attempt L f (log_line (now L) Allow (req_method req) (http_full_url C req)))) \<and>
    (SentUp q \<in> set (snd (snd (handle_decrypted_https_request (watch C) req host ip ((s, Some f), [])))) \<longrightarrow>
      snd (snd (handle_decrypted_https_request C req host ip (s, Some f))) =
        Some (log_attempt L f (log_line (now L) Allow (req_method req) (https_url host req))))"
proof (intro conjI impI)
  let ?u = "http_full_url C req"
  assume h: "SentUp q \<in> set (snd (snd (handle_http_request (watch C) req ip ((s, Some f), []))))"
  then have l: "\<not> is_loop (hdr C) (loop_nonce C) (req_headers req)"
    by (auto simp: handle_http_request_trace split: if_splits)
  with h have "SentUp q \<in> set (allowed_trace C req ?u (fst (evaluate (ctx_engine C) (req_method req) ?u ip (s, Some f))))"
    by (simp add: handle_http_request_trace Let_def)
  from sent_logged [OF assms this] l
  show "snd (snd (handle_http_request C req ip (s, Some f))) =
      Some (log_attempt L f (log_line (now L) Allow (req_method req) ?u))"
    by (simp add: handle_http_request_split Let_def)
next
  let ?u = "https_url host req"
  assume "SentUp q \<in> set (snd (snd (handle_decrypted_https_request (watch C) req host ip ((s, Some f), []))))"
  then have "SentUp q \<in> set (allowed_trace C req ?u (fst (evaluate (ctx_engine C) (req_method req) ?u ip (s, Some f))))"
    by (simp add: decrypted_trace Let_def)
  from sent_logged [OF assms this]
  show "snd (snd (handle_decrypted_https_request C req host ip (s, Some f))) =
      Some (log_attempt L f (log_line (now L) Allow (req_method req) ?u))"
    by (simp add: decrypted_split Let_def)
qed

definition logging_proxy :: "(header_list, unit, unit, unit \<times> string option) proxy_ctx" where
  \<comment> \<open>an engine that allows everything, with a log, and an upstream server that is down\<close>
  "logging_proxy =
     \<lparr>hdr = list_headers, uri_to_string = (\<lambda>u. ''http://'' @ the (uri_authority u)),
      uri_parse = (\<lambda>u. Ok (sample_uri u)),
      ctx_engine = from_trait (append_file ''now'')
        \<lparr>evaluate = (\<lambda>_ _ _ s. (allow, s)), engine_name = ''yes''\<rparr> (Some []),
      client_request = (\<lambda>q w. (Err ''down'', w)), loop_nonce = ''7''\<rparr>"

theorem upstream_logged_witness:
  "snd (snd (handle_http_request logging_proxy (sample_request ''a'' [] ()) ''::1'' ((), Some ''old''))) =
   Some (''old'' @ ''now + GET http://a'' @ newline)"
proof -
  let ?req = "sample_request ''a'' [] ()"
  let ?q = "prepare_upstream_request list_headers ?req (sample_uri ''http://a'') ''7''"
  have e: "ctx_engine logging_proxy = from_trait (append_file ''now'')
      \<lparr>evaluate = (\<lambda>_ _ _ s. (allow, s)), engine_name = ''yes''\<rparr> (Some [])"
    by (simp add: logging_proxy_def)
  have c: "\<forall>q w. snd (snd (client_request logging_proxy q w)) = snd w"
    by (simp add: logging_proxy_def)
  have "SentUp ?q \<in> set (snd (snd (handle_http_request (watch logging_proxy) ?req ''::1'' (((), Some ''old''), []))))"
    by (simp add: handle_http_request_trace allowed_trace_def upstream_request_def sample_defs allow_def
        logging_proxy_def from_trait_def logging_rule_engine_def logging_evaluate_def append_file_def Let_def)
  with upstream_logged [OF e c] show ?thesis
    by (simp add: log_line_def action_sign_def sample_defs logging_proxy_def log_attempt_def append_file_def Let_def)
qed

text \<open>
  The JavaScript engine with the default script denies everything, if V8 gives \<^verbatim>\<open>false\<close> the value false;
  both ports of the proxy run with it over any stream, certificate manager and handshake.
\<close>

interpretation default: deny_all_conn
  "watch (C\<lparr>ctx_engine := v8_rule_engine url_parse V to_json json_of E\<rparr>)"
  "\<lambda>st. (fst (fst st) = default_engine \<and> false_is_false V) \<and> sends (snd st) = 0"
  "watch_conn (beside N)"
  for C :: "('h, 'b, 'r, js_engine \<times> 'v) proxy_ctx" and url_parse V to_json json_of E
    and N :: "('h, 'b, 'r, 'k, 'v) conn_ops"
proof (rule watched_deny_all)
  fix m u ip :: string and s :: "js_engine \<times> 'v"
  let ?e = "evaluate (ctx_engine (C\<lparr>ctx_engine := v8_rule_engine url_parse V to_json json_of E\<rparr>)) m u ip s"
  assume s: "fst s = default_engine \<and> false_is_false V"
  then have "action (fst ?e) = Deny \<and> fst (snd ?e) = default_engine"
    using default_engine_denies [of V url_parse to_json json_of E m u ip "snd s" "fst ?e" "snd ?e"]
    by (cases s) (simp add: v8_rule_engine_def)
  with s show "action (fst ?e) = Deny" "fst (snd ?e) = default_engine \<and> false_is_false V" by simp_all
qed

text \<open>
  (C12) Deny by default, end to end: started without any rule option, the program chooses an engine with which
  neither port ever sends a request upstream, whatever requests arrive on a connection, in TLS, in a CONNECT
  tunnel or in plain HTTP, if V8 gives the script \<^verbatim>\<open>false\<close> the value false. The engine is then unchanged, so
  that the same holds for every later connection.
\<close>

theorem default_sends_nothing:
  assumes "select_engine V E a w0 = (Started (JavaScript engine), w1)"
    and "ra_sh a = None" and "ra_proc a = None" and "ra_js a = None" and "ra_js_file a = None"
    and "false_is_false V"
    and "ctx_engine C = v8_rule_engine url_parse V to_json json_of E"
  shows "let http = snd (handle_http_connection (watch C) reqs ip ((engine, v), []));
             https = snd (handle_https_connection (watch C) T (watch_conn (beside N)) ip ((engine, v), []))
         in sends (snd http) = 0 \<and> sends (snd https) = 0 \<and> fst (fst http) = engine \<and> fst (fst https) = engine"
proof -
  have c: "C\<lparr>ctx_engine := v8_rule_engine url_parse V to_json json_of E\<rparr> = C" by (simp flip: assms(7))
  show ?thesis
    using default.http_connection_kept [where V = V and w = "((engine, v), [])" and C = C and url_parse = url_parse
        and to_json = to_json and json_of = json_of and E = E and reqs = reqs and ip = ip]
      default.https_connection_kept [where V = V and w = "((engine, v), [])" and C = C and url_parse = url_parse
        and to_json = to_json and json_of = json_of and E = E and N = N and T = T and ip = ip]
      default_engine_selected [OF assms(1-5)] assms(6)
    by (simp add: c Let_def)
qed

definition quiet_js_env :: "unit js_env" where
  "quiet_js_env = \<lparr>file_mtime = (\<lambda>_ w. (None, w)), read_to_string = (\<lambda>_ w. (Ok [], w)), task_joins = (\<lambda>w. (True, w))\<rparr>"

definition default_proxy :: "(header_list, unit, unit, js_engine \<times> unit) proxy_ctx" where
  "default_proxy =
     \<lparr>hdr = list_headers, uri_to_string = (\<lambda>u. ''http://'' @ the (uri_authority u)), uri_parse = (\<lambda>u. Ok (sample_uri u)),
      ctx_engine = v8_rule_engine (\<lambda>_. Err ''bad'') accept_all_v8 (\<lambda>_. Ok []) (\<lambda>_. None) quiet_js_env,
      client_request = (\<lambda>q w. (Err ''down'', w)), loop_nonce = ''7''\<rparr>"

definition https_client :: "string \<Rightarrow> (header_list, unit, unit, unit, unit) conn_ops" where
  \<comment> \<open>a client whose first bytes are given and that sends one request once TLS is up\<close>
  "https_client bytes =
     \<lparr>peek = (\<lambda>n w. (Peeked (take n bytes), w)), read_first_line = (\<lambda>w. (ConnLine ''CONNECT a:443 HTTP/1.1'', w)),
      header_lines = (\<lambda>w. ([], w)), write_flush = (\<lambda>s w. (Done, w)), get_cert_for_host = (\<lambda>h w. (Ok (), w)),
      with_single_cert = (\<lambda>_. Ok ()), tls_accept = (\<lambda>_ w. (Done, w)),
      incoming = (\<lambda>w. (([sample_request ''a'' [] ()], Ok ()), w)), respond = (\<lambda>_ w. w)\<rparr>"

theorem default_sends_nothing_witness:
  "select_engine accept_all_v8 quiet_js_env no_args () = (Started (JavaScript default_engine), ()) \<and>
   sends (snd (snd (handle_http_connection (watch default_proxy) [sample_request ''a'' [] ()] ''::1''
     ((default_engine, ()), [])))) = 0 \<and>
   sends (snd (snd (handle_https_connection (watch default_proxy)
     \<lparr>parse_tls_plaintext = \<lambda>_. None, parse_tls_extensions = \<lambda>_. None\<rparr>
     (watch_conn (beside (https_client [CHR 0x16, CHR 0x03]))) ''::1'' ((default_engine, ()), [])))) = 0"
proof -
  have s: "select_engine accept_all_v8 quiet_js_env no_args () = (Started (JavaScript default_engine), ())"
    by (simp add: select_engine_def no_args_def js_started_def v8_new_def new_with_file_def validate_js_code_def
        accept_all_v8_def default_engine_def)
  have f: "false_is_false accept_all_v8" by (simp add: false_is_false_def accept_all_v8_def)
  have c: "ctx_engine default_proxy = v8_rule_engine (\<lambda>_. Err ''bad'') accept_all_v8 (\<lambda>_. Ok []) (\<lambda>_. None) quiet_js_env"
    by (simp add: default_proxy_def)
  have "ra_sh no_args = None" "ra_proc no_args = None" "ra_js no_args = None" "ra_js_file no_args = None"
    by (simp_all add: no_args_def)
  from default_sends_nothing [OF s this f c, of "[sample_request ''a'' [] ()]" "''::1''" "()"
      "\<lparr>parse_tls_plaintext = \<lambda>_. None, parse_tls_extensions = \<lambda>_. None\<rparr>"
      "https_client [CHR 0x16, CHR 0x03]"] s
  show ?thesis unfolding Let_def by blast
qed

end
